theory Spec2Isabelle
  imports Complex_Main
begin

section \<open>Numbers\<close>

text \<open>
  The program computes on JavaScript numbers, which are IEEE doubles. They are modelled
  as real numbers, so the statements below are about exact real arithmetic, except
  where rounding is named: the translation is modelled a second time with every
  difference and sum rounded to the nearest double (\<open>toDouble\<close> below).
  Two operators of the language need care, because HOL's total functions differ from
  them: the remainder \<^verbatim>\<open>%\<close>, which truncates towards zero and so carries the sign of
  the dividend, and the division by zero, whose result (an infinity or NaN) is no real
  number. The program divides in one place, for the scale factors; there the quotient
  is a \<open>jsNumber\<close>, and a geometry scaled by a factor that is not finite is a geometry
  whose coordinates are not finite (see below).
\<close>

type_synonym coordinate = "real \<times> real"

text \<open>Extents are \<^verbatim>\<open>[minX, minY, maxX, maxY]\<close>.\<close>

type_synonym extent = "real \<times> real \<times> real \<times> real"

definition jsTrunc :: "real \<Rightarrow> int" where
  "jsTrunc q = (if 0 \<le> q then \<lfloor>q\<rfloor> else \<lceil>q\<rceil>)"

text \<open>\<^verbatim>\<open>a % b\<close> on numbers, for a divisor other than zero.\<close>

definition jsRem :: "real \<Rightarrow> real \<Rightarrow> real" where
  "jsRem a b = a - b * of_int (jsTrunc (a / b))"

text \<open>\<^verbatim>\<open>a % b\<close> on integral numbers.\<close>

definition jsRemInt :: "int \<Rightarrow> int \<Rightarrow> int" where
  "jsRemInt a b = sgn a * (\<bar>a\<bar> mod \<bar>b\<bar>)"

text \<open>
  A number that may be an infinity or NaN. \<^verbatim>\<open>a / b\<close> for real \<open>a\<close> and \<open>b\<close>: the zero
  divisor of the program is a distance, that is \<open>+0\<close>, so the quotient is \<open>+\<infinity>\<close> for a
  positive dividend, \<open>-\<infinity>\<close> for a negative one and NaN for \<open>0 / 0\<close>. \<^verbatim>\<open>q + r\<close> and
  \<^verbatim>\<open>q < r\<close> for a real \<open>r\<close>: a comparison with NaN is false.
\<close>

datatype jsNumber = Finite real | PosInfinity | NegInfinity | NaN

definition jsDiv :: "real \<Rightarrow> real \<Rightarrow> jsNumber" where
  "jsDiv a b =
     (if b \<noteq> 0 then Finite (a / b)
      else if 0 < a then PosInfinity
      else if a < 0 then NegInfinity
      else NaN)"

definition jsAdd :: "jsNumber \<Rightarrow> real \<Rightarrow> jsNumber" where
  "jsAdd q r = (case q of Finite x \<Rightarrow> Finite (x + r) | _ \<Rightarrow> q)"

definition jsLess :: "jsNumber \<Rightarrow> real \<Rightarrow> bool" where
  "jsLess q r = (case q of Finite x \<Rightarrow> x < r | NegInfinity \<Rightarrow> True | _ \<Rightarrow> False)"

text \<open>
  The double nearest to a real number, ties to the even significand: a double has 53
  significant bits, and the exponent of its last bit is not below \<open>-1074\<close>. Overflow
  is not modelled: a number of magnitude \<open>2^1024\<close> or more, which a double operation
  turns into an infinity, is rounded like the others.
\<close>

definition roundTiesToEven :: "real \<Rightarrow> int" where
  "roundTiesToEven r =
     (let n = \<lfloor>r\<rfloor>; d = r - of_int n
      in if d < 1 / 2 then n else if 1 / 2 < d then n + 1 else if even n then n else n + 1)"

definition toDouble :: "real \<Rightarrow> real" where
  "toDouble x =
     (if x = 0 then 0
      else (let e = max (\<lfloor>log 2 \<bar>x\<bar>\<rfloor> - 52) (- 1074)
            in of_int (roundTiesToEven (x / 2 powr of_int e)) * 2 powr of_int e))"

text \<open>
  \<^verbatim>\<open>Math.atan2(y, x)\<close> over the reals (signed zeros do not exist here, so the value at
  \<open>y = 0\<close>, \<open>x < 0\<close> is \<open>\<pi>\<close>, and the value at the origin is \<open>0\<close>).
\<close>

definition atan2 :: "real \<Rightarrow> real \<Rightarrow> real" where
  "atan2 y x =
     (if 0 < x then arctan (y / x)
      else if x < 0 then (if 0 \<le> y then arctan (y / x) + pi else arctan (y / x) - pi)
      else if 0 < y then pi / 2
      else if y < 0 then - (pi / 2)
      else 0)"

section \<open>Geometry primitives of the map library\<close>

text \<open>
  Modelled from the spec: the geometry primitives of the external map library
  (clone, translate, rotate, scale, getExtent, getCenter, boundingExtent, fromExtent),
  which are not part of the repository. They act on the coordinates of a geometry with
  the standard Euclidean meaning. A geometry is a point or an area given by its
  coordinates (for a polygon, its closed ring). Geometries are values here, so
  \<^verbatim>\<open>clone()\<close> is the identity.

  \<open>NonFinitePoint\<close> and \<open>NonFinitePolygon\<close> stand for a point and an area whose
  coordinates are infinities or NaN, as a scale by a factor that is not finite leaves
  them; which of these values the coordinates are is not modelled. Sums and products
  with such coordinates are again not finite, so translating, rotating and scaling map
  such a geometry to itself. It has no real coordinates, and what the model says of its
  extent is, as for a polygon without coordinates, a placeholder.
\<close>

datatype geometry =
  Point coordinate | Polygon "coordinate list" | NonFinitePoint | NonFinitePolygon

fun coordinatesOf :: "geometry \<Rightarrow> coordinate list" where
  "coordinatesOf (Point c) = [c]"
| "coordinatesOf (Polygon cs) = cs"
| "coordinatesOf NonFinitePoint = []"
| "coordinatesOf NonFinitePolygon = []"

fun mapGeometry :: "(coordinate \<Rightarrow> coordinate) \<Rightarrow> geometry \<Rightarrow> geometry" where
  "mapGeometry f (Point c) = Point (f c)"
| "mapGeometry f (Polygon cs) = Polygon (map f cs)"
| "mapGeometry f NonFinitePoint = NonFinitePoint"
| "mapGeometry f NonFinitePolygon = NonFinitePolygon"

text \<open>
  What a geometry becomes when each of its coordinates is multiplied by a factor that
  is not finite.
\<close>

fun nonFinite :: "geometry \<Rightarrow> geometry" where
  "nonFinite (Point c) = NonFinitePoint"
| "nonFinite (Polygon []) = Polygon []"
| "nonFinite (Polygon (c # cs)) = NonFinitePolygon"
| "nonFinite NonFinitePoint = NonFinitePoint"
| "nonFinite NonFinitePolygon = NonFinitePolygon"

definition translateCoord :: "real \<Rightarrow> real \<Rightarrow> coordinate \<Rightarrow> coordinate" where
  "translateCoord dx dy p = (fst p + dx, snd p + dy)"

definition rotateCoord :: "real \<Rightarrow> coordinate \<Rightarrow> coordinate \<Rightarrow> coordinate" where
  "rotateCoord a anchor p =
     (fst anchor + (fst p - fst anchor) * cos a - (snd p - snd anchor) * sin a,
      snd anchor + (fst p - fst anchor) * sin a + (snd p - snd anchor) * cos a)"

definition scaleCoord :: "real \<Rightarrow> real \<Rightarrow> coordinate \<Rightarrow> coordinate \<Rightarrow> coordinate" where
  "scaleCoord sx sy anchor p =
     (fst anchor + sx * (fst p - fst anchor), snd anchor + sy * (snd p - snd anchor))"

definition translateGeometry :: "real \<Rightarrow> real \<Rightarrow> geometry \<Rightarrow> geometry" where
  "translateGeometry dx dy = mapGeometry (translateCoord dx dy)"

text \<open>The translation with each sum rounded to a double.\<close>

definition translateCoordDouble :: "real \<Rightarrow> real \<Rightarrow> coordinate \<Rightarrow> coordinate" where
  "translateCoordDouble dx dy p = (toDouble (fst p + dx), toDouble (snd p + dy))"

definition translateGeometryDouble :: "real \<Rightarrow> real \<Rightarrow> geometry \<Rightarrow> geometry" where
  "translateGeometryDouble dx dy = mapGeometry (translateCoordDouble dx dy)"

definition rotateGeometry :: "real \<Rightarrow> coordinate \<Rightarrow> geometry \<Rightarrow> geometry" where
  "rotateGeometry a anchor = mapGeometry (rotateCoord a anchor)"

definition scaleGeometry :: "real \<Rightarrow> real \<Rightarrow> coordinate \<Rightarrow> geometry \<Rightarrow> geometry" where
  "scaleGeometry sx sy anchor = mapGeometry (scaleCoord sx sy anchor)"

text \<open>\<^verbatim>\<open>geom.scale(sx, sy, anchor)\<close> with factors that may be infinite or NaN.\<close>

definition scaleGeometryJs :: "jsNumber \<Rightarrow> jsNumber \<Rightarrow> coordinate \<Rightarrow> geometry \<Rightarrow> geometry" where
  "scaleGeometryJs sx sy anchor g =
     (case (sx, sy) of
        (Finite x, Finite y) \<Rightarrow> scaleGeometry x y anchor g
      | _ \<Rightarrow> nonFinite g)"

definition extendCoordinate :: "extent \<Rightarrow> coordinate \<Rightarrow> extent" where
  "extendCoordinate e p =
     (case e of (minX, minY, maxX, maxY) \<Rightarrow>
        (min minX (fst p), min minY (snd p), max maxX (fst p), max maxY (snd p)))"

text \<open>
  The library starts from the empty extent \<open>[\<infinity>, \<infinity>, -\<infinity>, -\<infinity>]\<close> and extends it by each
  coordinate, so the first coordinate sets all four bounds. The extent of no coordinate
  at all is not a tuple of reals; the model gives it the value \<open>(0, 0, 0, 0)\<close>, and
  statements that depend on an extent are about geometries with a coordinate.
\<close>

fun boundingExtent :: "coordinate list \<Rightarrow> extent" where
  "boundingExtent [] = (0, 0, 0, 0)"
| "boundingExtent (p # ps) = foldl extendCoordinate (fst p, snd p, fst p, snd p) ps"

definition getExtent :: "geometry \<Rightarrow> extent" where
  "getExtent g = boundingExtent (coordinatesOf g)"

definition getCenter :: "extent \<Rightarrow> coordinate" where
  "getCenter e =
     (case e of (minX, minY, maxX, maxY) \<Rightarrow> ((minX + maxX) / 2, (minY + maxY) / 2))"

text \<open>The ring of the polygon that \<^verbatim>\<open>fromExtent\<close> builds.\<close>

definition fromExtent :: "extent \<Rightarrow> coordinate list" where
  "fromExtent e =
     (case e of (minX, minY, maxX, maxY) \<Rightarrow>
        [(minX, minY), (minX, maxY), (maxX, maxY), (maxX, minY), (minX, minY)])"

section \<open>Utilities\<close>

text \<open>
  \<^verbatim>\<open>rearrangeCoords\<close> reads \<^verbatim>\<open>coords[0]\<close> to \<^verbatim>\<open>coords[3]\<close>; on fewer than four
  coordinates the source raises a TypeError, which the only caller (passing the
  five-point ring of \<^verbatim>\<open>fromExtent\<close>) never meets; the model returns \<open>[]\<close> there.
\<close>

fun rearrangeCoords :: "coordinate list \<Rightarrow> coordinate list" where
  "rearrangeCoords (c0 # c1 # c2 # c3 # _) =
     (let minX = min (min (min (fst c0) (fst c1)) (fst c2)) (fst c3);
          maxX = max (max (max (fst c0) (fst c1)) (fst c2)) (fst c3);
          minY = min (min (min (snd c0) (snd c1)) (snd c2)) (snd c3);
          maxY = max (max (max (snd c0) (snd c1)) (snd c2)) (snd c3)
      in [(minX, maxY), (minX, minY), (maxX, minY), (maxX, maxY), (minX, maxY)])"
| "rearrangeCoords _ = []"

definition calcSize :: "coordinate \<Rightarrow> coordinate \<Rightarrow> real \<times> real" where
  "calcSize c1 c2 = (\<bar>fst c1 - fst c2\<bar>, \<bar>snd c1 - snd c2\<bar>)"

definition calcDistance :: "coordinate \<Rightarrow> coordinate \<Rightarrow> real" where
  "calcDistance c1 c2 =
     (case calcSize c1 c2 of (width, height) \<Rightarrow> sqrt (width ^ 2 + height ^ 2))"

section \<open>Data model\<close>

text \<open>
  Body features live in the layers of the map and are referred to by reference. The
  model names each by an identifier and keeps the features in a store, so that the
  selection (a collection of references) and the snapshot (a collection of clones, that
  is of values) are told apart. A feature carries its geometry and its properties, of
  which the program reads and writes only \<^verbatim>\<open>"angle"\<close>. Styles are not modelled.
\<close>

type_synonym fid = nat

record feature =
  geometry :: geometry
  angle :: "real option"

text \<open>\<^verbatim>\<open>TransformMode = "" | "translate" | "scale" | "rotate"\<close>; \<open>Idle\<close> is \<^verbatim>\<open>""\<close>.\<close>

datatype transformMode = Idle | Translate | Scale | Rotate

text \<open>\<^verbatim>\<open>HandleFeature\<close>: the index defaults to \<open>-1\<close>.\<close>

record handleFeature =
  handleGeometry :: geometry
  body :: fid
  handleMode :: transformMode
  index :: int

text \<open>What the hit test can find: a feature of the handle layer, or a body feature.\<close>

datatype candidate = Handle handleFeature | Body fid

datatype transformEventType =
  Mousedown | Mousemove | Mouseup
  | Transformstart | Transforming | Transformend
  | Translatestart | Translating | Translateend
  | Rotatestart | Rotating | Rotateend
  | Scalestart | Scaling | Scaleend

record transformEvent =
  eventType :: transformEventType
  startCoordinate :: coordinate
  eventCoordinate :: coordinate

text \<open>
  A pointer event of the map. \<open>atPixel\<close> lists, in the order of the hit test, the
  features with a geometry found at \<^verbatim>\<open>evt.pixel\<close> on the handle layer and the
  configured layers; \<open>shouldGetFeature\<close> and \<open>addCondition\<close> are the values of the two
  configured predicates for this event.
\<close>

record mapBrowserEvent =
  coordinate :: coordinate
  atPixel :: "candidate list"
  shouldGetFeature :: "candidate \<Rightarrow> bool"
  addCondition :: bool

record rotationSelection =
  rotAngle :: real
  rotCenter :: coordinate

record scalingSelection =
  scAngle :: real
  scW :: real
  scH :: real
  scHandleIdx :: int
  scOppositeIdx :: int
  scOppositeCoord :: coordinate
  scStartCoord :: coordinate

text \<open>
  The fields of \<^verbatim>\<open>Transform\<close>, with the store of body features and the list of
  dispatched notifications.
\<close>

record state =
  store :: "fid \<Rightarrow> feature"
  selections :: "fid list"
  prevSelections :: "feature list"
  handleLayer :: "handleFeature list"
  mode :: transformMode
  isTransformed :: bool
  startCoord :: coordinate
  prevCoord :: coordinate
  rotationSel :: rotationSelection
  scalingSel :: scalingSelection
  headInverted :: bool
  dispatched :: "transformEvent list"

datatype error = TypeError

definition scaleHandlesLength :: int where
  "scaleHandlesLength = 8"

definition initialState :: "(fid \<Rightarrow> feature) \<Rightarrow> state" where
  "initialState s =
     \<lparr>store = s, selections = [], prevSelections = [], handleLayer = [], mode = Idle,
      isTransformed = False, startCoord = (0, 0), prevCoord = (0, 0),
      rotationSel = \<lparr>rotAngle = 0, rotCenter = (0, 0)\<rparr>,
      scalingSel = \<lparr>scAngle = 0, scW = 0, scH = 0, scHandleIdx = - 1, scOppositeIdx = - 1,
                    scOppositeCoord = (0, 0), scStartCoord = (0, 0)\<rparr>,
      headInverted = False, dispatched = []\<rparr>"

section \<open>Oriented box and handles\<close>

text \<open>\<^verbatim>\<open>feat.get("angle") ?? 0\<close>\<close>

definition angleOrZero :: "feature \<Rightarrow> real" where
  "angleOrZero feat = (case angle feat of None \<Rightarrow> 0 | Some a \<Rightarrow> a)"

text \<open>
  The block that \<^verbatim>\<open>handleDownEvent\<close>, \<^verbatim>\<open>handleDragEvent\<close> and \<^verbatim>\<open>genHandles\<close> each
  repeat: undo the stored rotation about the centre of the raw extent, take the extent,
  reorder its corners, and rotate them back about the same centre.
\<close>

definition orientedBoxCoords :: "real \<Rightarrow> geometry \<Rightarrow> coordinate list" where
  "orientedBoxCoords a geom =
     (let normalCenter = getCenter (getExtent geom);
          normalGeo = rotateGeometry (- a) normalCenter geom;
          normalExt = getExtent normalGeo;
          ring = rearrangeCoords (fromExtent normalExt)
      in map (rotateCoord a normalCenter) ring)"

text \<open>
  \<^verbatim>\<open>calcScaleHandleCoord\<close>, with the source's picture of the ring:
  \<^verbatim>\<open>0 7 6 / 1 5 / 2 3 4\<close>. It destructures four corners; it is only applied to the
  five-point ring of the oriented box. \<open>cTL\<close>, \<open>cBL\<close>, \<open>cBR\<close>, \<open>cTR\<close> are the source's
  \<^verbatim>\<open>tl\<close>, \<^verbatim>\<open>bl\<close>, \<^verbatim>\<open>br\<close>, \<^verbatim>\<open>tr\<close>.
\<close>

fun calcScaleHandleCoord :: "coordinate list \<Rightarrow> int \<Rightarrow> coordinate" where
  "calcScaleHandleCoord (cTL # cBL # cBR # cTR # _) handleIdx =
     (if handleIdx = 0 then cTL
      else if handleIdx = 1 then getCenter (boundingExtent [cTL, cBL])
      else if handleIdx = 2 then cBL
      else if handleIdx = 3 then getCenter (boundingExtent [cBL, cBR])
      else if handleIdx = 4 then cBR
      else if handleIdx = 5 then getCenter (boundingExtent [cBR, cTR])
      else if handleIdx = 6 then cTR
      else if handleIdx = 7 then getCenter (boundingExtent [cTR, cTL])
      else (0, 0))"
| "calcScaleHandleCoord _ handleIdx = (0, 0)"

definition rotatePoint :: "coordinate \<Rightarrow> coordinate \<Rightarrow> real \<Rightarrow> coordinate" where
  "rotatePoint p anchor a =
     (case p of (x, y) \<Rightarrow> case anchor of (ax, ay) \<Rightarrow>
        ((x - ax) * cos a - (y - ay) * sin a + ax, (x - ax) * sin a + (y - ay) * cos a + ay))"

definition genTranslateHandle :: "feature \<Rightarrow> fid \<Rightarrow> handleFeature" where
  "genTranslateHandle feat f =
     (case geometry feat of
        Point coord \<Rightarrow>
          \<lparr>handleGeometry = Point coord, body = f, handleMode = Translate, index = - 1\<rparr>
      | Polygon cs \<Rightarrow>
          \<lparr>handleGeometry = Polygon (fromExtent (getExtent (geometry feat))), body = f,
           handleMode = Translate, index = - 1\<rparr>
      | NonFinitePoint \<Rightarrow>
          \<lparr>handleGeometry = NonFinitePoint, body = f, handleMode = Translate, index = - 1\<rparr>
      | NonFinitePolygon \<Rightarrow>
          \<lparr>handleGeometry = NonFinitePolygon, body = f, handleMode = Translate, index = - 1\<rparr>)"

definition genHandles :: "feature \<Rightarrow> fid \<Rightarrow> handleFeature list" where
  "genHandles feat f =
     (case geometry feat of
        Point coord \<Rightarrow> []
      | Polygon cs \<Rightarrow>
          (let coords = orientedBoxCoords (angleOrZero feat) (geometry feat);
               headCoord = calcScaleHandleCoord coords 7;
               rotateHandle =
                 \<lparr>handleGeometry = Point headCoord, body = f, handleMode = Rotate, index = - 1\<rparr>
           in rotateHandle #
              map (\<lambda>i. \<lparr>handleGeometry = Point (calcScaleHandleCoord coords i), body = f,
                         handleMode = Scale, index = i\<rparr>)
                [0 .. scaleHandlesLength - 1])
      | NonFinitePoint \<Rightarrow> []
      | NonFinitePolygon \<Rightarrow>
          \<lparr>handleGeometry = NonFinitePoint, body = f, handleMode = Rotate, index = - 1\<rparr> #
          map (\<lambda>i. \<lparr>handleGeometry = NonFinitePoint, body = f, handleMode = Scale, index = i\<rparr>)
            [0 .. scaleHandlesLength - 1])"

fun drawLoop :: "(fid \<Rightarrow> feature) \<Rightarrow> nat \<Rightarrow> fid list \<Rightarrow> handleFeature list \<Rightarrow> handleFeature list" where
  "drawLoop s i [] layer = layer"
| "drawLoop s i (sel # sels) layer =
     (let layer1 = (if i = 0 then layer @ genHandles (s sel) sel else layer);
          layer2 = layer1 @ [genTranslateHandle (s sel) sel]
      in drawLoop s (Suc i) sels layer2)"

definition drawHandles :: "state \<Rightarrow> state" where
  "drawHandles st = st\<lparr>handleLayer := drawLoop (store st) 0 (selections st) []\<rparr>"

section \<open>The selection collection\<close>

text \<open>
  Modelled from the spec: the collection class of the map library. The constructor
  registers \<^verbatim>\<open>drawHandles\<close> for the add and remove events of the selection, so every
  element added or removed redraws the handles; \<^verbatim>\<open>clear\<close> pops the elements one by
  one. The snapshot collection has no listener.
\<close>

definition selPush :: "fid \<Rightarrow> state \<Rightarrow> state" where
  "selPush f st = drawHandles (st\<lparr>selections := selections st @ [f]\<rparr>)"

definition selRemoveAt :: "nat \<Rightarrow> state \<Rightarrow> state" where
  "selRemoveAt i st =
     (if i < length (selections st)
      then drawHandles (st\<lparr>selections := take i (selections st) @ drop (Suc i) (selections st)\<rparr>)
      else st)"

definition selPop :: "state \<Rightarrow> state" where
  "selPop st = selRemoveAt (length (selections st) - 1) st"

definition selClear :: "state \<Rightarrow> state" where
  "selClear st = (selPop ^^ length (selections st)) st"

text \<open>\<^verbatim>\<open>Array.prototype.indexOf\<close>: the first index, or \<open>-1\<close>.\<close>

fun indexOf :: "'a list \<Rightarrow> 'a \<Rightarrow> int" where
  "indexOf [] x = - 1"
| "indexOf (y # ys) x =
     (if x = y then 0 else (let i = indexOf ys x in if i = - 1 then - 1 else i + 1))"

section \<open>The interaction\<close>

text \<open>
  \<^verbatim>\<open>dispatchTransformEvent\<close> hands a notification to listeners outside the program;
  they are taken not to change the interaction or the features, so the model only
  records the notification, with the start coordinate held at that moment.
\<close>

definition dispatchTransformEvent :: "transformEventType \<Rightarrow> mapBrowserEvent \<Rightarrow> state \<Rightarrow> state" where
  "dispatchTransformEvent t evt st =
     st\<lparr>dispatched := dispatched st @
          [\<lparr>eventType = t, startCoordinate = startCoord st, eventCoordinate = coordinate evt\<rparr>]\<rparr>"

text \<open>
  \<^verbatim>\<open>selectFeature\<close>: the hit test calls the callback on each feature at the pixel until
  the callback returns one. The interaction is taken to be attached to a map.
\<close>

fun selectFeature :: "mapBrowserEvent \<Rightarrow> candidate list \<Rightarrow> state \<Rightarrow> candidate option \<times> state" where
  "selectFeature evt [] st = (None, st)"
| "selectFeature evt (feat # rest) st =
     (if \<not> shouldGetFeature evt feat then selectFeature evt rest st
      else (case feat of
              Handle h \<Rightarrow> (Some feat, st)
            | Body f \<Rightarrow>
                (let i = indexOf (selections st) f;
                     st1 = (if addCondition evt
                            then (if i = - 1 then selPush f st else selRemoveAt (nat i) st)
                            else (if i = - 1 then selPush f (selClear st) else st))
                 in (Some feat, st1))))"

text \<open>The initial setting of \<^verbatim>\<open>handleDownEvent\<close> when a handle was hit.\<close>

definition initScale :: "handleFeature \<Rightarrow> state \<Rightarrow> state" where
  "initScale h st =
     (let feat = store st (body h);
          geom = geometry feat;
          a = angleOrZero feat;
          coords = orientedBoxCoords a geom;
          oppositeIdx = jsRemInt (index h + round (real_of_int scaleHandlesLength * (1 / 2)))
                          scaleHandlesLength;
          oppositeCoord = calcScaleHandleCoord coords oppositeIdx;
          startC = rotatePoint (calcScaleHandleCoord coords (index h)) oppositeCoord (- a)
      in st\<lparr>scalingSel :=
             \<lparr>scAngle = a, scW = calcDistance (coords ! 1) (coords ! 2),
              scH = calcDistance (coords ! 0) (coords ! 1), scHandleIdx = index h,
              scOppositeIdx = oppositeIdx, scOppositeCoord = oppositeCoord,
              scStartCoord = startC\<rparr>\<rparr>)"

definition initRotate :: "handleFeature \<Rightarrow> state \<Rightarrow> state" where
  "initRotate h st =
     (let center = getCenter (getExtent (geometry (store st (body h))))
      in st\<lparr>rotationSel :=
             \<lparr>rotAngle = atan2 (snd (startCoord st) - snd center) (fst (startCoord st) - fst center),
              rotCenter = center\<rparr>\<rparr>)"

definition initHandle :: "handleFeature \<Rightarrow> mapBrowserEvent \<Rightarrow> state \<Rightarrow> state" where
  "initHandle h evt st =
     (case mode st of
        Translate \<Rightarrow> st\<lparr>prevCoord := coordinate evt\<rparr>
      | Rotate \<Rightarrow> initRotate h st
      | Scale \<Rightarrow> initScale h st
      | Idle \<Rightarrow> st)"

definition dispatchStart :: "mapBrowserEvent \<Rightarrow> state \<Rightarrow> state" where
  "dispatchStart evt st =
     (case mode st of
        Translate \<Rightarrow> dispatchTransformEvent Translatestart evt st
      | Rotate \<Rightarrow> dispatchTransformEvent Rotatestart evt st
      | Scale \<Rightarrow> dispatchTransformEvent Scalestart evt st
      | Idle \<Rightarrow> st)"

definition handleDownEvent :: "mapBrowserEvent \<Rightarrow> state \<Rightarrow> bool \<times> state" where
  "handleDownEvent evt st =
     (case selectFeature evt (atPixel evt) st of
        (handleOrBody, st1) \<Rightarrow>
          (let st2 = (if handleOrBody = None then selClear st1 else st1);
               st3 = st2\<lparr>prevSelections := map (store st2) (selections st2)\<rparr>;
               st4 = dispatchTransformEvent Mousedown evt st3
           in case handleOrBody of
                None \<Rightarrow> (False, st4)
              | Some hb \<Rightarrow>
                  (let st5 = st4\<lparr>startCoord := coordinate evt\<rparr>;
                       st6 = (case hb of
                                Body f \<Rightarrow> st5\<lparr>mode := Translate, prevCoord := coordinate evt\<rparr>
                              | Handle h \<Rightarrow> initHandle h evt (st5\<lparr>mode := handleMode h\<rparr>));
                       st7 = dispatchStart evt st6
                   in (True, dispatchTransformEvent Transformstart evt st7))))"

text \<open>\<^verbatim>\<open>feature.setGeometry(geom)\<close> on a body feature.\<close>

definition setGeometry :: "fid \<Rightarrow> geometry \<Rightarrow> state \<Rightarrow> state" where
  "setGeometry f g st = st\<lparr>store := (store st)(f := (store st f)\<lparr>geometry := g\<rparr>)\<rparr>"

text \<open>Translate mode: every selected feature's geometry is translated in place.\<close>

definition translateSelections :: "real \<Rightarrow> real \<Rightarrow> state \<Rightarrow> state" where
  "translateSelections dx dy st =
     foldl (\<lambda>s sel. setGeometry sel (translateGeometry dx dy (geometry (store s sel))) s)
       st (selections st)"

text \<open>
  Rotate mode: the loop over the snapshot, \<open>sel\<close> being its \<open>i\<close>-th feature.
  \<^verbatim>\<open>sel.set("angle", ...)\<close> writes to that snapshot feature; the live feature
  \<^verbatim>\<open>this._selections.item(i)\<close> receives the geometry. When the selection has no
  \<open>i\<close>-th item the call on \<^verbatim>\<open>undefined\<close> raises a TypeError.
\<close>

fun rotateLoop :: "real \<Rightarrow> nat \<Rightarrow> feature list \<Rightarrow> state \<Rightarrow> error + state" where
  "rotateLoop da i [] st = Inr st"
| "rotateLoop da i (sel # sels) st =
     (let geom = rotateGeometry da (getCenter (getExtent (geometry sel))) (geometry sel);
          st1 = (case angle sel of
                   None \<Rightarrow> st
                 | Some a \<Rightarrow>
                     st\<lparr>prevSelections :=
                          (prevSelections st)[i := sel\<lparr>angle := Some (jsRem (a + da) (2 * pi))\<rparr>]\<rparr>)
      in if i < length (selections st1)
         then rotateLoop da (Suc i) sels (setGeometry (selections st1 ! i) geom st1)
         else Inl TypeError)"

text \<open>The switch of the scale mode on the grabbed handle's index.\<close>

definition scaleDeltas :: "int \<Rightarrow> real \<Rightarrow> real \<Rightarrow> real \<Rightarrow> real \<Rightarrow> real \<times> real" where
  "scaleDeltas handleIdx sx sy x y =
     (if handleIdx = 0 then (sx - x, y - sy)
      else if handleIdx = 1 then (sx - x, 0)
      else if handleIdx = 2 then (sx - x, sy - y)
      else if handleIdx = 3 then (0, sy - y)
      else if handleIdx = 4 then (x - sx, sy - y)
      else if handleIdx = 5 then (x - sx, 0)
      else if handleIdx = 6 then (x - sx, y - sy)
      else if handleIdx = 7 then (0, y - sy)
      else (0, 0))"

text \<open>What the scale loop does to the geometry of one snapshot feature.\<close>

definition scaleShape :: "int \<Rightarrow> jsNumber \<Rightarrow> jsNumber \<Rightarrow> feature \<Rightarrow> geometry" where
  "scaleShape oppositeIdx scaleX scaleY sel =
     (let a = angleOrZero sel;
          geom = geometry sel;
          coords = orientedBoxCoords a geom;
          oppositeCoord = calcScaleHandleCoord coords oppositeIdx
      in rotateGeometry a oppositeCoord
           (scaleGeometryJs scaleX scaleY oppositeCoord (rotateGeometry (- a) oppositeCoord geom)))"

fun scaleLoop :: "int \<Rightarrow> jsNumber \<Rightarrow> jsNumber \<Rightarrow> nat \<Rightarrow> feature list \<Rightarrow> state \<Rightarrow> error + state" where
  "scaleLoop oppositeIdx scaleX scaleY i [] st = Inr st"
| "scaleLoop oppositeIdx scaleX scaleY i (sel # sels) st =
     (if i < length (selections st)
      then scaleLoop oppositeIdx scaleX scaleY (Suc i) sels
             (setGeometry (selections st ! i) (scaleShape oppositeIdx scaleX scaleY sel) st)
      else Inl TypeError)"

text \<open>
  Scale mode. The source has no guard for a zero width or height: the scale factor is
  then an infinity or NaN, the flag is set by the comparison all the same, the loop
  runs and the notifications follow.
\<close>

definition scaleDrag :: "mapBrowserEvent \<Rightarrow> state \<Rightarrow> error + state" where
  "scaleDrag evt st =
     (let sc = scalingSel st;
          sx = fst (scStartCoord sc);
          sy = snd (scStartCoord sc);
          p = rotatePoint (coordinate evt) (scOppositeCoord sc) (- scAngle sc)
      in case scaleDeltas (scHandleIdx sc) sx sy (fst p) (snd p) of
           (dx, dy) \<Rightarrow>
             (let scaleX = jsAdd (jsDiv dx (scW sc)) 1;
                  scaleY = jsAdd (jsDiv dy (scH sc)) 1;
                  st1 = st\<lparr>headInverted := jsLess scaleY 0\<rparr>
              in scaleLoop (scOppositeIdx sc) scaleX scaleY 0 (prevSelections st1) st1))"

text \<open>Translate mode, in real arithmetic.\<close>

definition translateDrag :: "mapBrowserEvent \<Rightarrow> state \<Rightarrow> state" where
  "translateDrag evt st =
     (let x = fst (coordinate evt);
          y = snd (coordinate evt);
          px = fst (prevCoord st);
          py = snd (prevCoord st);
          st1 = st\<lparr>prevCoord := (x, y)\<rparr>
      in translateSelections (x - px) (y - py) st1)"

text \<open>
  The translate mode in double arithmetic: the two differences are rounded, and so is
  every sum of a coordinate and a difference.
\<close>

definition translateSelectionsDouble :: "real \<Rightarrow> real \<Rightarrow> state \<Rightarrow> state" where
  "translateSelectionsDouble dx dy st =
     foldl (\<lambda>s sel. setGeometry sel (translateGeometryDouble dx dy (geometry (store s sel))) s)
       st (selections st)"

definition translateDragDouble :: "mapBrowserEvent \<Rightarrow> state \<Rightarrow> state" where
  "translateDragDouble evt st =
     (let x = fst (coordinate evt);
          y = snd (coordinate evt);
          px = fst (prevCoord st);
          py = snd (prevCoord st);
          st1 = st\<lparr>prevCoord := (x, y)\<rparr>
      in translateSelectionsDouble (toDouble (x - px)) (toDouble (y - py)) st1)"

definition rotateDrag :: "mapBrowserEvent \<Rightarrow> state \<Rightarrow> error + state" where
  "rotateDrag evt st =
     (let x = fst (coordinate evt);
          y = snd (coordinate evt);
          center = rotCenter (rotationSel st);
          da = atan2 (y - snd center) (x - fst center) - rotAngle (rotationSel st)
      in rotateLoop da 0 (prevSelections st) st)"

definition dispatchProgress :: "mapBrowserEvent \<Rightarrow> state \<Rightarrow> state" where
  "dispatchProgress evt st =
     (case mode st of
        Translate \<Rightarrow> dispatchTransformEvent Translating evt st
      | Rotate \<Rightarrow> dispatchTransformEvent Rotating evt st
      | Scale \<Rightarrow> dispatchTransformEvent Scaling evt st
      | Idle \<Rightarrow> st)"

definition handleDragEvent :: "mapBrowserEvent \<Rightarrow> state \<Rightarrow> error + state" where
  "handleDragEvent evt st =
     (let st1 = st\<lparr>handleLayer := [], isTransformed := True\<rparr>;
          r = (case mode st1 of
                 Translate \<Rightarrow> Inr (translateDrag evt st1)
               | Rotate \<Rightarrow> rotateDrag evt st1
               | Scale \<Rightarrow> scaleDrag evt st1
               | Idle \<Rightarrow> Inr st1)
      in case r of
           Inl e \<Rightarrow> Inl e
         | Inr st2 \<Rightarrow> Inr (dispatchTransformEvent Transforming evt (dispatchProgress evt st2)))"

text \<open>The half-turn of \<^verbatim>\<open>handleUpEvent\<close> on one selected feature.\<close>

definition headCorrect :: "fid \<Rightarrow> state \<Rightarrow> state" where
  "headCorrect sel st =
     (let feat = store st sel;
          geom = geometry feat
      in case angle feat of
           None \<Rightarrow> st
         | Some a \<Rightarrow>
             st\<lparr>store := (store st)(sel :=
                  \<lparr>geometry = rotateGeometry pi (getCenter (getExtent geom)) geom,
                   angle = Some (jsRem (a + pi) (2 * pi))\<rparr>)\<rparr>)"

definition dispatchEnd :: "mapBrowserEvent \<Rightarrow> state \<Rightarrow> state" where
  "dispatchEnd evt st =
     (case mode st of
        Translate \<Rightarrow> dispatchTransformEvent Translateend evt st
      | Rotate \<Rightarrow> dispatchTransformEvent Rotateend evt st
      | Scale \<Rightarrow> dispatchTransformEvent Scaleend evt st
      | Idle \<Rightarrow> st)"

definition handleUpEvent :: "mapBrowserEvent \<Rightarrow> state \<Rightarrow> bool \<times> state" where
  "handleUpEvent evt st =
     (let st1 = (if mode st = Scale \<and> headInverted st
                 then foldl (\<lambda>s sel. headCorrect sel s) st (selections st)
                 else st);
          st2 = dispatchTransformEvent Mouseup evt st1;
          st3 = (if isTransformed st2
                 then dispatchTransformEvent Transformend evt (dispatchEnd evt st2)
                 else st2);
          st4 = drawHandles st3
      in (False, st4\<lparr>mode := Idle, isTransformed := False\<rparr>))"

definition handleMoveEvent :: "mapBrowserEvent \<Rightarrow> state \<Rightarrow> state" where
  "handleMoveEvent evt st = dispatchTransformEvent Mousemove evt st"

section \<open>Gestures\<close>

text \<open>
  Modelled from the spec: the pointer interaction base class of the map library, which
  is not part of the repository. It passes drag and up events to the handlers only
  while a down event was handled, that is after \<^verbatim>\<open>handleDownEvent\<close> returned true, and
  ends the sequence when \<^verbatim>\<open>handleUpEvent\<close> returns false. A gesture is a down event,
  the drag frames, and the up event.
\<close>

fun handleDrags :: "mapBrowserEvent list \<Rightarrow> state \<Rightarrow> error + state" where
  "handleDrags [] st = Inr st"
| "handleDrags (evt # evts) st =
     (case handleDragEvent evt st of
        Inl e \<Rightarrow> Inl e
      | Inr st1 \<Rightarrow> handleDrags evts st1)"

definition gesture :: "mapBrowserEvent \<Rightarrow> mapBrowserEvent list \<Rightarrow> mapBrowserEvent \<Rightarrow> state \<Rightarrow> error + state" where
  "gesture down drags up st =
     (case handleDownEvent down st of
        (handled, st1) \<Rightarrow>
          (if handled
           then (case handleDrags drags st1 of
                   Inl e \<Rightarrow> Inl e
                 | Inr st2 \<Rightarrow> Inr (snd (handleUpEvent up st2)))
           else Inr st1))"

section \<open>Auxiliary notions\<close>

text \<open>
  Two relations between states used in the proofs: \<open>sameControl\<close> says that only the
  store and the snapshot may differ, \<open>sameGesture\<close> that only the selection and the
  handle layer may differ. \<open>startTypes\<close>, \<open>progressTypes\<close> and \<open>endTypes\<close> name the
  notification that the switch on the mode dispatches at the start of a gesture, at a
  drag frame and at the end of a gesture.
\<close>

definition sameControl :: "state \<Rightarrow> state \<Rightarrow> bool" where
  "sameControl st st' \<longleftrightarrow>
     selections st' = selections st \<and> handleLayer st' = handleLayer st \<and> mode st' = mode st \<and>
     isTransformed st' = isTransformed st \<and> startCoord st' = startCoord st \<and>
     prevCoord st' = prevCoord st \<and> rotationSel st' = rotationSel st \<and>
     scalingSel st' = scalingSel st \<and> headInverted st' = headInverted st \<and>
     dispatched st' = dispatched st"

definition sameGesture :: "state \<Rightarrow> state \<Rightarrow> bool" where
  "sameGesture st st' \<longleftrightarrow>
     store st' = store st \<and> prevSelections st' = prevSelections st \<and> mode st' = mode st \<and>
     isTransformed st' = isTransformed st \<and> startCoord st' = startCoord st \<and>
     prevCoord st' = prevCoord st \<and> rotationSel st' = rotationSel st \<and>
     scalingSel st' = scalingSel st \<and> headInverted st' = headInverted st \<and>
     dispatched st' = dispatched st"

definition startTypes :: "transformMode \<Rightarrow> transformEventType list" where
  "startTypes m = (case m of Translate \<Rightarrow> [Translatestart] | Rotate \<Rightarrow> [Rotatestart]
                   | Scale \<Rightarrow> [Scalestart] | Idle \<Rightarrow> [])"

definition endTypes :: "transformMode \<Rightarrow> transformEventType list" where
  "endTypes m = (case m of Translate \<Rightarrow> [Translateend] | Rotate \<Rightarrow> [Rotateend]
                 | Scale \<Rightarrow> [Scaleend] | Idle \<Rightarrow> [])"

definition progressTypes :: "transformMode \<Rightarrow> transformEventType list" where
  "progressTypes m = (case m of Translate \<Rightarrow> [Translating] | Rotate \<Rightarrow> [Rotating]
                 | Scale \<Rightarrow> [Scaling] | Idle \<Rightarrow> [])"

text \<open>
  \<open>assignGeoms\<close> is what the loops of the rotate and scale modes do to the store:
  the \<open>k\<close>-th geometry of the list goes to the selected feature of index \<open>i + k\<close>.
  \<open>rotatedAngle\<close> is the update of the angle in the rotate loop.
\<close>

fun assignGeoms :: "nat \<Rightarrow> geometry list \<Rightarrow> state \<Rightarrow> state" where
  "assignGeoms i [] st = st"
| "assignGeoms i (g # gs) st = assignGeoms (Suc i) gs (setGeometry (selections st ! i) g st)"

definition rotatedAngle :: "real \<Rightarrow> feature \<Rightarrow> feature" where
  "rotatedAngle da sel =
     (case angle sel of None \<Rightarrow> sel | Some a \<Rightarrow> sel\<lparr>angle := Some (jsRem (a + da) (2 * pi))\<rparr>)"

definition rotatedShape :: "real \<Rightarrow> feature \<Rightarrow> geometry" where
  "rotatedShape da sel = rotateGeometry da (getCenter (getExtent (geometry sel))) (geometry sel)"

text \<open>
  The scale factors of a drag frame: \<open>scaleFactorsJs\<close> as the frame computes them,
  \<open>scaleFactors\<close> as real numbers, which they are for a scaling state of non-zero
  width and height.
\<close>

definition scaleFactorsJs :: "mapBrowserEvent \<Rightarrow> scalingSelection \<Rightarrow> jsNumber \<times> jsNumber" where
  "scaleFactorsJs evt sc =
     (let p = rotatePoint (coordinate evt) (scOppositeCoord sc) (- scAngle sc);
          d = scaleDeltas (scHandleIdx sc) (fst (scStartCoord sc)) (snd (scStartCoord sc))
                (fst p) (snd p)
      in (jsAdd (jsDiv (fst d) (scW sc)) 1, jsAdd (jsDiv (snd d) (scH sc)) 1))"

definition scaleFactors :: "mapBrowserEvent \<Rightarrow> scalingSelection \<Rightarrow> real \<times> real" where
  "scaleFactors evt sc =
     (let p = rotatePoint (coordinate evt) (scOppositeCoord sc) (- scAngle sc);
          d = scaleDeltas (scHandleIdx sc) (fst (scStartCoord sc)) (snd (scStartCoord sc))
                (fst p) (snd p)
      in (fst d / scW sc + 1, snd d / scH sc + 1))"

text \<open>The half-turn of the pointer-up as a function on features.\<close>

definition halfTurned :: "feature \<Rightarrow> feature" where
  "halfTurned feat =
     (case angle feat of
        None \<Rightarrow> feat
      | Some a \<Rightarrow>
          \<lparr>geometry = rotateGeometry pi (getCenter (getExtent (geometry feat))) (geometry feat),
           angle = Some (jsRem (a + pi) (2 * pi))\<rparr>)"

text \<open>
  For the anchor of a scale: \<open>axisMap\<close> is a map of the plane that scales and shifts
  each axis on its own, and \<open>localHandle\<close> is the position of a ring index on an
  axis-aligned extent (the ring of \<^verbatim>\<open>calcScaleHandleCoord\<close> before the box is rotated
  back).
\<close>

definition axisMap :: "real \<Rightarrow> real \<Rightarrow> real \<Rightarrow> real \<Rightarrow> coordinate \<Rightarrow> coordinate" where
  "axisMap \<alpha> \<beta> \<gamma> \<delta> p = (\<alpha> * fst p + \<beta>, \<gamma> * snd p + \<delta>)"

definition axisExtent :: "real \<Rightarrow> real \<Rightarrow> real \<Rightarrow> real \<Rightarrow> extent \<Rightarrow> extent" where
  "axisExtent \<alpha> \<beta> \<gamma> \<delta> e =
     (case e of (x0, y0, x1, y1) \<Rightarrow> (\<alpha> * x0 + \<beta>, \<gamma> * y0 + \<delta>, \<alpha> * x1 + \<beta>, \<gamma> * y1 + \<delta>))"

definition localHandle :: "extent \<Rightarrow> int \<Rightarrow> coordinate" where
  "localHandle e k =
     (case e of (x0, y0, x1, y1) \<Rightarrow>
        if k = 0 then (x0, y1)
        else if k = 1 then (x0, (y0 + y1) / 2)
        else if k = 2 then (x0, y0)
        else if k = 3 then ((x0 + x1) / 2, y0)
        else if k = 4 then (x1, y0)
        else if k = 5 then (x1, (y0 + y1) / 2)
        else if k = 6 then (x1, y1)
        else ((x0 + x1) / 2, y1))"

definition ordered :: "extent \<Rightarrow> bool" where
  "ordered e = (case e of (x0, y0, x1, y1) \<Rightarrow> x0 \<le> x1 \<and> y0 \<le> y1)"

section \<open>Scenarios\<close>

text \<open>
  The square of the scenarios, as the closed ring of a polygon, carried by every
  feature of a store with the angle \<open>0\<close>; and a pointer event that accepts every
  candidate.
\<close>

definition square :: geometry where
  "square = Polygon [(0, 0), (10, 0), (10, 10), (0, 10), (0, 0)]"

definition squareStore :: "fid \<Rightarrow> feature" where
  "squareStore = (\<lambda>f. \<lparr>geometry = square, angle = Some 0\<rparr>)"

definition pointer :: "coordinate \<Rightarrow> candidate list \<Rightarrow> bool \<Rightarrow> mapBrowserEvent" where
  "pointer c hits add =
     \<lparr>coordinate = c, atPixel = hits, shouldGetFeature = (\<lambda>c. True), addCondition = add\<rparr>"

text \<open>
  The states of the scenarios: the square selected by a click on its body; the rotate
  handle of the overlay pressed at \<open>(5, 10)\<close>, and the pointer dragged to \<open>(10, 5)\<close>.
\<close>

definition selectedSquare :: state where
  "selectedSquare =
     snd (handleUpEvent (pointer (5, 5) [] False)
       (snd (handleDownEvent (pointer (5, 5) [Body 0] False) (initialState squareStore))))"

definition rotateHandle :: handleFeature where
  "rotateHandle = \<lparr>handleGeometry = Point (5, 10), body = 0, handleMode = Rotate, index = - 1\<rparr>"

definition scaleHandle :: "coordinate \<Rightarrow> int \<Rightarrow> handleFeature" where
  "scaleHandle c i = \<lparr>handleGeometry = Point c, body = 0, handleMode = Scale, index = i\<rparr>"

definition rotatePressed :: state where
  "rotatePressed = snd (handleDownEvent (pointer (5, 10) [Handle rotateHandle] False) selectedSquare)"

definition rotateDragged :: state where
  "rotateDragged = projr (handleDragEvent (pointer (10, 5) [] False) rotatePressed)"

text \<open>
  Scale scenarios on the selected square: the handle of index 6 at \<open>(10, 10)\<close> pressed
  and dragged to \<open>(20, 20)\<close>; for a square whose angle attribute is \<open>ang\<close> (absent
  when \<open>None\<close>), the handle of index 7 at \<open>(5, 10)\<close> pressed, dragged to \<open>(5, -10)\<close>
  and released; and then, for the angle \<open>0\<close>, the handle of index 7, now at
  \<open>(5, -10)\<close>, pressed and released without a drag.
\<close>

definition scalePressed6 :: state where
  "scalePressed6 =
     snd (handleDownEvent (pointer (10, 10) [Handle (scaleHandle (10, 10) 6)] False) selectedSquare)"

definition scaleDragged6 :: state where
  "scaleDragged6 = projr (handleDragEvent (pointer (20, 20) [] False) scalePressed6)"

definition squareWith :: "real option \<Rightarrow> fid \<Rightarrow> feature" where
  "squareWith ang = (\<lambda>f. \<lparr>geometry = square, angle = ang\<rparr>)"

definition selectedWith :: "real option \<Rightarrow> state" where
  "selectedWith ang =
     snd (handleUpEvent (pointer (5, 5) [] False)
       (snd (handleDownEvent (pointer (5, 5) [Body 0] False) (initialState (squareWith ang)))))"

definition pressed7 :: "real option \<Rightarrow> state" where
  "pressed7 ang =
     snd (handleDownEvent (pointer (5, 10) [Handle (scaleHandle (5, 10) 7)] False)
       (selectedWith ang))"

definition dragged7 :: "real option \<Rightarrow> state" where
  "dragged7 ang = projr (handleDragEvent (pointer (5, - 10) [] False) (pressed7 ang))"

definition released7 :: "real option \<Rightarrow> state" where
  "released7 ang = snd (handleUpEvent (pointer (5, - 10) [] False) (dragged7 ang))"

definition pressedAgain :: state where
  "pressedAgain =
     snd (handleDownEvent (pointer (5, - 10) [Handle (scaleHandle (5, - 10) 7)] False)
       (released7 (Some 0)))"

definition releasedAgain :: state where
  "releasedAgain = snd (handleUpEvent (pointer (5, - 10) [] False) pressedAgain)"

text \<open>
  A shape of height zero, the ring along the segment from \<open>(0, 0)\<close> to \<open>(10, 0)\<close>,
  selected by a click; then the scale handle of index 7, which lies at \<open>(5, 0)\<close>,
  pressed.
\<close>

definition flat :: geometry where
  "flat = Polygon [(0, 0), (10, 0), (10, 0), (0, 0)]"

definition flatStore :: "fid \<Rightarrow> feature" where
  "flatStore = (\<lambda>f. \<lparr>geometry = flat, angle = Some 0\<rparr>)"

definition flatSelected :: state where
  "flatSelected =
     snd (handleUpEvent (pointer (5, 0) [] False)
       (snd (handleDownEvent (pointer (5, 0) [Body 0] False) (initialState flatStore))))"

definition flatPressed :: state where
  "flatPressed =
     snd (handleDownEvent (pointer (5, 0) [Handle (scaleHandle (5, 0) 7)] False) flatSelected)"

text \<open>
  Two states for the translation in double arithmetic: the square pressed on its body
  at \<open>(5, 5)\<close>, and a point at \<open>x = 2^53 = 9007199254740992\<close>, where the doubles
  are two apart, selected by a press on it with the pointer at \<open>(0, 0)\<close>.
\<close>

definition squarePressed :: state where
  "squarePressed = snd (handleDownEvent (pointer (5, 5) [Body 0] False) (initialState squareStore))"

definition farStore :: "fid \<Rightarrow> feature" where
  "farStore = (\<lambda>f. \<lparr>geometry = Point (9007199254740992, 0), angle = None\<rparr>)"

definition farPressed :: state where
  "farPressed = snd (handleDownEvent (pointer (0, 0) [Body 0] False) (initialState farStore))"

section \<open>Auxiliary lemmas\<close>

lemma sameControl_refl: "sameControl st st"
  by (simp add: sameControl_def)

lemma sameControl_trans: "sameControl a b \<Longrightarrow> sameControl b c \<Longrightarrow> sameControl a c"
  by (simp add: sameControl_def)

lemma sameControl_setGeometry: "sameControl st (setGeometry f g st)"
  by (simp add: sameControl_def setGeometry_def)

lemma sameControl_prevSelections: "sameControl st (st\<lparr>prevSelections := ps\<rparr>)"
  by (simp add: sameControl_def)

lemma rotateLoop_sameControl:
  "rotateLoop da i sels st = Inr st' \<Longrightarrow> sameControl st st'"
proof (induction sels arbitrary: i st)
  case Nil
  then show ?case by (simp add: sameControl_refl)
next
  case (Cons sel sels)
  let ?st1 = "(case angle sel of None \<Rightarrow> st
       | Some a \<Rightarrow> st\<lparr>prevSelections := (prevSelections st)[i := sel\<lparr>angle := Some (jsRem (a + da) (2 * pi))\<rparr>]\<rparr>)"
  let ?g = "rotateGeometry da (getCenter (getExtent (geometry sel))) (geometry sel)"
  have s1: "sameControl st ?st1"
    by (cases "angle sel") (simp_all add: sameControl_def)
  from Cons.prems have lt: "i < length (selections ?st1)"
    by (simp add: Let_def split: if_splits)
  with Cons.prems have "rotateLoop da (Suc i) sels (setGeometry (selections ?st1 ! i) ?g ?st1) = Inr st'"
    by (simp add: Let_def)
  from Cons.IH [OF this] have "sameControl (setGeometry (selections ?st1 ! i) ?g ?st1) st'" .
  with s1 sameControl_setGeometry [of ?st1] show ?case
    by (meson sameControl_trans)
qed

lemma scaleLoop_sameControl:
  "scaleLoop k sx sy i sels st = Inr st' \<Longrightarrow> sameControl st st' \<and> prevSelections st' = prevSelections st"
proof (induction sels arbitrary: i st)
  case Nil
  then show ?case by (simp add: sameControl_refl)
next
  case (Cons sel sels)
  from Cons.prems have lt: "i < length (selections st)"
    by (simp split: if_splits)
  with Cons.prems have "scaleLoop k sx sy (Suc i) sels (setGeometry (selections st ! i) (scaleShape k sx sy sel) st) = Inr st'"
    by simp
  from Cons.IH [OF this] sameControl_setGeometry [of st] show ?case
    by (auto simp: setGeometry_def intro: sameControl_trans)
qed

lemma translateSelections_sameControl:
  "sameControl st (foldl (\<lambda>s sel. setGeometry sel (translateGeometry dx dy (geometry (store s sel))) s) st xs)"
  by (induction xs arbitrary: st) (auto simp: sameControl_refl intro: sameControl_trans sameControl_setGeometry)

lemma sameGesture_refl: "sameGesture st st"
  by (simp add: sameGesture_def)

lemma sameGesture_trans: "sameGesture a b \<Longrightarrow> sameGesture b c \<Longrightarrow> sameGesture a c"
  by (simp add: sameGesture_def)

lemma sameGesture_drawHandles: "sameGesture st (drawHandles st)"
  by (simp add: sameGesture_def drawHandles_def)

lemma selections_drawHandles: "selections (drawHandles st) = selections st"
  by (simp add: drawHandles_def)

lemma sameGesture_selPush: "sameGesture st (selPush f st)"
  by (simp add: sameGesture_def selPush_def drawHandles_def)

lemma selections_selPush: "selections (selPush f st) = selections st @ [f]"
  by (simp add: selPush_def drawHandles_def)

lemma sameGesture_selRemoveAt: "sameGesture st (selRemoveAt i st)"
  by (simp add: sameGesture_def selRemoveAt_def drawHandles_def)

lemma selections_selRemoveAt:
  "selections (selRemoveAt i st) =
     (if i < length (selections st) then take i (selections st) @ drop (Suc i) (selections st)
      else selections st)"
  by (simp add: selRemoveAt_def drawHandles_def)

lemma selPop_eq:
  "selections st \<noteq> [] \<Longrightarrow>
     selPop st = st\<lparr>selections := butlast (selections st),
                    handleLayer := drawLoop (store st) 0 (butlast (selections st)) []\<rparr>"
  by (simp add: selPop_def selRemoveAt_def drawHandles_def butlast_conv_take)

lemma selPop_empty: "selections st = [] \<Longrightarrow> selPop st = st"
  by (simp add: selPop_def selRemoveAt_def)

lemma sameGesture_selPop: "sameGesture st (selPop st)"
  by (simp add: selPop_def sameGesture_selRemoveAt)

lemma length_selections_selPop: "length (selections (selPop st)) = length (selections st) - 1"
  by (cases "selections st = []") (simp_all add: selPop_eq selPop_empty)

lemma funpow_selPop:
  "sameGesture st ((selPop ^^ n) st) \<and>
   length (selections ((selPop ^^ n) st)) = length (selections st) - n"
proof (induction n)
  case 0
  show ?case by (simp add: sameGesture_refl)
next
  case (Suc n)
  then show ?case
    using sameGesture_selPop [of "(selPop ^^ n) st"]
    by (auto simp: length_selections_selPop intro: sameGesture_trans)
qed

lemma sameGesture_selClear: "sameGesture st (selClear st)"
  by (simp add: selClear_def funpow_selPop)

lemma selections_selClear: "selections (selClear st) = []"
  using funpow_selPop [of st "length (selections st)"] by (simp add: selClear_def)

lemma sameGesture_selectFeature:
  "selectFeature evt cs st = (r, st') \<Longrightarrow> sameGesture st st'"
proof (induction cs arbitrary: st)
  case Nil
  then show ?case by (simp add: sameGesture_refl)
next
  case (Cons c cs)
  show ?case
  proof (cases "shouldGetFeature evt c")
    case False
    with Cons show ?thesis by simp
  next
    case True
    show ?thesis
    proof (cases c)
      case (Handle h)
      with True Cons.prems show ?thesis by (simp add: sameGesture_refl)
    next
      case (Body f)
      with True Cons.prems show ?thesis
        by (auto simp: Let_def sameGesture_refl sameGesture_selPush sameGesture_selRemoveAt
            split: if_splits
            intro: sameGesture_trans [OF sameGesture_selClear sameGesture_selPush])
    qed
  qed
qed

lemma dispatchStart_types:
  "map eventType (dispatched (dispatchStart evt st)) = map eventType (dispatched st) @ startTypes (mode st)"
  by (cases "mode st") (simp_all add: dispatchStart_def startTypes_def dispatchTransformEvent_def)

lemma dispatchEnd_types:
  "map eventType (dispatched (dispatchEnd evt st)) = map eventType (dispatched st) @ endTypes (mode st)"
  by (cases "mode st") (simp_all add: dispatchEnd_def endTypes_def dispatchTransformEvent_def)

lemma dispatchProgress_types:
  "map eventType (dispatched (dispatchProgress evt st)) = map eventType (dispatched st) @ progressTypes (mode st)"
  by (cases "mode st") (simp_all add: dispatchProgress_def progressTypes_def dispatchTransformEvent_def)

lemma dispatchStart_other:
  "mode (dispatchStart evt st) = mode st"
  "isTransformed (dispatchStart evt st) = isTransformed st"
  "headInverted (dispatchStart evt st) = headInverted st"
  "store (dispatchStart evt st) = store st"
  "selections (dispatchStart evt st) = selections st"
  "prevSelections (dispatchStart evt st) = prevSelections st"
  "prevCoord (dispatchStart evt st) = prevCoord st"
  "handleLayer (dispatchStart evt st) = handleLayer st"
  "rotationSel (dispatchStart evt st) = rotationSel st"
  "scalingSel (dispatchStart evt st) = scalingSel st"
  "startCoord (dispatchStart evt st) = startCoord st"
  by (cases "mode st"; simp add: dispatchStart_def dispatchTransformEvent_def)+

lemma dispatchEnd_other:
  "mode (dispatchEnd evt st) = mode st"
  "isTransformed (dispatchEnd evt st) = isTransformed st"
  "headInverted (dispatchEnd evt st) = headInverted st"
  "store (dispatchEnd evt st) = store st"
  "selections (dispatchEnd evt st) = selections st"
  "prevSelections (dispatchEnd evt st) = prevSelections st"
  "prevCoord (dispatchEnd evt st) = prevCoord st"
  "handleLayer (dispatchEnd evt st) = handleLayer st"
  "rotationSel (dispatchEnd evt st) = rotationSel st"
  "scalingSel (dispatchEnd evt st) = scalingSel st"
  "startCoord (dispatchEnd evt st) = startCoord st"
  by (cases "mode st"; simp add: dispatchEnd_def dispatchTransformEvent_def)+

lemma dispatchProgress_other:
  "mode (dispatchProgress evt st) = mode st"
  "isTransformed (dispatchProgress evt st) = isTransformed st"
  "headInverted (dispatchProgress evt st) = headInverted st"
  "store (dispatchProgress evt st) = store st"
  "selections (dispatchProgress evt st) = selections st"
  "prevSelections (dispatchProgress evt st) = prevSelections st"
  "prevCoord (dispatchProgress evt st) = prevCoord st"
  "handleLayer (dispatchProgress evt st) = handleLayer st"
  "rotationSel (dispatchProgress evt st) = rotationSel st"
  "scalingSel (dispatchProgress evt st) = scalingSel st"
  "startCoord (dispatchProgress evt st) = startCoord st"
  by (cases "mode st"; simp add: dispatchProgress_def dispatchTransformEvent_def)+

lemma initHandle_other:
  "mode (initHandle h evt st) = mode st"
  "isTransformed (initHandle h evt st) = isTransformed st"
  "headInverted (initHandle h evt st) = headInverted st"
  "store (initHandle h evt st) = store st"
  "selections (initHandle h evt st) = selections st"
  "prevSelections (initHandle h evt st) = prevSelections st"
  "dispatched (initHandle h evt st) = dispatched st"
  "handleLayer (initHandle h evt st) = handleLayer st"
  "startCoord (initHandle h evt st) = startCoord st"
  by (cases "mode st"; simp add: initHandle_def initRotate_def initScale_def Let_def)+

lemma handleDownEvent_handled:
  assumes "handleDownEvent evt st = (True, st')"
  shows "isTransformed st' = isTransformed st"
    and "headInverted st' = headInverted st"
    and "store st' = store st"
    and "prevSelections st' = map (store st) (selections st')"
    and "map eventType (dispatched st') =
           map eventType (dispatched st) @ [Mousedown] @ startTypes (mode st') @ [Transformstart]"
proof -
  obtain r sa where sf: "selectFeature evt (atPixel evt) st = (r, sa)"
    by (cases "selectFeature evt (atPixel evt) st")
  from sameGesture_selectFeature [OF sf] have sg: "sameGesture st sa" .
  from assms sf obtain hb where r: "r = Some hb"
    by (cases r) (simp_all add: handleDownEvent_def Let_def)
  show "isTransformed st' = isTransformed st"
    using assms sf r sg
    by (cases hb) (auto simp: handleDownEvent_def Let_def sameGesture_def dispatchTransformEvent_def
        dispatchStart_other initHandle_other)
  show "headInverted st' = headInverted st"
    using assms sf r sg
    by (cases hb) (auto simp: handleDownEvent_def Let_def sameGesture_def dispatchTransformEvent_def
        dispatchStart_other initHandle_other)
  show "store st' = store st"
    using assms sf r sg
    by (cases hb) (auto simp: handleDownEvent_def Let_def sameGesture_def dispatchTransformEvent_def
        dispatchStart_other initHandle_other)
  show "prevSelections st' = map (store st) (selections st')"
    using assms sf r sg
    by (cases hb) (auto simp: handleDownEvent_def Let_def sameGesture_def dispatchTransformEvent_def
        dispatchStart_other initHandle_other)
  show "map eventType (dispatched st') =
           map eventType (dispatched st) @ [Mousedown] @ startTypes (mode st') @ [Transformstart]"
    using assms sf r sg
    by (cases hb) (auto simp: handleDownEvent_def Let_def sameGesture_def dispatchTransformEvent_def
        dispatchStart_other initHandle_other dispatchStart_types)
qed

lemma handleDragEvent_control:
  assumes "handleDragEvent evt st = Inr st'"
  shows "mode st' = mode st" and "isTransformed st'" and "selections st' = selections st"
    and "handleLayer st' = []"
    and "map eventType (dispatched st') =
           map eventType (dispatched st) @ progressTypes (mode st) @ [Transforming]"
proof -
  let ?st1 = "st\<lparr>handleLayer := [], isTransformed := True\<rparr>"
  obtain st2 where r: "(case mode st of Translate \<Rightarrow> Inr (translateDrag evt ?st1)
               | Rotate \<Rightarrow> rotateDrag evt ?st1 | Scale \<Rightarrow> scaleDrag evt ?st1
               | Idle \<Rightarrow> Inr ?st1) = Inr st2"
    and st': "st' = dispatchTransformEvent Transforming evt (dispatchProgress evt st2)"
    using assms by (auto simp: handleDragEvent_def Let_def split: sum.splits)
  have sc: "mode st2 = mode st \<and> isTransformed st2 \<and> selections st2 = selections st \<and>
            handleLayer st2 = [] \<and> dispatched st2 = dispatched st"
  proof (cases "mode st")
    case Idle
    with r show ?thesis by auto
  next
    case Translate
    with r have "st2 = translateDrag evt ?st1" by simp
    then show ?thesis
      using translateSelections_sameControl [of "?st1\<lparr>prevCoord := coordinate evt\<rparr>"]
      by (simp add: translateDrag_def translateSelections_def Let_def sameControl_def)
  next
    case Scale
    with r have sd: "scaleDrag evt ?st1 = Inr st2" by simp
    then obtain fx fy where
      "scaleLoop (scOppositeIdx (scalingSel st)) fx fy 0 (prevSelections st)
         (?st1\<lparr>headInverted := jsLess fy 0\<rparr>) = Inr st2"
      by (auto simp: scaleDrag_def Let_def split: prod.splits)
    from scaleLoop_sameControl [OF this] show ?thesis
      by (simp add: sameControl_def)
  next
    case Rotate
    with r have "rotateDrag evt ?st1 = Inr st2" by simp
    then have "sameControl ?st1 st2"
      by (auto simp: rotateDrag_def Let_def dest: rotateLoop_sameControl)
    then show ?thesis by (simp add: sameControl_def)
  qed
  show "mode st' = mode st" using sc st'
    by (simp add: dispatchTransformEvent_def dispatchProgress_other)
  show "isTransformed st'" using sc st'
    by (simp add: dispatchTransformEvent_def dispatchProgress_other)
  show "selections st' = selections st" using sc st'
    by (simp add: dispatchTransformEvent_def dispatchProgress_other)
  show "handleLayer st' = []" using sc st'
    by (simp add: dispatchTransformEvent_def dispatchProgress_other)
  show "map eventType (dispatched st') =
           map eventType (dispatched st) @ progressTypes (mode st) @ [Transforming]"
    using sc st'
    by (simp add: dispatchTransformEvent_def dispatchProgress_types)
qed

lemma handleDrags_control:
  "handleDrags evts st = Inr st' \<Longrightarrow>
     mode st' = mode st \<and> selections st' = selections st \<and>
     isTransformed st' = (evts \<noteq> [] \<or> isTransformed st)"
proof (induction evts arbitrary: st)
  case Nil
  then show ?case by simp
next
  case (Cons e es)
  then obtain s1 where s1: "handleDragEvent e st = Inr s1" and rest: "handleDrags es s1 = Inr st'"
    by (auto split: sum.splits)
  from Cons.IH [OF rest] handleDragEvent_control [OF s1] show ?case by auto
qed

section \<open>Pointer-up lemmas\<close>

lemma headCorrect_sameControl:
  "sameControl st (headCorrect f st) \<and> prevSelections (headCorrect f st) = prevSelections st"
  by (cases "angle (store st f)") (simp_all add: headCorrect_def Let_def sameControl_def)

lemma foldl_headCorrect_sameControl:
  "sameControl st (foldl (\<lambda>s sel. headCorrect sel s) st xs) \<and>
   prevSelections (foldl (\<lambda>s sel. headCorrect sel s) st xs) = prevSelections st"
proof (induction xs arbitrary: st)
  case Nil
  show ?case by (simp add: sameControl_refl)
next
  case (Cons x xs)
  from Cons [of "headCorrect x st"] headCorrect_sameControl [of st x] show ?case
    by (auto intro: sameControl_trans)
qed

lemma handleUpEvent_types:
  "map eventType (dispatched (snd (handleUpEvent evt st))) =
     map eventType (dispatched st) @ [Mouseup] @
       (if isTransformed st then endTypes (mode st) @ [Transformend] else [])"
  using foldl_headCorrect_sameControl [of st "selections st"]
  by (simp add: handleUpEvent_def Let_def drawHandles_def dispatchTransformEvent_def
      dispatchEnd_types dispatchEnd_other sameControl_def)

lemma handleUpEvent_reset:
  "mode (snd (handleUpEvent evt st)) = Idle"
  "isTransformed (snd (handleUpEvent evt st)) = False"
  "headInverted (snd (handleUpEvent evt st)) = headInverted st"
  "selections (snd (handleUpEvent evt st)) = selections st"
  "prevSelections (snd (handleUpEvent evt st)) = prevSelections st"
  "rotationSel (snd (handleUpEvent evt st)) = rotationSel st"
  "scalingSel (snd (handleUpEvent evt st)) = scalingSel st"
  "prevCoord (snd (handleUpEvent evt st)) = prevCoord st"
  using foldl_headCorrect_sameControl [of st "selections st"]
  by (simp_all add: handleUpEvent_def Let_def drawHandles_def dispatchTransformEvent_def
      dispatchEnd_other sameControl_def)

lemma handleUpEvent_store:
  "store (snd (handleUpEvent evt st)) =
     store (if mode st = Scale \<and> headInverted st
            then foldl (\<lambda>s sel. headCorrect sel s) st (selections st) else st)"
  by (simp add: handleUpEvent_def Let_def drawHandles_def dispatchTransformEvent_def
      dispatchEnd_other)

lemma handleUpEvent_handleLayer:
  "handleLayer (snd (handleUpEvent evt st)) =
     drawLoop (store (snd (handleUpEvent evt st))) 0 (selections st) []"
  using foldl_headCorrect_sameControl [of st "selections st"]
  by (simp add: handleUpEvent_def Let_def drawHandles_def dispatchTransformEvent_def
      dispatchEnd_other sameControl_def)

section \<open>First accepted candidate\<close>

lemma selectFeature_skip:
  "\<forall>c \<in> set pre. \<not> shouldGetFeature evt c \<Longrightarrow>
     selectFeature evt (pre @ cs) st = selectFeature evt cs st"
  by (induction pre) simp_all

lemma handleDownEvent_body:
  assumes "selectFeature evt (atPixel evt) st = (Some (Body f), sa)"
  shows "handleDownEvent evt st =
     (True, dispatchTransformEvent Transformstart evt (dispatchTransformEvent Translatestart evt
        ((dispatchTransformEvent Mousedown evt (sa\<lparr>prevSelections := map (store sa) (selections sa)\<rparr>))
           \<lparr>startCoord := coordinate evt, mode := Translate, prevCoord := coordinate evt\<rparr>)))"
  using assms by (simp add: handleDownEvent_def Let_def dispatchStart_def)

lemma handleDownEvent_handle:
  assumes "selectFeature evt (atPixel evt) st = (Some (Handle h), sa)"
  shows "handleDownEvent evt st =
     (True, dispatchTransformEvent Transformstart evt (dispatchStart evt
        (initHandle h evt ((dispatchTransformEvent Mousedown evt (sa\<lparr>prevSelections := map (store sa) (selections sa)\<rparr>))
           \<lparr>startCoord := coordinate evt, mode := handleMode h\<rparr>))))"
  using assms by (simp add: handleDownEvent_def Let_def)

section \<open>Evaluation of the scenarios\<close>

lemma selectFeature_first_body:
  "selectFeature (pointer c (Body f # rest) add) (Body f # rest) st =
     (Some (Body f),
      (let i = indexOf (selections st) f
       in if add then (if i = - 1 then selPush f st else selRemoveAt (nat i) st)
          else (if i = - 1 then selPush f (selClear st) else st)))"
  by (simp add: pointer_def Let_def)

lemma selectFeature_first_handle:
  "selectFeature (pointer c (Handle h # rest) add) (Handle h # rest) st = (Some (Handle h), st)"
  by (simp add: pointer_def)

lemma pointer_simps:
  "coordinate (pointer c hits add) = c" "atPixel (pointer c hits add) = hits"
  "addCondition (pointer c hits add) = add" "shouldGetFeature (pointer c hits add) x = True"
  by (simp_all add: pointer_def)

lemma initialState_simps:
  "store (initialState s) = s" "selections (initialState s) = []"
  "prevSelections (initialState s) = []" "mode (initialState s) = Idle"
  "isTransformed (initialState s) = False" "headInverted (initialState s) = False"
  "dispatched (initialState s) = []" "handleLayer (initialState s) = []"
  by (simp_all add: initialState_def)

lemma pressBody_initial:
  assumes "handleDownEvent (pointer c [Body f] False) (initialState s) = (True, st1)"
  shows "mode st1 = Translate \<and> selections st1 = [f] \<and> store st1 = s \<and> prevCoord st1 = c \<and>
     startCoord st1 = c \<and> prevSelections st1 = [s f] \<and> \<not> isTransformed st1 \<and>
     \<not> headInverted st1"
proof -
  let ?sa = "selPush f (selClear (initialState s))"
  have sf: "selectFeature (pointer c [Body f] False) (atPixel (pointer c [Body f] False))
              (initialState s) = (Some (Body f), ?sa)"
    by (simp add: pointer_simps selectFeature_first_body initialState_simps)
  have sg: "sameGesture (initialState s) ?sa"
    by (rule sameGesture_trans [OF sameGesture_selClear sameGesture_selPush])
  have sel: "selections ?sa = [f]"
    by (simp add: selections_selPush selections_selClear)
  from assms handleDownEvent_body [OF sf] have
    "st1 = dispatchTransformEvent Transformstart (pointer c [Body f] False)
       (dispatchTransformEvent Translatestart (pointer c [Body f] False)
         ((dispatchTransformEvent Mousedown (pointer c [Body f] False)
            (?sa\<lparr>prevSelections := map (store ?sa) (selections ?sa)\<rparr>))
           \<lparr>startCoord := coordinate (pointer c [Body f] False), mode := Translate,
             prevCoord := coordinate (pointer c [Body f] False)\<rparr>))"
    by simp
  then show ?thesis
    using sg sel
    by (simp add: dispatchTransformEvent_def pointer_simps sameGesture_def initialState_simps)
qed

lemma fst_pressBody: "fst (handleDownEvent (pointer c (Body f # rest) add) st)"
  by (simp add: handleDownEvent_def pointer_simps selectFeature_first_body Let_def)

lemma handleDragEvent_translate:
  "mode st = Translate \<Longrightarrow>
     handleDragEvent evt st =
       Inr (dispatchTransformEvent Transforming evt (dispatchTransformEvent Translating evt
              (translateDrag evt (st\<lparr>handleLayer := [], isTransformed := True\<rparr>))))"
  using translateSelections_sameControl
     [of "st\<lparr>handleLayer := [], isTransformed := True, prevCoord := coordinate evt\<rparr>"
         "fst (coordinate evt) - fst (prevCoord st)" "snd (coordinate evt) - snd (prevCoord st)"
         "selections st"]
  by (simp add: handleDragEvent_def Let_def dispatchProgress_def translateDrag_def
      translateSelections_def sameControl_def)

text \<open>
  C6 (counterexample). Pressing on the body of the square and releasing without a drag
  dispatches four notifications, not only mousedown and mouseup.
\<close>

theorem press_release_notifications_counterexample:
  "map eventType (dispatched (snd (handleUpEvent (pointer (5, 5) [] False)
      (snd (handleDownEvent (pointer (5, 5) [Body 0] False) (initialState squareStore))))))
     = [Mousedown, Translatestart, Transformstart, Mouseup]
   \<and> map eventType (dispatched (snd (handleUpEvent (pointer (5, 5) [] False)
      (snd (handleDownEvent (pointer (5, 5) [Body 0] False) (initialState squareStore))))))
     \<noteq> [Mousedown, Mouseup]"
proof -
  let ?down = "pointer (5, 5) [Body 0] False"
  let ?st1 = "snd (handleDownEvent ?down (initialState squareStore))"
  have h: "handleDownEvent ?down (initialState squareStore) = (True, ?st1)"
    using fst_pressBody [of "(5, 5)" 0 "[]" False "initialState squareStore"]
    by (simp add: prod_eq_iff)
  from pressBody_initial [OF h] have m: "mode ?st1 = Translate" and t: "\<not> isTransformed ?st1"
    by simp_all
  from handleDownEvent_handled(5) [OF h] m
  have "map eventType (dispatched ?st1) = [Mousedown, Translatestart, Transformstart]"
    by (simp add: initialState_simps startTypes_def)
  then show ?thesis
    using t by (simp add: handleUpEvent_types)
qed

lemma handleDrags_types:
  "handleDrags evts st = Inr st' \<Longrightarrow>
     map eventType (dispatched st') =
       map eventType (dispatched st) @
         concat (replicate (length evts) (progressTypes (mode st) @ [Transforming]))"
proof (induction evts arbitrary: st)
  case Nil
  then show ?case by simp
next
  case (Cons e es)
  then obtain s1 where s1: "handleDragEvent e st = Inr s1" and rest: "handleDrags es s1 = Inr st'"
    by (auto split: sum.splits)
  from Cons.IH [OF rest] handleDragEvent_control(1,5) [OF s1] show ?case by simp
qed

lemma handleDownEvent_unhandled:
  assumes "handleDownEvent evt st = (False, st')"
  shows "map eventType (dispatched st') = map eventType (dispatched st) @ [Mousedown]"
proof -
  obtain r sa where sf: "selectFeature evt (atPixel evt) st = (r, sa)"
    by (cases "selectFeature evt (atPixel evt) st")
  from sameGesture_selectFeature [OF sf] have sg: "sameGesture st sa" .
  from assms sf have r: "r = None"
    by (cases r) (simp_all add: handleDownEvent_def Let_def)
  from assms sf r sg sameGesture_selClear [of sa] show ?thesis
    by (auto simp: handleDownEvent_def Let_def dispatchTransformEvent_def sameGesture_def)
qed

lemma gesture_handled:
  "fst (handleDownEvent down st) \<Longrightarrow>
     gesture down drags up st =
       (case handleDrags drags (snd (handleDownEvent down st)) of
          Inl e \<Rightarrow> Inl e
        | Inr st2 \<Rightarrow> Inr (snd (handleUpEvent up st2)))"
  by (cases "handleDownEvent down st") (simp add: gesture_def)

section \<open>Translation\<close>

lemma translateGeometry_add:
  "translateGeometry dx' dy' (translateGeometry dx dy g) = translateGeometry (dx + dx') (dy + dy') g"
  by (cases g) (simp_all add: translateGeometry_def translateCoord_def add.assoc)

lemma translateCoord_zero: "translateCoord 0 0 = (\<lambda>p. p)"
  by (simp add: fun_eq_iff translateCoord_def)

lemma translateGeometry_zero: "translateGeometry 0 0 g = g"
  by (cases g) (simp_all add: translateGeometry_def translateCoord_zero)

lemma foldl_translate_store:
  "distinct xs \<Longrightarrow>
     store (foldl (\<lambda>s sel. setGeometry sel (translateGeometry dx dy (geometry (store s sel))) s) st xs) f =
       (if f \<in> set xs then (store st f)\<lparr>geometry := translateGeometry dx dy (geometry (store st f))\<rparr>
        else store st f)"
proof (induction xs arbitrary: st)
  case Nil
  show ?case by simp
next
  case (Cons x xs)
  then show ?case by (simp add: setGeometry_def)
qed

lemma foldl_translate_prev:
  "prevSelections (foldl (\<lambda>s sel. setGeometry sel (translateGeometry dx dy (geometry (store s sel))) s) st xs) =
     prevSelections st"
  by (induction xs arbitrary: st) (simp_all add: setGeometry_def)

lemma handleDragEvent_translate_effect:
  assumes "mode st = Translate" and "distinct (selections st)"
  shows "\<exists>st'. handleDragEvent evt st = Inr st' \<and> prevCoord st' = coordinate evt \<and>
           mode st' = Translate \<and> selections st' = selections st \<and>
           prevSelections st' = prevSelections st \<and>
           (\<forall>f. store st' f =
              (if f \<in> set (selections st)
               then (store st f)\<lparr>geometry :=
                      translateGeometry (fst (coordinate evt) - fst (prevCoord st))
                        (snd (coordinate evt) - snd (prevCoord st)) (geometry (store st f))\<rparr>
               else store st f))"
proof -
  let ?s0 = "st\<lparr>handleLayer := [], isTransformed := True, prevCoord := coordinate evt\<rparr>"
  let ?dx = "fst (coordinate evt) - fst (prevCoord st)"
  let ?dy = "snd (coordinate evt) - snd (prevCoord st)"
  let ?s1 = "foldl (\<lambda>s sel. setGeometry sel (translateGeometry ?dx ?dy (geometry (store s sel))) s)
               ?s0 (selections st)"
  have td: "translateDrag evt (st\<lparr>handleLayer := [], isTransformed := True\<rparr>) = ?s1"
    by (simp add: translateDrag_def translateSelections_def Let_def)
  have sc: "sameControl ?s0 ?s1" by (rule translateSelections_sameControl)
  have st: "\<And>f. store ?s1 f = (if f \<in> set (selections st)
               then (store st f)\<lparr>geometry := translateGeometry ?dx ?dy (geometry (store st f))\<rparr>
               else store st f)"
    using foldl_translate_store [OF assms(2), of ?dx ?dy ?s0] by simp
  have pv: "prevSelections ?s1 = prevSelections st"
    by (simp add: foldl_translate_prev)
  show ?thesis
    using sc st pv assms(1)
    by (simp add: handleDragEvent_translate [OF assms(1)] td dispatchTransformEvent_def
        sameControl_def)
qed

lemma handleDrags_translate_effect:
  assumes "mode st = Translate" and "distinct (selections st)"
  shows "\<exists>st'. handleDrags frames st = Inr st' \<and>
           prevCoord st' = last (prevCoord st # map coordinate frames) \<and>
           mode st' = Translate \<and> selections st' = selections st \<and>
           prevSelections st' = prevSelections st \<and>
           headInverted st' = headInverted st \<and>
           (\<forall>f. store st' f =
              (if f \<in> set (selections st)
               then (store st f)\<lparr>geometry :=
                      translateGeometry
                        (fst (last (prevCoord st # map coordinate frames)) - fst (prevCoord st))
                        (snd (last (prevCoord st # map coordinate frames)) - snd (prevCoord st))
                        (geometry (store st f))\<rparr>
               else store st f))"
  using assms
proof (induction frames arbitrary: st)
  case Nil
  then show ?case by (simp add: translateGeometry_zero)
next
  case (Cons e es)
  from handleDragEvent_translate_effect [OF Cons.prems, of e]
  obtain s1 where s1: "handleDragEvent e st = Inr s1" and pc: "prevCoord s1 = coordinate e"
    and m1: "mode s1 = Translate" and sel1: "selections s1 = selections st"
    and pv1: "prevSelections s1 = prevSelections st"
    and st1: "\<And>f. store s1 f =
              (if f \<in> set (selections st)
               then (store st f)\<lparr>geometry :=
                      translateGeometry (fst (coordinate e) - fst (prevCoord st))
                        (snd (coordinate e) - snd (prevCoord st)) (geometry (store st f))\<rparr>
               else store st f)"
    by blast
  have d1: "distinct (selections s1)" using sel1 Cons.prems by simp
  from Cons.IH [OF m1 d1] obtain s2 where s2: "handleDrags es s1 = Inr s2"
    and pc2: "prevCoord s2 = last (prevCoord s1 # map coordinate es)"
    and m2: "mode s2 = Translate" and sel2: "selections s2 = selections s1"
    and pv2: "prevSelections s2 = prevSelections s1"
    and hi2: "headInverted s2 = headInverted s1"
    and st2: "\<And>f. store s2 f =
              (if f \<in> set (selections s1)
               then (store s1 f)\<lparr>geometry :=
                      translateGeometry
                        (fst (last (prevCoord s1 # map coordinate es)) - fst (prevCoord s1))
                        (snd (last (prevCoord s1 # map coordinate es)) - snd (prevCoord s1))
                        (geometry (store s1 f))\<rparr>
               else store s1 f)"
    by blast
  have hi1: "headInverted s1 = headInverted st"
    using handleDragEvent_translate [OF Cons.prems(1), of e] s1
      translateSelections_sameControl
       [of "st\<lparr>handleLayer := [], isTransformed := True, prevCoord := coordinate e\<rparr>"
         "fst (coordinate e) - fst (prevCoord st)" "snd (coordinate e) - snd (prevCoord st)"
         "selections st"]
    by (auto simp: dispatchTransformEvent_def translateDrag_def translateSelections_def Let_def
        sameControl_def)
  have l: "last (prevCoord st # map coordinate (e # es)) = last (coordinate e # map coordinate es)"
    by simp
  show ?case
    unfolding l
    using s1 s2 pc pc2 m2 sel1 sel2 pv1 pv2 hi1 hi2 st1 st2
    by (simp add: translateGeometry_add)
qed

text \<open>
  C9 (amended). In real arithmetic: in translate mode with a duplicate-free selection,
  after the drag frames from the press point \<open>A\<close> (the recorded reference point)
  through any intermediate positions to the last position \<open>B\<close>, and the pointer-up,
  every selected feature's geometry is its geometry at the press translated by
  \<open>B - A\<close>, whatever the frames in between; its angle and every unselected feature
  are unchanged.
\<close>

theorem translate_composition:
  assumes "mode st = Translate" and "distinct (selections st)"
  shows "\<exists>st'. handleDrags frames st = Inr st' \<and>
           (\<forall>f. store (snd (handleUpEvent up st')) f =
              (if f \<in> set (selections st)
               then (store st f)\<lparr>geometry :=
                      translateGeometry
                        (fst (last (prevCoord st # map coordinate frames)) - fst (prevCoord st))
                        (snd (last (prevCoord st # map coordinate frames)) - snd (prevCoord st))
                        (geometry (store st f))\<rparr>
               else store st f))"
proof -
  from handleDrags_translate_effect [OF assms, of frames] obtain st' where
    d: "handleDrags frames st = Inr st'" and m: "mode st' = Translate"
    and s: "\<And>f. store st' f =
              (if f \<in> set (selections st)
               then (store st f)\<lparr>geometry :=
                      translateGeometry
                        (fst (last (prevCoord st # map coordinate frames)) - fst (prevCoord st))
                        (snd (last (prevCoord st # map coordinate frames)) - snd (prevCoord st))
                        (geometry (store st f))\<rparr>
               else store st f)"
    by blast
  have "store (snd (handleUpEvent up st')) = store st'"
    using m by (simp add: handleUpEvent_store)
  with d s show ?thesis by simp
qed

text \<open>
  C9 (witness). The square is pressed on its body at \<open>(5, 5)\<close> and dragged by
  \<open>(1, -1)\<close> and then by \<open>(2, -1)\<close>: it ends translated by \<open>(3, -2)\<close>.
\<close>

theorem translate_composition_witness:
  "mode (snd (handleDownEvent (pointer (5, 5) [Body 0] False) (initialState squareStore))) = Translate
   \<and> distinct (selections (snd (handleDownEvent (pointer (5, 5) [Body 0] False) (initialState squareStore))))
   \<and> geometry (store (snd (handleUpEvent (pointer (8, 3) [] False)
        (projr (handleDrags [pointer (6, 4) [] False, pointer (8, 3) [] False]
           (snd (handleDownEvent (pointer (5, 5) [Body 0] False) (initialState squareStore)))))))
        0) = Polygon [(3, - 2), (13, - 2), (13, 8), (3, 8), (3, - 2)]"
proof -
  let ?down = "pointer (5, 5) [Body 0] False"
  let ?st1 = "snd (handleDownEvent ?down (initialState squareStore))"
  let ?frames = "[pointer (6, 4) [] False, pointer (8, 3) [] False]"
  have h: "handleDownEvent ?down (initialState squareStore) = (True, ?st1)"
    using fst_pressBody [of "(5, 5)" 0 "[]" False "initialState squareStore"]
    by (simp add: prod_eq_iff)
  note p = pressBody_initial [OF h]
  from p have m: "mode ?st1 = Translate" and d: "distinct (selections ?st1)" by simp_all
  from translate_composition [OF m d, of ?frames "pointer (8, 3) [] False"]
  obtain st' where dr: "handleDrags ?frames ?st1 = Inr st'"
    and s: "\<And>f. store (snd (handleUpEvent (pointer (8, 3) [] False) st')) f =
              (if f \<in> set (selections ?st1)
               then (store ?st1 f)\<lparr>geometry :=
                      translateGeometry
                        (fst (last (prevCoord ?st1 # map coordinate ?frames)) - fst (prevCoord ?st1))
                        (snd (last (prevCoord ?st1 # map coordinate ?frames)) - snd (prevCoord ?st1))
                        (geometry (store ?st1 f))\<rparr>
               else store ?st1 f)"
    by blast
  from dr have pj: "projr (handleDrags ?frames ?st1) = st'" by simp
  have "geometry (store (snd (handleUpEvent (pointer (8, 3) [] False) st')) 0) =
          Polygon [(3, - 2), (13, - 2), (13, 8), (3, 8), (3, - 2)]"
    using p by (simp add: s pointer_simps squareStore_def square_def translateGeometry_def
        translateCoord_def)
  with m d pj show ?thesis by simp
qed

section \<open>Translation in double arithmetic\<close>

lemma roundTiesToEven_int: "roundTiesToEven (of_int m) = m"
  by (simp add: roundTiesToEven_def)

lemma floor_log2: 
  assumes "2 ^ k \<le> \<bar>x\<bar>" and "\<bar>x\<bar> < 2 ^ Suc k"
  shows "\<lfloor>log 2 \<bar>x\<bar>\<rfloor> = int k"
proof -
  have p: "0 < \<bar>x\<bar>" using assms(1) by (smt (verit) zero_less_power)
  have "2 powr real_of_int (int k) \<le> \<bar>x\<bar>" using assms(1) by (simp add: powr_realpow)
  moreover have "\<bar>x\<bar> < 2 powr real_of_int (int k + 1)"
    using assms(2) by (simp add: powr_realpow powr_add)
  ultimately show ?thesis
    using floor_log_eq_powr_iff [of "\<bar>x\<bar>" 2 "int k"] p by simp
qed

lemma toDouble_binade:
  assumes "2 ^ k \<le> \<bar>x\<bar>" and "\<bar>x\<bar> < 2 ^ Suc k"
  shows "toDouble x = of_int (roundTiesToEven (x / 2 powr (real_of_int (int k - 52)))) * 2 powr (real_of_int (int k - 52))"
proof -
  have "x \<noteq> 0" using assms(1) by (smt (verit) zero_less_power abs_zero)
  then show ?thesis
    by (simp add: toDouble_def floor_log2 [OF assms] Let_def max_def)
qed

lemma toDouble_int:
  assumes "\<bar>m\<bar> < 2 ^ 53"
  shows "toDouble (of_int m) = of_int m"
proof (cases "m = 0")
  case True then show ?thesis by (simp add: toDouble_def)
next
  case False
  define x :: real where "x = of_int m"
  have x1: "1 \<le> \<bar>x\<bar>" using False by (simp add: x_def)
  define k where "k = nat \<lfloor>log 2 \<bar>x\<bar>\<rfloor>"
  have l0: "0 \<le> log 2 \<bar>x\<bar>" using x1 by simp
  have k: "\<lfloor>log 2 \<bar>x\<bar>\<rfloor> = int k" using l0 by (simp add: k_def)
  have "real_of_int \<bar>m\<bar> < real_of_int (2 ^ 53)"
    using assms by (simp only: of_int_less_iff)
  then have x53: "\<bar>x\<bar> < 2 powr 53" by (simp add: x_def)
  have "log 2 \<bar>x\<bar> < 53"
    using x1 x53 log_less_iff [of 2 "\<bar>x\<bar>" 53] by simp
  then have k52: "k \<le> 52" using k by linarith
  define j where "j = 52 - k"
  have e: "int k - 52 = - int j" using k52 by (simp add: j_def)
  have pw: "2 powr real_of_int (int k - 52) = 1 / 2 ^ j"
    unfolding e by (simp add: powr_minus powr_realpow divide_simps)
  have "x / (1 / 2 ^ j) = of_int (m * 2 ^ j)"
    by (simp add: x_def)
  then have r: "roundTiesToEven (x / (1 / 2 ^ j)) = m * 2 ^ j"
    by (simp only: roundTiesToEven_int)
  have x0: "x \<noteq> 0" using x1 by auto
  have mx: "max (int k - 52) (- 1074) = int k - 52" by simp
  have "toDouble x =
      of_int (roundTiesToEven (x / 2 powr real_of_int (int k - 52))) * 2 powr real_of_int (int k - 52)"
    using x0 by (simp only: toDouble_def k Let_def mx if_False)
  also have "\<dots> = of_int (m * 2 ^ j) * (1 / 2 ^ j)"
    unfolding pw by (simp only: r)
  also have "\<dots> = x" by (simp add: x_def)
  finally show ?thesis by (simp only: x_def)
qed

lemma toDouble_tie: "toDouble 9007199254740993 = 9007199254740992"
proof -
  have "toDouble 9007199254740993 = of_int (roundTiesToEven (9007199254740993 / 2 powr (real_of_int (int 53 - 52)))) * 2 powr (real_of_int (int 53 - 52))"
    by (rule toDouble_binade) simp_all
  also have "\<dots> = 9007199254740992"
    by (simp add: roundTiesToEven_def Let_def)
  finally show ?thesis .
qed

lemma toDouble_even: "toDouble 9007199254740994 = 9007199254740994"
proof -
  have "toDouble 9007199254740994 = of_int (roundTiesToEven (9007199254740994 / 2 powr (real_of_int (int 53 - 52)))) * 2 powr (real_of_int (int 53 - 52))"
    by (rule toDouble_binade) simp_all
  also have "\<dots> = 9007199254740994"
    by (simp add: roundTiesToEven_def Let_def)
  finally show ?thesis .
qed

lemma toDouble_zero: "toDouble 0 = 0"
  by (simp add: toDouble_def)

lemma toDouble_small:
  "toDouble 1 = 1" "toDouble 2 = 2" "toDouble (- 1) = - 1" "toDouble (- 2) = - 2"
  "toDouble 3 = 3" "toDouble 8 = 8" "toDouble 9 = 9" "toDouble 11 = 11" "toDouble 13 = 13"
  using toDouble_int [of 1] toDouble_int [of 2] toDouble_int [of "- 1"] toDouble_int [of "- 2"]
    toDouble_int [of 3] toDouble_int [of 8] toDouble_int [of 9] toDouble_int [of 11]
    toDouble_int [of 13]
  by simp_all

lemma farPressed_fields:
  "mode farPressed = Translate" "selections farPressed = [0]" "store farPressed = farStore"
  "prevCoord farPressed = (0, 0)"
proof -
  have h: "handleDownEvent (pointer (0, 0) [Body 0] False) (initialState farStore) = (True, farPressed)"
    using fst_pressBody [of "(0, 0)" 0 "[]" False "initialState farStore"]
    by (simp add: prod_eq_iff farPressed_def)
  from pressBody_initial [OF h]
  show "mode farPressed = Translate" "selections farPressed = [0]" "store farPressed = farStore"
    "prevCoord farPressed = (0, 0)"
    by simp_all
qed

lemma squarePressed_fields:
  "mode squarePressed = Translate" "selections squarePressed = [0]"
  "store squarePressed = squareStore" "prevCoord squarePressed = (5, 5)"
proof -
  have h: "handleDownEvent (pointer (5, 5) [Body 0] False) (initialState squareStore) =
      (True, squarePressed)"
    using fst_pressBody [of "(5, 5)" 0 "[]" False "initialState squareStore"]
    by (simp add: prod_eq_iff squarePressed_def)
  from pressBody_initial [OF h]
  show "mode squarePressed = Translate" "selections squarePressed = [0]"
    "store squarePressed = squareStore" "prevCoord squarePressed = (5, 5)"
    by simp_all
qed

lemma translateDragDouble_single:
  "selections st = [f] \<Longrightarrow>
     translateDragDouble evt st =
       st\<lparr>prevCoord := coordinate evt,
          store := (store st)(f := (store st f)\<lparr>geometry :=
            translateGeometryDouble (toDouble (fst (coordinate evt) - fst (prevCoord st)))
              (toDouble (snd (coordinate evt) - snd (prevCoord st))) (geometry (store st f))\<rparr>)\<rparr>"
  by (simp add: translateDragDouble_def translateSelectionsDouble_def Let_def setGeometry_def)

text \<open>
  C9 (counterexample). The point at \<open>x = 2^53\<close> is pressed with the pointer at
  \<open>(0, 0)\<close> and the pointer moves to \<open>(2, 0)\<close>. In double arithmetic the two frames
  \<open>(1, 0)\<close>, \<open>(2, 0)\<close> leave the point where it was, since \<open>2^53 + 1\<close> rounds to
  \<open>2^53\<close>, while the single frame \<open>(2, 0)\<close> moves it by \<open>2\<close>, which is the
  translation by \<open>B - A\<close>.
\<close>

theorem translate_rounding_counterexample:
  "mode farPressed = Translate \<and> selections farPressed = [0] \<and> prevCoord farPressed = (0, 0)
   \<and> geometry (store farPressed 0) = Point (9007199254740992, 0)
   \<and> geometry (store (translateDragDouble (pointer (2, 0) [] False)
        (translateDragDouble (pointer (1, 0) [] False) farPressed)) 0) =
       Point (9007199254740992, 0)
   \<and> geometry (store (translateDragDouble (pointer (2, 0) [] False) farPressed) 0) =
       Point (9007199254740994, 0)
   \<and> translateGeometry (2 - 0) (0 - 0) (geometry (store farPressed 0)) =
       Point (9007199254740994, 0)"
proof -
  note p = farPressed_fields
  have one: "translateDragDouble (pointer (1, 0) [] False) farPressed =
      farPressed\<lparr>prevCoord := (1, 0),
        store := farStore(0 := \<lparr>geometry = Point (9007199254740992, 0), angle = None\<rparr>)\<rparr>"
    by (simp add: translateDragDouble_single [OF p(2)] p pointer_simps farStore_def
        translateGeometryDouble_def translateCoordDouble_def toDouble_small toDouble_zero
        toDouble_tie)
  have two: "geometry (store (translateDragDouble (pointer (2, 0) [] False)
        (translateDragDouble (pointer (1, 0) [] False) farPressed)) 0) =
       Point (9007199254740992, 0)"
    unfolding one
    by (simp add: translateDragDouble_single [of _ 0] p pointer_simps
        translateGeometryDouble_def translateCoordDouble_def toDouble_small toDouble_zero
        toDouble_tie)
  have single: "geometry (store (translateDragDouble (pointer (2, 0) [] False) farPressed) 0) =
       Point (9007199254740994, 0)"
    by (simp add: translateDragDouble_single [OF p(2)] p pointer_simps farStore_def
        translateGeometryDouble_def translateCoordDouble_def toDouble_small toDouble_zero
        toDouble_even)
  have ex: "translateGeometry (2 - 0) (0 - 0) (geometry (store farPressed 0)) =
       Point (9007199254740994, 0)"
    by (simp add: p farStore_def translateGeometry_def translateCoord_def)
  have g0: "geometry (store farPressed 0) = Point (9007199254740992, 0)"
    by (simp add: p farStore_def)
  show ?thesis
    by (intro conjI p(1) p(2) p(4) g0 two single ex)
qed

lemma translateGeometryDouble_exact:
  assumes "\<forall>c \<in> set (coordinatesOf g).
             toDouble (fst c + dx) = fst c + dx \<and> toDouble (snd c + dy) = snd c + dy"
  shows "translateGeometryDouble dx dy g = translateGeometry dx dy g"
  using assms
  by (cases g)
     (simp_all add: translateGeometryDouble_def translateGeometry_def translateCoordDouble_def
        translateCoord_def)

lemma foldl_translateDouble_exact:
  assumes "distinct xs"
    and "\<forall>f \<in> set xs. \<forall>c \<in> set (coordinatesOf (geometry (store st f))).
           toDouble (fst c + dx) = fst c + dx \<and> toDouble (snd c + dy) = snd c + dy"
  shows "foldl (\<lambda>s sel. setGeometry sel (translateGeometryDouble dx dy (geometry (store s sel))) s) st xs =
         foldl (\<lambda>s sel. setGeometry sel (translateGeometry dx dy (geometry (store s sel))) s) st xs"
  using assms
proof (induction xs arbitrary: st)
  case Nil
  show ?case by simp
next
  case (Cons x xs)
  let ?s1 = "setGeometry x (translateGeometry dx dy (geometry (store st x))) st"
  from Cons.prems(2)
  have e: "translateGeometryDouble dx dy (geometry (store st x)) =
           translateGeometry dx dy (geometry (store st x))"
    by (intro translateGeometryDouble_exact) simp
  have "\<forall>f \<in> set xs. store ?s1 f = store st f"
    using Cons.prems(1) by (auto simp: setGeometry_def)
  with Cons.prems have
    "\<forall>f \<in> set xs. \<forall>c \<in> set (coordinatesOf (geometry (store ?s1 f))).
           toDouble (fst c + dx) = fst c + dx \<and> toDouble (snd c + dy) = snd c + dy"
    by simp
  with Cons.IH [of ?s1] Cons.prems(1) show ?case by (simp add: e)
qed

text \<open>
  A frame of the translation in which no difference and no sum is rounded is the frame
  in real arithmetic.
\<close>

lemma translateDragDouble_exact:
  assumes "distinct (selections st)"
    and "toDouble (fst (coordinate evt) - fst (prevCoord st)) =
           fst (coordinate evt) - fst (prevCoord st)"
    and "toDouble (snd (coordinate evt) - snd (prevCoord st)) =
           snd (coordinate evt) - snd (prevCoord st)"
    and "\<forall>f \<in> set (selections st). \<forall>c \<in> set (coordinatesOf (geometry (store st f))).
           toDouble (fst c + (fst (coordinate evt) - fst (prevCoord st))) =
             fst c + (fst (coordinate evt) - fst (prevCoord st)) \<and>
           toDouble (snd c + (snd (coordinate evt) - snd (prevCoord st))) =
             snd c + (snd (coordinate evt) - snd (prevCoord st))"
  shows "translateDragDouble evt st = translateDrag evt st"
  using foldl_translateDouble_exact
    [of "selections st" "st\<lparr>prevCoord := coordinate evt\<rparr>"
        "fst (coordinate evt) - fst (prevCoord st)" "snd (coordinate evt) - snd (prevCoord st)"]
    assms
  by (simp add: translateDragDouble_def translateDrag_def translateSelectionsDouble_def
      translateSelections_def Let_def)

text \<open>
  The scenario of the square, pressed at \<open>(5, 5)\<close> and dragged by \<open>(1, -1)\<close> and then
  by \<open>(2, -1)\<close>, in double arithmetic: no sum is rounded, and the square ends
  translated by \<open>(3, -2)\<close>.
\<close>

lemma translate_scenario_double:
  "geometry (store (translateDragDouble (pointer (8, 3) [] False)
        (translateDragDouble (pointer (6, 4) [] False) squarePressed)) 0) =
     Polygon [(3, - 2), (13, - 2), (13, 8), (3, 8), (3, - 2)]"
proof -
  note p = squarePressed_fields
  have one: "translateDragDouble (pointer (6, 4) [] False) squarePressed =
      squarePressed\<lparr>prevCoord := (6, 4),
        store := squareStore(0 := \<lparr>geometry = Polygon [(1, - 1), (11, - 1), (11, 9), (1, 9), (1, - 1)],
                   angle = Some 0\<rparr>)\<rparr>"
    by (simp add: translateDragDouble_single [OF p(2)] p pointer_simps squareStore_def square_def
        translateGeometryDouble_def translateCoordDouble_def toDouble_small toDouble_zero)
  show ?thesis
    unfolding one
    by (simp add: translateDragDouble_single [of _ 0] p pointer_simps
        translateGeometryDouble_def translateCoordDouble_def toDouble_small toDouble_zero)
qed

section \<open>Removing from the selection\<close>

lemma indexOf_notin: "indexOf xs x = - 1 \<longleftrightarrow> x \<notin> set xs"
proof (induction xs)
  case Nil
  show ?case by simp
next
  case (Cons y ys)
  have ge: "\<And>zs. - 1 \<le> indexOf zs x"
  proof -
    fix zs show "- 1 \<le> indexOf zs x" by (induction zs) (auto simp: Let_def)
  qed
  from Cons ge [of ys] show ?case by (auto simp: Let_def)
qed

lemma indexOf_ge: "- 1 \<le> indexOf xs x"
  by (induction xs) (auto simp: Let_def)

lemma indexOf_remove1:
  "x \<in> set xs \<Longrightarrow>
     nat (indexOf xs x) < length xs \<and>
     take (nat (indexOf xs x)) xs @ drop (Suc (nat (indexOf xs x))) xs = remove1 x xs"
proof (induction xs)
  case Nil
  then show ?case by simp
next
  case (Cons y ys)
  show ?case
  proof (cases "x = y")
    case True
    then show ?thesis by simp
  next
    case False
    with Cons.prems have xin: "x \<in> set ys" by simp
    with indexOf_notin [of ys x] indexOf_ge [of ys x] have pos: "0 \<le> indexOf ys x" by linarith
    then have n: "nat (indexOf ys x + 1) = Suc (nat (indexOf ys x))" by simp
    from Cons.IH [OF xin] False xin indexOf_notin [of ys x] show ?thesis
      by (simp add: Let_def n)
  qed
qed

text \<open>
  The selection never holds a feature twice: pointer-down, the only operation that
  changes it, keeps it duplicate-free.
\<close>

lemma distinct_selectFeature:
  "distinct (selections st) \<Longrightarrow> selectFeature evt cs st = (r, st') \<Longrightarrow>
     distinct (selections st')"
proof (induction cs arbitrary: st)
  case Nil
  then show ?case by simp
next
  case (Cons c cs)
  show ?case
  proof (cases "shouldGetFeature evt c")
    case False
    with Cons show ?thesis by simp
  next
    case True
    show ?thesis
    proof (cases c)
      case (Handle h)
      with True Cons.prems show ?thesis by simp
    next
      case (Body f)
      have rm: "distinct (take i (selections st) @ drop (Suc i) (selections st))" for i
        using Cons.prems(1)
        by (metis distinct_take distinct_drop distinct_append set_take_disj_set_drop_if_distinct
            Suc_n_not_le_n nat_le_linear)
      from Body True Cons.prems rm indexOf_notin [of "selections st" f] show ?thesis
        by (auto simp: Let_def selections_selPush selections_selRemoveAt selections_selClear
            split: if_splits)
    qed
  qed
qed

lemma distinct_handleDownEvent:
  assumes "distinct (selections st)"
  shows "distinct (selections (snd (handleDownEvent evt st)))"
proof -
  obtain r sa where sf: "selectFeature evt (atPixel evt) st = (r, sa)"
    by (cases "selectFeature evt (atPixel evt) st")
  from distinct_selectFeature [OF assms sf] have d: "distinct (selections sa)" .
  show ?thesis
  proof (cases r)
    case None
    with sf show ?thesis
      by (simp add: handleDownEvent_def Let_def dispatchTransformEvent_def selections_selClear)
  next
    case (Some hb)
    with sf d show ?thesis
      by (cases hb) (simp_all add: handleDownEvent_def Let_def dispatchTransformEvent_def
          dispatchStart_other initHandle_other)
  qed
qed

text \<open>
  C10. Let the first acceptable feature under the pointer be a body feature \<open>f\<close> that
  is in the (duplicate-free) selection, with the additive condition true. Then
  pointer-down removes \<open>f\<close> from the selection and is handled all the same (the hit is
  returned): the mode becomes translate, and mousedown, translatestart and transformstart
  are dispatched. Whatever drag frames follow, they succeed, leave \<open>f\<close> as it was, and
  translate every feature still selected by the pointer's displacement since the press.
\<close>

theorem additive_deselect_translates:
  assumes "atPixel evt = pre @ Body f # rest"
    and "\<forall>c \<in> set pre. \<not> shouldGetFeature evt c"
    and "shouldGetFeature evt (Body f)"
    and "addCondition evt"
    and "f \<in> set (selections st)"
    and "distinct (selections st)"
  shows "\<exists>st1. handleDownEvent evt st = (True, st1) \<and>
           selections st1 = remove1 f (selections st) \<and> f \<notin> set (selections st1) \<and>
           mode st1 = Translate \<and>
           map eventType (dispatched st1) =
             map eventType (dispatched st) @ [Mousedown, Translatestart, Transformstart] \<and>
           (\<forall>frames. \<exists>st2. handleDrags frames st1 = Inr st2 \<and>
              store st2 f = store st f \<and>
              (\<forall>g \<in> set (selections st1).
                 store st2 g =
                   (store st g)\<lparr>geometry :=
                      translateGeometry
                        (fst (last (coordinate evt # map coordinate frames)) - fst (coordinate evt))
                        (snd (last (coordinate evt # map coordinate frames)) - snd (coordinate evt))
                        (geometry (store st g))\<rparr>))"
proof -
  let ?i = "nat (indexOf (selections st) f)"
  let ?sa = "selRemoveAt ?i st"
  from indexOf_notin [of "selections st" f] assms(5) have ni: "indexOf (selections st) f \<noteq> - 1"
    by simp
  have "selectFeature evt (atPixel evt) st = selectFeature evt (Body f # rest) st"
    using assms(1,2) by (simp add: selectFeature_skip)
  also have "\<dots> = (Some (Body f), ?sa)"
    using assms(3,4) ni by (simp add: Let_def)
  finally have sf: "selectFeature evt (atPixel evt) st = (Some (Body f), ?sa)" .
  let ?st1 = "dispatchTransformEvent Transformstart evt (dispatchTransformEvent Translatestart evt
        ((dispatchTransformEvent Mousedown evt (?sa\<lparr>prevSelections := map (store ?sa) (selections ?sa)\<rparr>))
           \<lparr>startCoord := coordinate evt, mode := Translate, prevCoord := coordinate evt\<rparr>))"
  have h: "handleDownEvent evt st = (True, ?st1)"
    by (rule handleDownEvent_body [OF sf])
  have sg: "sameGesture st ?sa" by (rule sameGesture_selRemoveAt)
  have sel: "selections ?st1 = remove1 f (selections st)"
    using indexOf_remove1 [OF assms(5)]
    by (simp add: dispatchTransformEvent_def selections_selRemoveAt)
  have nin: "f \<notin> set (selections ?st1)"
    using assms(6) by (simp add: sel)
  have m: "mode ?st1 = Translate" by (simp add: dispatchTransformEvent_def)
  have pc: "prevCoord ?st1 = coordinate evt" by (simp add: dispatchTransformEvent_def)
  have sto: "store ?st1 = store st"
    using sg by (simp add: dispatchTransformEvent_def sameGesture_def)
  have ev: "map eventType (dispatched ?st1) =
             map eventType (dispatched st) @ [Mousedown, Translatestart, Transformstart]"
    using sg by (simp add: dispatchTransformEvent_def sameGesture_def)
  have d: "distinct (selections ?st1)"
    using assms(6) by (simp add: sel)
  have drag: "\<exists>st2. handleDrags frames ?st1 = Inr st2 \<and>
              store st2 f = store st f \<and>
              (\<forall>g \<in> set (selections ?st1).
                 store st2 g =
                   (store st g)\<lparr>geometry :=
                      translateGeometry
                        (fst (last (coordinate evt # map coordinate frames)) - fst (coordinate evt))
                        (snd (last (coordinate evt # map coordinate frames)) - snd (coordinate evt))
                        (geometry (store st g))\<rparr>)" for frames
    using handleDrags_translate_effect [OF m d, of frames] nin
    unfolding pc sto by auto
  from h sel nin m ev drag show ?thesis by blast
qed

text \<open>
  C10 (witness). Features 0 and 1, two squares, are selected; pressing on feature 0
  with the additive condition removes it, and the drag from \<open>(5, 5)\<close> to \<open>(8, 3)\<close>
  moves feature 1 only.
\<close>

theorem additive_deselect_translates_witness:
  "addCondition (pointer (5, 5) [Body 0] True)
   \<and> 0 \<in> set (selections ((initialState squareStore)\<lparr>selections := [0, 1]\<rparr>))
   \<and> distinct (selections ((initialState squareStore)\<lparr>selections := [0, 1]\<rparr>))
   \<and> selections (snd (handleDownEvent (pointer (5, 5) [Body 0] True)
      ((initialState squareStore)\<lparr>selections := [0, 1]\<rparr>))) = [1]
   \<and> geometry (store (projr (handleDrags [pointer (8, 3) [] False]
        (snd (handleDownEvent (pointer (5, 5) [Body 0] True)
           ((initialState squareStore)\<lparr>selections := [0, 1]\<rparr>))))) 0) = square
   \<and> geometry (store (projr (handleDrags [pointer (8, 3) [] False]
        (snd (handleDownEvent (pointer (5, 5) [Body 0] True)
           ((initialState squareStore)\<lparr>selections := [0, 1]\<rparr>))))) 1) =
       Polygon [(3, - 2), (13, - 2), (13, 8), (3, 8), (3, - 2)]"
proof -
  let ?evt = "pointer (5, 5) [Body 0] True"
  let ?st = "(initialState squareStore)\<lparr>selections := [0, 1]\<rparr>"
  have a1: "atPixel ?evt = [] @ Body 0 # []" by (simp add: pointer_simps)
  have a2: "\<forall>c \<in> set []. \<not> shouldGetFeature ?evt c" by simp
  have a3: "shouldGetFeature ?evt (Body 0)" by (simp add: pointer_simps)
  have a4: "addCondition ?evt" by (simp add: pointer_simps)
  have a5: "0 \<in> set (selections ?st)" by simp
  have a6: "distinct (selections ?st)" by simp
  from additive_deselect_translates [OF a1 a2 a3 a4 a5 a6]
  obtain st1 where h: "handleDownEvent ?evt ?st = (True, st1)"
    and sel: "selections st1 = remove1 0 (selections ?st)"
    and dr: "\<And>frames. \<exists>st2. handleDrags frames st1 = Inr st2 \<and>
              store st2 0 = store ?st 0 \<and>
              (\<forall>g \<in> set (selections st1).
                 store st2 g =
                   (store ?st g)\<lparr>geometry :=
                      translateGeometry
                        (fst (last (coordinate ?evt # map coordinate frames)) - fst (coordinate ?evt))
                        (snd (last (coordinate ?evt # map coordinate frames)) - snd (coordinate ?evt))
                        (geometry (store ?st g))\<rparr>)"
    by blast
  from dr [of "[pointer (8, 3) [] False]"] obtain st2 where
    d2: "handleDrags [pointer (8, 3) [] False] st1 = Inr st2"
    and s0: "store st2 0 = store ?st 0"
    and s1: "\<forall>g \<in> set (selections st1).
                 store st2 g =
                   (store ?st g)\<lparr>geometry :=
                      translateGeometry
                        (fst (last (coordinate ?evt # map coordinate [pointer (8, 3) [] False])) - fst (coordinate ?evt))
                        (snd (last (coordinate ?evt # map coordinate [pointer (8, 3) [] False])) - snd (coordinate ?evt))
                        (geometry (store ?st g))\<rparr>"
    by blast
  from sel have sel1: "selections st1 = [1]" by simp
  from s1 sel1 have g1: "geometry (store st2 1) = Polygon [(3, - 2), (13, - 2), (13, 8), (3, 8), (3, - 2)]"
    by (simp add: pointer_simps initialState_simps squareStore_def square_def translateGeometry_def
        translateCoord_def)
  from s0 have g0: "geometry (store st2 0) = square"
    by (simp add: initialState_simps squareStore_def)
  from h have e1: "snd (handleDownEvent ?evt ?st) = st1" by simp
  from d2 have e2: "projr (handleDrags [pointer (8, 3) [] False] st1) = st2" by simp
  show ?thesis
    unfolding e1 e2 using sel1 g0 g1 a4 by simp
qed

section \<open>The overlay\<close>

lemma drawLoop_Suc:
  "drawLoop s (Suc i) xs layer = layer @ map (\<lambda>x. genTranslateHandle (s x) x) xs"
  by (induction xs arbitrary: i layer) (simp_all add: Let_def)

lemma drawLoop_first:
  "drawLoop s 0 (g # gs) [] =
     genHandles (s g) g @ map (\<lambda>x. genTranslateHandle (s x) x) (g # gs)"
  by (simp add: Let_def drawLoop_Suc)

lemma handleLayer_funpow_selPop:
  "0 < n \<Longrightarrow> selections st \<noteq> [] \<Longrightarrow>
     handleLayer ((selPop ^^ n) st) = drawLoop (store st) 0 (selections ((selPop ^^ n) st)) []"
proof (induction n)
  case 0
  then show ?case by simp
next
  case (Suc n)
  let ?s = "(selPop ^^ n) st"
  have sg: "sameGesture st ?s" using funpow_selPop [of st n] by simp
  show ?case
  proof (cases "n = 0")
    case True
    with Suc.prems show ?thesis by (simp add: selPop_eq)
  next
    case False
    with Suc have ih: "handleLayer ?s = drawLoop (store st) 0 (selections ?s) []" by simp
    show ?thesis
    proof (cases "selections ?s = []")
      case True
      with ih show ?thesis by (simp add: selPop_empty)
    next
      case False
      with sg show ?thesis by (simp add: selPop_eq sameGesture_def)
    qed
  qed
qed

section \<open>The loops over the snapshot\<close>

lemma assignGeoms_sameControl:
  "sameControl st (assignGeoms i gs st) \<and> prevSelections (assignGeoms i gs st) = prevSelections st"
proof (induction gs arbitrary: i st)
  case Nil
  show ?case by (simp add: sameControl_refl)
next
  case (Cons g gs)
  from Cons [where i = "Suc i" and st = "setGeometry (selections st ! i) g st"]
    sameControl_setGeometry [of st "selections st ! i" g]
  show ?case by (auto simp: setGeometry_def intro: sameControl_trans)
qed

lemma setGeometry_prev:
  "setGeometry f g (st\<lparr>prevSelections := p\<rparr>) = (setGeometry f g st)\<lparr>prevSelections := p\<rparr>"
  by (simp add: setGeometry_def)

lemma setGeometry_headInverted:
  "setGeometry f g (st\<lparr>headInverted := b\<rparr>) = (setGeometry f g st)\<lparr>headInverted := b\<rparr>"
  by (simp add: setGeometry_def)

lemma assignGeoms_prev:
  "assignGeoms i gs (st\<lparr>prevSelections := p\<rparr>) = (assignGeoms i gs st)\<lparr>prevSelections := p\<rparr>"
  by (induction gs arbitrary: i st) (simp_all add: setGeometry_prev)

lemma assignGeoms_headInverted:
  "assignGeoms i gs (st\<lparr>headInverted := b\<rparr>) = (assignGeoms i gs st)\<lparr>headInverted := b\<rparr>"
  by (induction gs arbitrary: i st) (simp_all add: setGeometry_headInverted)

lemma assignGeoms_angle: "angle (store (assignGeoms i gs st) f) = angle (store st f)"
  by (induction gs arbitrary: i st) (simp_all add: setGeometry_def)

lemma assignGeoms_store:
  assumes "distinct (selections st)" and "i + length gs \<le> length (selections st)"
  shows "(\<forall>k < length gs. store (assignGeoms i gs st) (selections st ! (i + k)) =
            (store st (selections st ! (i + k)))\<lparr>geometry := gs ! k\<rparr>) \<and>
         (\<forall>f. f \<notin> set (take (length gs) (drop i (selections st))) \<longrightarrow>
            store (assignGeoms i gs st) f = store st f)"
  using assms
proof (induction gs arbitrary: i st)
  case Nil
  show ?case by simp
next
  case (Cons g gs)
  let ?s1 = "setGeometry (selections st ! i) g st"
  have sel1: "selections ?s1 = selections st" by (simp add: setGeometry_def)
  have lt: "i < length (selections st)" using Cons.prems(2) by simp
  from Cons.prems have ih:
    "(\<forall>k < length gs. store (assignGeoms (Suc i) gs ?s1) (selections st ! (Suc i + k)) =
            (store ?s1 (selections st ! (Suc i + k)))\<lparr>geometry := gs ! k\<rparr>) \<and>
     (\<forall>f. f \<notin> set (take (length gs) (drop (Suc i) (selections st))) \<longrightarrow>
            store (assignGeoms (Suc i) gs ?s1) f = store ?s1 f)"
    using Cons.IH [where st = ?s1 and i = "Suc i"] by (simp add: sel1)
  have notin: "selections st ! i \<notin> set (take (length gs) (drop (Suc i) (selections st)))"
  proof
    assume "selections st ! i \<in> set (take (length gs) (drop (Suc i) (selections st)))"
    then have "selections st ! i \<in> set (drop (Suc i) (selections st))"
      by (meson in_set_takeD)
    then obtain j where "j < length (drop (Suc i) (selections st))"
      and "drop (Suc i) (selections st) ! j = selections st ! i"
      by (auto simp: in_set_conv_nth)
    then have "Suc i + j < length (selections st)" and "selections st ! (Suc i + j) = selections st ! i"
      by simp_all
    with Cons.prems(1) lt show False by (simp add: nth_eq_iff_index_eq)
  qed
  have dr: "drop i (selections st) = selections st ! i # drop (Suc i) (selections st)"
    using lt by (simp add: Cons_nth_drop_Suc)
  show ?case
  proof (intro conjI allI impI)
    fix k assume k: "k < length (g # gs)"
    show "store (assignGeoms i (g # gs) st) (selections st ! (i + k)) =
            (store st (selections st ! (i + k)))\<lparr>geometry := (g # gs) ! k\<rparr>"
    proof (cases k)
      case 0
      with ih notin show ?thesis by (simp add: setGeometry_def)
    next
      case (Suc k')
      with k have k': "k' < length gs" by simp
      have ne: "selections st ! (Suc i + k') \<noteq> selections st ! i"
        using Cons.prems k' lt by (simp add: nth_eq_iff_index_eq)
      from ih k' have "store (assignGeoms (Suc i) gs ?s1) (selections st ! (Suc i + k')) =
            (store ?s1 (selections st ! (Suc i + k')))\<lparr>geometry := gs ! k'\<rparr>" by blast
      with ne Suc show ?thesis by (simp add: setGeometry_def)
    qed
  next
    fix f assume f: "f \<notin> set (take (length (g # gs)) (drop i (selections st)))"
    then have f1: "f \<noteq> selections st ! i"
      and f2: "f \<notin> set (take (length gs) (drop (Suc i) (selections st)))"
      by (simp_all add: dr)
    from ih f2 have "store (assignGeoms (Suc i) gs ?s1) f = store ?s1 f" by blast
    with f1 show "store (assignGeoms i (g # gs) st) f = store st f"
      by (simp add: setGeometry_def)
  qed
qed

lemma scaleLoop_assign:
  "i + length sels \<le> length (selections st) \<Longrightarrow>
     scaleLoop k sx sy i sels st = Inr (assignGeoms i (map (scaleShape k sx sy) sels) st)"
  by (induction sels arbitrary: i st) (simp_all add: setGeometry_def)

lemma scaleLoop_Inr_length:
  "scaleLoop k sx sy i sels st = Inr st' \<Longrightarrow> i \<le> length (selections st) \<Longrightarrow>
     i + length sels \<le> length (selections st)"
proof (induction sels arbitrary: i st)
  case Nil
  then show ?case by simp
next
  case (Cons sel sels)
  from Cons.prems have lt: "i < length (selections st)" by (simp split: if_splits)
  with Cons.prems have "scaleLoop k sx sy (Suc i) sels
      (setGeometry (selections st ! i) (scaleShape k sx sy sel) st) = Inr st'" by simp
  from Cons.IH [OF this] lt show ?case by (simp add: setGeometry_def)
qed

lemma rotateLoop_assign:
  "i + length sels \<le> length (selections st) \<Longrightarrow> prevSelections st = done @ sels \<Longrightarrow>
   length done = i \<Longrightarrow>
     rotateLoop da i sels st =
       Inr ((assignGeoms i (map (rotatedShape da) sels) st)
              \<lparr>prevSelections := done @ map (rotatedAngle da) sels\<rparr>)"
proof (induction sels arbitrary: i st "done")
  case Nil
  then show ?case by simp
next
  case (Cons sel sels)
  let ?p = "done @ rotatedAngle da sel # sels"
  let ?st1 = "st\<lparr>prevSelections := ?p\<rparr>"
  have st1: "(case angle sel of None \<Rightarrow> st
       | Some a \<Rightarrow> st\<lparr>prevSelections := (prevSelections st)[i := sel\<lparr>angle := Some (jsRem (a + da) (2 * pi))\<rparr>]\<rparr>)
       = ?st1"
    using Cons.prems(2) Cons.prems(3) [symmetric]
    by (cases "angle sel") (simp_all add: rotatedAngle_def list_update_length)
  have lt: "i < length (selections st)" using Cons.prems(1) by simp
  let ?s2 = "setGeometry (selections st ! i) (rotatedShape da sel) ?st1"
  have "rotateLoop da (Suc i) sels ?s2 =
       Inr ((assignGeoms (Suc i) (map (rotatedShape da) sels) ?s2)
              \<lparr>prevSelections := (done @ [rotatedAngle da sel]) @ map (rotatedAngle da) sels\<rparr>)"
    using Cons.prems by (intro Cons.IH) (simp_all add: setGeometry_def)
  moreover have "rotateLoop da i (sel # sels) st = rotateLoop da (Suc i) sels ?s2"
    using lt by (simp add: st1 Let_def rotatedShape_def del: rotateLoop.simps(2))
      (simp add: Let_def st1 rotatedShape_def)
  moreover have "?s2 = (setGeometry (selections st ! i) (rotatedShape da sel) st)\<lparr>prevSelections := ?p\<rparr>"
    by (simp add: setGeometry_def)
  ultimately show ?case
    by (simp add: assignGeoms_prev)
qed

lemma rotateLoop_Inr_length:
  "rotateLoop da i sels st = Inr st' \<Longrightarrow> i \<le> length (selections st) \<Longrightarrow>
     i + length sels \<le> length (selections st)"
proof (induction sels arbitrary: i st)
  case Nil
  then show ?case by simp
next
  case (Cons sel sels)
  let ?st1 = "(case angle sel of None \<Rightarrow> st
       | Some a \<Rightarrow> st\<lparr>prevSelections := (prevSelections st)[i := sel\<lparr>angle := Some (jsRem (a + da) (2 * pi))\<rparr>]\<rparr>)"
  have sel1: "selections ?st1 = selections st" by (cases "angle sel") simp_all
  from Cons.prems have lt: "i < length (selections st)"
    by (simp add: Let_def sel1 split: if_splits)
  with Cons.prems have "rotateLoop da (Suc i) sels
      (setGeometry (selections st ! i) (rotateGeometry da (getCenter (getExtent (geometry sel))) (geometry sel)) ?st1) = Inr st'"
    by (simp add: Let_def sel1)
  from Cons.IH [OF this] lt show ?case by (simp add: setGeometry_def sel1)
qed

section \<open>Evaluation on the square\<close>

lemma getExtent_square: "getExtent square = (0, 0, 10, 10)"
  by (simp add: square_def getExtent_def extendCoordinate_def)

lemma rotateCoord_zero: "rotateCoord 0 c = (\<lambda>p. p)" "rotateCoord (- 0) c = (\<lambda>p. p)"
  by (simp_all add: rotateCoord_def fun_eq_iff)

lemma orientedBox_square:
  "orientedBoxCoords 0 square = [(0, 10), (0, 0), (10, 0), (10, 10), (0, 10)]"
  by (simp add: orientedBoxCoords_def getExtent_square getCenter_def rotateGeometry_def
      square_def rotateCoord_zero getExtent_def extendCoordinate_def fromExtent_def)

lemma genHandles_square:
  "genHandles \<lparr>geometry = square, angle = Some 0\<rparr> 0 =
     [rotateHandle, scaleHandle (0, 10) 0, scaleHandle (0, 5) 1, scaleHandle (0, 0) 2,
      scaleHandle (5, 0) 3, scaleHandle (10, 0) 4, scaleHandle (10, 5) 5,
      scaleHandle (10, 10) 6, scaleHandle (5, 10) 7]"
proof -
  have g: "geometry \<lparr>geometry = square, angle = Some 0\<rparr> = Polygon [(0, 0), (10, 0), (10, 10), (0, 10), (0, 0)]"
    by (simp add: square_def)
  have u: "[0 .. scaleHandlesLength - 1] = [0, 1, 2, 3, 4, 5, 6, 7]"
    by (simp add: scaleHandlesLength_def upto.simps)
  show ?thesis
    unfolding genHandles_def g
    by (simp add: u angleOrZero_def orientedBox_square [unfolded square_def] Let_def
        rotateHandle_def scaleHandle_def getCenter_def extendCoordinate_def)
qed

lemma selectedSquare_fields:
  "selections selectedSquare = [0]" "store selectedSquare = squareStore"
  "mode selectedSquare = Idle" "\<not> isTransformed selectedSquare"
  "\<not> headInverted selectedSquare"
proof -
  let ?down = "pointer (5, 5) [Body 0] False"
  let ?st1 = "snd (handleDownEvent ?down (initialState squareStore))"
  have h: "handleDownEvent ?down (initialState squareStore) = (True, ?st1)"
    using fst_pressBody [of "(5, 5)" 0 "[]" False "initialState squareStore"]
    by (simp add: prod_eq_iff)
  note p = pressBody_initial [OF h]
  show "selections selectedSquare = [0]" "store selectedSquare = squareStore"
    "mode selectedSquare = Idle" "\<not> isTransformed selectedSquare"
    "\<not> headInverted selectedSquare"
    using p by (simp_all add: selectedSquare_def handleUpEvent_reset handleUpEvent_store)
qed

lemma handleLayer_selectedSquare:
  "handleLayer selectedSquare =
     [rotateHandle, scaleHandle (0, 10) 0, scaleHandle (0, 5) 1, scaleHandle (0, 0) 2,
      scaleHandle (5, 0) 3, scaleHandle (10, 0) 4, scaleHandle (10, 5) 5,
      scaleHandle (10, 10) 6, scaleHandle (5, 10) 7,
      \<lparr>handleGeometry = Polygon [(0, 0), (0, 10), (10, 10), (10, 0), (0, 0)], body = 0,
       handleMode = Translate, index = - 1\<rparr>]"
proof -
  have "handleLayer selectedSquare = drawLoop squareStore 0 [0] []"
    using handleUpEvent_handleLayer
      [of "pointer (5, 5) [] False"
          "snd (handleDownEvent (pointer (5, 5) [Body 0] False) (initialState squareStore))"]
      selectedSquare_fields(1,2)
    by (simp add: selectedSquare_def handleUpEvent_reset)
  also have "\<dots> = genHandles (squareStore 0) 0 @ [genTranslateHandle (squareStore 0) 0]"
    by (simp add: drawLoop_first)
  also have "genTranslateHandle (squareStore 0) 0 =
      \<lparr>handleGeometry = Polygon [(0, 0), (0, 10), (10, 10), (10, 0), (0, 0)], body = 0,
       handleMode = Translate, index = - 1\<rparr>"
    by (simp add: squareStore_def genTranslateHandle_def square_def getExtent_def
        extendCoordinate_def fromExtent_def)
  finally show ?thesis
    by (simp add: squareStore_def genHandles_square)
qed

section \<open>Rotation\<close>

lemma handleDragEvent_rotate:
  assumes "mode st = Rotate" and "length (prevSelections st) \<le> length (selections st)"
  shows "handleDragEvent evt st =
     Inr (dispatchTransformEvent Transforming evt (dispatchTransformEvent Rotating evt
       ((assignGeoms 0
           (map (rotatedShape
                  (atan2 (snd (coordinate evt) - snd (rotCenter (rotationSel st)))
                     (fst (coordinate evt) - fst (rotCenter (rotationSel st)))
                   - rotAngle (rotationSel st)))
              (prevSelections st))
           (st\<lparr>handleLayer := [], isTransformed := True\<rparr>))
         \<lparr>prevSelections :=
            map (rotatedAngle
                  (atan2 (snd (coordinate evt) - snd (rotCenter (rotationSel st)))
                     (fst (coordinate evt) - fst (rotCenter (rotationSel st)))
                   - rotAngle (rotationSel st)))
              (prevSelections st)\<rparr>)))"
proof -
  let ?st1 = "st\<lparr>handleLayer := [], isTransformed := True\<rparr>"
  let ?da = "atan2 (snd (coordinate evt) - snd (rotCenter (rotationSel st)))
                     (fst (coordinate evt) - fst (rotCenter (rotationSel st)))
                   - rotAngle (rotationSel st)"
  let ?r = "(assignGeoms 0 (map (rotatedShape ?da) (prevSelections st)) ?st1)
         \<lparr>prevSelections := map (rotatedAngle ?da) (prevSelections st)\<rparr>"
  have "rotateLoop ?da 0 (prevSelections ?st1) ?st1 =
          Inr ((assignGeoms 0 (map (rotatedShape ?da) (prevSelections ?st1)) ?st1)
              \<lparr>prevSelections := [] @ map (rotatedAngle ?da) (prevSelections ?st1)\<rparr>)"
    using assms(2) by (intro rotateLoop_assign) simp_all
  then have rd: "rotateDrag evt ?st1 = Inr ?r"
    by (simp add: rotateDrag_def Let_def)
  have "mode ?r = Rotate"
    using assignGeoms_sameControl [of ?st1 0 "map (rotatedShape ?da) (prevSelections st)"] assms(1)
    by (simp add: sameControl_def)
  then have "dispatchProgress evt ?r = dispatchTransformEvent Rotating evt ?r"
    by (simp add: dispatchProgress_def)
  with rd assms(1) show ?thesis
    by (simp add: handleDragEvent_def Let_def)
qed


lemma jsRem_small: "0 < b \<Longrightarrow> \<bar>a\<bar> < b \<Longrightarrow> jsRem a b = a"
proof -
  assume b: "0 < b" and a: "\<bar>a\<bar> < b"
  then have "- 1 < a / b" and "a / b < 1" by (simp_all add: field_simps abs_less_iff)
  then have "\<lfloor>a / b\<rfloor> = 0 \<or> \<lceil>a / b\<rceil> = 0" and "0 \<le> a / b \<longrightarrow> \<lfloor>a / b\<rfloor> = 0"
    and "\<not> 0 \<le> a / b \<longrightarrow> \<lceil>a / b\<rceil> = 0"
    by (auto simp: floor_eq_iff ceiling_eq_iff)
  then show ?thesis by (simp add: jsRem_def jsTrunc_def)
qed

lemma handleDownEvent_first_handle:
  "handleDownEvent (pointer c (Handle h # rest) add) st =
     (True, dispatchTransformEvent Transformstart (pointer c (Handle h # rest) add)
        (dispatchStart (pointer c (Handle h # rest) add)
          (initHandle h (pointer c (Handle h # rest) add)
            ((dispatchTransformEvent Mousedown (pointer c (Handle h # rest) add)
               (st\<lparr>prevSelections := map (store st) (selections st)\<rparr>))
             \<lparr>startCoord := c, mode := handleMode h\<rparr>))))"
  using handleDownEvent_handle [of "pointer c (Handle h # rest) add" st h st]
  by (simp add: pointer_simps selectFeature_first_handle)

lemma rotatePressed_fields:
  "mode rotatePressed = Rotate" "selections rotatePressed = [0]"
  "store rotatePressed = squareStore"
  "prevSelections rotatePressed = [\<lparr>geometry = square, angle = Some 0\<rparr>]"
  "rotationSel rotatePressed = \<lparr>rotAngle = pi / 2, rotCenter = (5, 5)\<rparr>"
  by (simp_all add: rotatePressed_def handleDownEvent_first_handle dispatchTransformEvent_def
      dispatchStart_other initHandle_other rotateHandle_def selectedSquare_fields
      initHandle_def initRotate_def squareStore_def getExtent_square getCenter_def atan2_def
      dispatchStart_def)

lemma rotatedShape_square:
  "rotatedShape (- (pi / 2)) \<lparr>geometry = square, angle = Some 0\<rparr> =
     Polygon [(0, 10), (0, 0), (10, 0), (10, 10), (0, 10)]"
  by (simp add: rotatedShape_def getExtent_square getCenter_def)
     (simp add: square_def rotateGeometry_def rotateCoord_def)

lemma rotateDragged_eq:
  "handleDragEvent (pointer (10, 5) [] False) rotatePressed = Inr rotateDragged"
  by (simp add: rotateDragged_def handleDragEvent_rotate rotatePressed_fields)

lemma rotateDragged_fields:
  "store rotateDragged 0 = \<lparr>geometry = Polygon [(0, 10), (0, 0), (10, 0), (10, 10), (0, 10)], angle = Some 0\<rparr>"
  "prevSelections rotateDragged = [\<lparr>geometry = square, angle = Some (- (pi / 2))\<rparr>]"
  by (simp_all add: rotateDragged_def handleDragEvent_rotate rotatePressed_fields
      dispatchTransformEvent_def pointer_simps atan2_def rotatedShape_square setGeometry_def
      squareStore_def rotatedAngle_def jsRem_small)




text \<open>
  C3 (the code at the failing input). The snapshot taken at the press of the rotate
  handle holds the square with the angle \<open>0\<close>; after the drag frame to \<open>(10, 5)\<close> the
  snapshot feature has the angle \<open>-\<pi>/2\<close>: the frame has written to the snapshot.
\<close>

theorem rotate_drag_mutates_snapshot:
  "prevSelections rotatePressed = [\<lparr>geometry = square, angle = Some 0\<rparr>]
   \<and> handleDragEvent (pointer (10, 5) [] False) rotatePressed = Inr rotateDragged
   \<and> prevSelections rotateDragged = [\<lparr>geometry = square, angle = Some (- (pi / 2))\<rparr>]
   \<and> prevSelections rotateDragged \<noteq> prevSelections rotatePressed"
  by (simp add: rotateDragged_eq rotateDragged_fields rotatePressed_fields)

section \<open>Scaling\<close>

lemma scaleDrag_factors:
  "scaleDrag evt st =
     scaleLoop (scOppositeIdx (scalingSel st)) (fst (scaleFactorsJs evt (scalingSel st)))
       (snd (scaleFactorsJs evt (scalingSel st))) 0 (prevSelections st)
       (st\<lparr>headInverted := jsLess (snd (scaleFactorsJs evt (scalingSel st))) 0\<rparr>)"
  by (simp add: scaleDrag_def scaleFactorsJs_def Let_def split: prod.splits)

lemma scaleFactorsJs_finite:
  "scW sc \<noteq> 0 \<Longrightarrow> scH sc \<noteq> 0 \<Longrightarrow>
     scaleFactorsJs evt sc = (Finite (fst (scaleFactors evt sc)), Finite (snd (scaleFactors evt sc)))"
  by (simp add: scaleFactorsJs_def scaleFactors_def Let_def jsDiv_def jsAdd_def)

text \<open>
  On a grabbed box of height zero \<open>scaleY\<close> is an infinity or NaN, and the head counts as
  inverted exactly when the pointer has moved to the negative side.
\<close>

lemma scaleFactorsJs_flat:
  assumes "scH sc = 0"
  shows "jsLess (snd (scaleFactorsJs evt sc)) 0 =
     (snd (scaleDeltas (scHandleIdx sc) (fst (scStartCoord sc)) (snd (scStartCoord sc))
             (fst (rotatePoint (coordinate evt) (scOppositeCoord sc) (- scAngle sc)))
             (snd (rotatePoint (coordinate evt) (scOppositeCoord sc) (- scAngle sc)))) < 0)"
  using assms by (simp add: scaleFactorsJs_def Let_def jsDiv_def jsAdd_def jsLess_def)

lemma jsLess_Finite: "jsLess (Finite x) r = (x < r)"
  by (simp add: jsLess_def)

lemma handleDragEvent_scale_total:
  assumes "mode st = Scale" and "length (prevSelections st) \<le> length (selections st)"
  shows "handleDragEvent evt st =
     Inr (dispatchTransformEvent Transforming evt (dispatchTransformEvent Scaling evt
       ((assignGeoms 0
           (map (scaleShape (scOppositeIdx (scalingSel st))
                   (fst (scaleFactorsJs evt (scalingSel st)))
                   (snd (scaleFactorsJs evt (scalingSel st))))
              (prevSelections st))
           (st\<lparr>handleLayer := [], isTransformed := True\<rparr>))
         \<lparr>headInverted := jsLess (snd (scaleFactorsJs evt (scalingSel st))) 0\<rparr>)))"
proof -
  let ?st1 = "st\<lparr>handleLayer := [], isTransformed := True\<rparr>"
  let ?f = "scaleFactorsJs evt (scalingSel st)"
  let ?gs = "map (scaleShape (scOppositeIdx (scalingSel st)) (fst ?f) (snd ?f)) (prevSelections st)"
  let ?r = "(assignGeoms 0 ?gs ?st1)\<lparr>headInverted := jsLess (snd ?f) 0\<rparr>"
  have "scaleDrag evt ?st1 =
     scaleLoop (scOppositeIdx (scalingSel st)) (fst ?f) (snd ?f) 0 (prevSelections st)
       (?st1\<lparr>headInverted := jsLess (snd ?f) 0\<rparr>)"
    using scaleDrag_factors [of evt ?st1] by simp
  also have "\<dots> = Inr (assignGeoms 0 ?gs (?st1\<lparr>headInverted := jsLess (snd ?f) 0\<rparr>))"
    using assms(2) by (intro scaleLoop_assign) simp
  finally have sd: "scaleDrag evt ?st1 = Inr ?r"
    by (simp add: assignGeoms_headInverted)
  have "mode ?r = Scale"
    using assignGeoms_sameControl [of ?st1 0 ?gs] assms(1) by (simp add: sameControl_def)
  then have "dispatchProgress evt ?r = dispatchTransformEvent Scaling evt ?r"
    by (simp add: dispatchProgress_def)
  with sd assms(1) show ?thesis by (simp add: handleDragEvent_def Let_def)
qed

lemma handleDragEvent_scale:
  assumes "mode st = Scale" and "length (prevSelections st) \<le> length (selections st)"
    and "scW (scalingSel st) \<noteq> 0" and "scH (scalingSel st) \<noteq> 0"
  shows "handleDragEvent evt st =
     Inr (dispatchTransformEvent Transforming evt (dispatchTransformEvent Scaling evt
       ((assignGeoms 0
           (map (scaleShape (scOppositeIdx (scalingSel st))
                   (Finite (fst (scaleFactors evt (scalingSel st))))
                   (Finite (snd (scaleFactors evt (scalingSel st)))))
              (prevSelections st))
           (st\<lparr>handleLayer := [], isTransformed := True\<rparr>))
         \<lparr>headInverted := (snd (scaleFactors evt (scalingSel st)) < 0)\<rparr>)))"
  by (simp add: handleDragEvent_scale_total [OF assms(1,2)] scaleFactorsJs_finite [OF assms(3,4)]
      jsLess_Finite)

lemma handleDragEvent_scale_Inr:
  assumes "mode st = Scale" and "handleDragEvent evt st = Inr st'"
  shows "length (prevSelections st) \<le> length (selections st)"
proof -
  let ?st1 = "st\<lparr>handleLayer := [], isTransformed := True\<rparr>"
  from assms obtain s2 where sd: "scaleDrag evt ?st1 = Inr s2"
    by (auto simp: handleDragEvent_def Let_def split: sum.splits)
  with scaleDrag_factors [of evt ?st1] have
    "scaleLoop (scOppositeIdx (scalingSel st)) (fst (scaleFactorsJs evt (scalingSel st)))
       (snd (scaleFactorsJs evt (scalingSel st))) 0 (prevSelections st)
       (?st1\<lparr>headInverted := jsLess (snd (scaleFactorsJs evt (scalingSel st))) 0\<rparr>) = Inr s2"
    by simp
  from scaleLoop_Inr_length [OF this] show ?thesis by simp
qed

lemma scaleShape_Finite:
  "scaleShape k (Finite sx) (Finite sy) sel =
     rotateGeometry (angleOrZero sel)
       (calcScaleHandleCoord (orientedBoxCoords (angleOrZero sel) (geometry sel)) k)
       (scaleGeometry sx sy
          (calcScaleHandleCoord (orientedBoxCoords (angleOrZero sel) (geometry sel)) k)
          (rotateGeometry (- angleOrZero sel)
             (calcScaleHandleCoord (orientedBoxCoords (angleOrZero sel) (geometry sel)) k)
             (geometry sel)))"
  by (simp add: scaleShape_def scaleGeometryJs_def Let_def)

lemma headCorrect_store:
  "store (headCorrect x st) = (store st)(x := halfTurned (store st x))"
  by (cases "angle (store st x)") (simp_all add: headCorrect_def halfTurned_def Let_def)

lemma foldl_headCorrect_store:
  "distinct xs \<Longrightarrow>
     store (foldl (\<lambda>s sel. headCorrect sel s) st xs) f =
       (if f \<in> set xs then halfTurned (store st f) else store st f)"
proof (induction xs arbitrary: st)
  case Nil
  show ?case by simp
next
  case (Cons x xs)
  then show ?case by (simp add: headCorrect_store)
qed

lemma calcDistance_horizontal: "calcDistance (x, y) (x', y) = \<bar>x - x'\<bar>"
  by (simp add: calcDistance_def calcSize_def)

lemma calcDistance_vertical: "calcDistance (x, y) (x, y') = \<bar>y - y'\<bar>"
  by (simp add: calcDistance_def calcSize_def)

lemma half_handles:
  "round (real_of_int scaleHandlesLength / 2) = 4"
  "round (real_of_int scaleHandlesLength * (1 / 2)) = 4"
  by (simp_all add: scaleHandlesLength_def)

lemma oppositeIdx_eval:
  "jsRemInt 10 scaleHandlesLength = 2" "jsRemInt 11 scaleHandlesLength = 3"
  by (simp_all add: jsRemInt_def scaleHandlesLength_def)

lemma rotatePoint_zero: "rotatePoint p c (- 0) = p" "rotatePoint p c 0 = p"
  by (cases p; cases c; simp add: rotatePoint_def)+

lemma scalePressed6_fields:
  "mode scalePressed6 = Scale" "selections scalePressed6 = [0]"
  "store scalePressed6 = squareStore"
  "prevSelections scalePressed6 = [\<lparr>geometry = square, angle = Some 0\<rparr>]"
  "scalingSel scalePressed6 =
     \<lparr>scAngle = 0, scW = 10, scH = 10, scHandleIdx = 6, scOppositeIdx = 2,
      scOppositeCoord = (0, 0), scStartCoord = (10, 10)\<rparr>"
  by (simp_all add: scalePressed6_def handleDownEvent_first_handle dispatchTransformEvent_def
      dispatchStart_other initHandle_other scaleHandle_def selectedSquare_fields
      initHandle_def initScale_def squareStore_def angleOrZero_def orientedBox_square
      half_handles oppositeIdx_eval calcDistance_horizontal calcDistance_vertical rotatePoint_zero
      dispatchStart_def Let_def)

lemma scaleFactors_6:
  "scaleFactors (pointer (20, 20) [] False)
     \<lparr>scAngle = 0, scW = 10, scH = 10, scHandleIdx = 6, scOppositeIdx = 2,
      scOppositeCoord = (0, 0), scStartCoord = (10, 10)\<rparr> = (2, 2)"
  by (simp add: scaleFactors_def pointer_simps rotatePoint_zero scaleDeltas_def Let_def)

lemma scaleShape_6:
  "scaleShape 2 (Finite 2) (Finite 2) \<lparr>geometry = square, angle = Some 0\<rparr> =
     Polygon [(0, 0), (20, 0), (20, 20), (0, 20), (0, 0)]"
  by (simp add: scaleShape_Finite angleOrZero_def orientedBox_square rotateGeometry_def)
     (simp add: square_def rotateCoord_zero scaleGeometry_def scaleCoord_def rotateCoord_def)

lemma scaleDragged6_eq:
  "handleDragEvent (pointer (20, 20) [] False) scalePressed6 = Inr scaleDragged6"
  by (simp add: scaleDragged6_def handleDragEvent_scale scalePressed6_fields)

lemma scaleDragged6_store:
  "store scaleDragged6 0 =
     \<lparr>geometry = Polygon [(0, 0), (20, 0), (20, 20), (0, 20), (0, 0)], angle = Some 0\<rparr>"
  by (simp add: scaleDragged6_def handleDragEvent_scale scalePressed6_fields scaleFactors_6
      dispatchTransformEvent_def scaleShape_6 setGeometry_def squareStore_def)

text \<open>
  C2 (amended). For the selected square the scale handle at \<open>(10, 10)\<close> is the one of
  ring index 6; pressing it records the opposite index 2 and the anchor \<open>(0, 0)\<close>, the
  width and the height 10; the drag to \<open>(20, 20)\<close> has the scale factors \<open>(2, 2)\<close>
  and gives the square the ring \<open>(0,0), (20,0), (20,20), (0,20)\<close>, closed at \<open>(0,0)\<close>.
\<close>

theorem scale_square_scenario:
  "handleLayer selectedSquare ! 7 = scaleHandle (10, 10) 6
   \<and> scalingSel scalePressed6 =
       \<lparr>scAngle = 0, scW = 10, scH = 10, scHandleIdx = 6, scOppositeIdx = 2,
        scOppositeCoord = (0, 0), scStartCoord = (10, 10)\<rparr>
   \<and> scaleFactors (pointer (20, 20) [] False) (scalingSel scalePressed6) = (2, 2)
   \<and> handleDragEvent (pointer (20, 20) [] False) scalePressed6 = Inr scaleDragged6
   \<and> geometry (store scaleDragged6 0) = Polygon [(0, 0), (20, 0), (20, 20), (0, 20), (0, 0)]
   \<and> geometry (store scaleDragged6 0) = scaleGeometry 2 2 (0, 0) square"
  by (simp add: handleLayer_selectedSquare scalePressed6_fields scaleFactors_6 scaleDragged6_eq
      scaleDragged6_store)
     (simp add: square_def scaleGeometry_def scaleCoord_def)

text \<open>
  C2 (counterexample). The handle of ring index 4 of the selected square is at
  \<open>(10, 0)\<close>; no handle of index 4 is at \<open>(10, 10)\<close>.
\<close>

theorem scale_handle_index_counterexample:
  "handleLayer selectedSquare ! 5 = scaleHandle (10, 0) 4
   \<and> calcScaleHandleCoord (orientedBoxCoords 0 square) 4 = (10, 0)
   \<and> scaleHandle (10, 10) 4 \<notin> set (handleLayer selectedSquare)"
  by (simp add: handleLayer_selectedSquare orientedBox_square)
     (simp add: scaleHandle_def rotateHandle_def)

section \<open>Drag frames on an aligned snapshot\<close>

text \<open>
  A drag frame can only fail when the snapshot is longer than the selection. The
  pointer-down takes the snapshot from the selection, and no drag frame changes the
  selection or the length of the snapshot, so no frame of a gesture fails.
\<close>

lemma handleDragEvent_aligned:
  assumes "length (prevSelections st) \<le> length (selections st)"
  shows "\<exists>st'. handleDragEvent evt st = Inr st' \<and>
           length (prevSelections st') = length (prevSelections st)"
proof (cases "mode st")
  case Idle
  then show ?thesis
    by (simp add: handleDragEvent_def Let_def dispatchTransformEvent_def dispatchProgress_other)
next
  case Translate
  then show ?thesis
    by (simp add: handleDragEvent_translate dispatchTransformEvent_def translateDrag_def
        translateSelections_def Let_def foldl_translate_prev)
next
  case Rotate
  then show ?thesis
    by (simp add: handleDragEvent_rotate [OF Rotate assms] dispatchTransformEvent_def)
next
  case Scale
  have "prevSelections (assignGeoms 0 gs (st\<lparr>handleLayer := [], isTransformed := True\<rparr>)) =
          prevSelections st" for gs
    using assignGeoms_sameControl [of "st\<lparr>handleLayer := [], isTransformed := True\<rparr>" 0 gs]
    by simp
  then show ?thesis
    by (simp add: handleDragEvent_scale_total [OF Scale assms] dispatchTransformEvent_def)
qed

lemma handleDrags_aligned:
  "length (prevSelections st) \<le> length (selections st) \<Longrightarrow> \<exists>st'. handleDrags evts st = Inr st'"
proof (induction evts arbitrary: st)
  case Nil
  show ?case by simp
next
  case (Cons e es)
  from handleDragEvent_aligned [OF Cons.prems, of e] obtain s1
    where s1: "handleDragEvent e st = Inr s1"
      and l: "length (prevSelections s1) = length (prevSelections st)"
    by blast
  from handleDragEvent_control(3) [OF s1] l Cons.prems
  have "length (prevSelections s1) \<le> length (selections s1)" by simp
  from Cons.IH [OF this] s1 show ?case by simp
qed

text \<open>
  C6 (amended). At the start of a gesture nothing is marked as transformed (this holds
  initially and after every pointer-up). Every gesture then runs to its end, and its
  notifications are these. If the pointer-down is handled: mousedown, the start
  notification of the mode and transformstart; for each drag frame the progress
  notification of the mode and transforming; mouseup; and, if and only if there was at
  least one drag frame, the end notification of the mode and transformend. A press and
  release without a drag thus dispatches no end notification, but four notifications in
  all. If the pointer-down hits nothing, mousedown is the only notification.
\<close>

theorem gesture_notifications:
  assumes "\<not> isTransformed st"
  shows "\<exists>st'. gesture down drags up st = Inr st' \<and>
     map eventType (dispatched st') =
     map eventType (dispatched st) @
     (if fst (handleDownEvent down st)
      then [Mousedown] @ startTypes (mode (snd (handleDownEvent down st))) @ [Transformstart] @
           concat (replicate (length drags)
                     (progressTypes (mode (snd (handleDownEvent down st))) @ [Transforming])) @
           [Mouseup] @
           (if drags \<noteq> []
            then endTypes (mode (snd (handleDownEvent down st))) @ [Transformend] else [])
      else [Mousedown])"
proof (cases "fst (handleDownEvent down st)")
  case False
  then have h: "handleDownEvent down st = (False, snd (handleDownEvent down st))"
    by (simp add: prod_eq_iff)
  then have "gesture down drags up st = Inr (snd (handleDownEvent down st))"
    by (cases "handleDownEvent down st") (simp add: gesture_def)
  with handleDownEvent_unhandled [OF h] False show ?thesis by simp
next
  case True
  let ?st1 = "snd (handleDownEvent down st)"
  from True have h: "handleDownEvent down st = (True, ?st1)" by (simp add: prod_eq_iff)
  from handleDownEvent_handled(4) [OF h]
  have "length (prevSelections ?st1) \<le> length (selections ?st1)" by simp
  from handleDrags_aligned [OF this, of drags]
  obtain st2 where d: "handleDrags drags ?st1 = Inr st2" by blast
  then have g: "gesture down drags up st = Inr (snd (handleUpEvent up st2))"
    by (simp add: gesture_handled [OF True])
  from handleDownEvent_handled(1) [OF h] assms have nt: "\<not> isTransformed ?st1" by simp
  from handleDrags_control [OF d] nt
  have m: "mode st2 = mode ?st1" and t: "isTransformed st2 = (drags \<noteq> [])" by simp_all
  have "map eventType (dispatched (snd (handleUpEvent up st2))) =
     map eventType (dispatched st) @
     ([Mousedown] @ startTypes (mode ?st1) @ [Transformstart] @
           concat (replicate (length drags) (progressTypes (mode ?st1) @ [Transforming])) @
           [Mouseup] @
           (if drags \<noteq> [] then endTypes (mode ?st1) @ [Transformend] else []))"
    using handleDownEvent_handled(5) [OF h] handleDrags_types [OF d]
    by (simp add: handleUpEvent_types m t)
  with g True show ?thesis by simp
qed

text \<open>C6 (witness). A press on the body, one drag frame and the release.\<close>

theorem gesture_notifications_witness:
  "\<not> isTransformed (initialState squareStore)
   \<and> (\<exists>st'. gesture (pointer (5, 5) [Body 0] False) [pointer (6, 4) [] False]
               (pointer (6, 4) [] False) (initialState squareStore) = Inr st'
        \<and> map eventType (dispatched st')
          = [Mousedown, Translatestart, Transformstart, Translating, Transforming, Mouseup,
             Translateend, Transformend])"
proof -
  let ?down = "pointer (5, 5) [Body 0] False"
  let ?d = "pointer (6, 4) [] False"
  let ?st1 = "snd (handleDownEvent ?down (initialState squareStore))"
  have a: "\<not> isTransformed (initialState squareStore)"
    by (simp add: initialState_simps)
  have f: "fst (handleDownEvent ?down (initialState squareStore))"
    by (rule fst_pressBody)
  then have h: "handleDownEvent ?down (initialState squareStore) = (True, ?st1)"
    by (simp add: prod_eq_iff)
  from pressBody_initial [OF h] have m: "mode ?st1 = Translate" by simp
  from gesture_notifications [OF a, of ?down "[?d]" ?d] f m
  have "\<exists>st'. gesture ?down [?d] ?d (initialState squareStore) = Inr st'
        \<and> map eventType (dispatched st')
          = [Mousedown, Translatestart, Transformstart, Translating, Transforming, Mouseup,
             Translateend, Transformend]"
    by (simp add: initialState_simps startTypes_def progressTypes_def endTypes_def)
  with a show ?thesis by simp
qed

text \<open>
  C7 (amended). Every change of the selection (an element pushed, an element removed,
  a non-empty selection cleared) and every pointer-up clear the handle layer and fill
  it again from the selection as it then is: the rotate and scale handles of the first
  selected feature and a translate handle for every selected feature. A drag frame, on
  a snapshot that is not longer than the selection, completes, clears the handle layer
  and does not fill it: after a drag frame it is empty.
\<close>

theorem overlay_redraw:
  "handleLayer (selPush f st) = drawLoop (store st) 0 (selections st @ [f]) []
   \<and> (i < length (selections st) \<longrightarrow>
        handleLayer (selRemoveAt i st) =
          drawLoop (store st) 0 (take i (selections st) @ drop (Suc i) (selections st)) [])
   \<and> (selections st \<noteq> [] \<longrightarrow> handleLayer (selClear st) = [])
   \<and> (length (prevSelections st) \<le> length (selections st) \<longrightarrow>
        (\<exists>st'. handleDragEvent evt st = Inr st' \<and> handleLayer st' = []))
   \<and> handleLayer (snd (handleUpEvent evt st)) =
        drawLoop (store (snd (handleUpEvent evt st))) 0 (selections (snd (handleUpEvent evt st))) []
   \<and> drawLoop s 0 (g # gs) [] =
        genHandles (s g) g @ map (\<lambda>x. genTranslateHandle (s x) x) (g # gs)
   \<and> drawLoop s 0 [] [] = []"
proof -
  have clr: "selections st \<noteq> [] \<longrightarrow> handleLayer (selClear st) = []"
    using handleLayer_funpow_selPop [of "length (selections st)" st] selections_selClear [of st]
    by (simp add: selClear_def)
  have psh: "handleLayer (selPush f st) = drawLoop (store st) 0 (selections st @ [f]) []"
    by (simp add: selPush_def drawHandles_def)
  have rem: "i < length (selections st) \<longrightarrow>
        handleLayer (selRemoveAt i st) =
          drawLoop (store st) 0 (take i (selections st) @ drop (Suc i) (selections st)) []"
    by (simp add: selRemoveAt_def drawHandles_def)
  have drg: "length (prevSelections st) \<le> length (selections st) \<longrightarrow>
        (\<exists>st'. handleDragEvent evt st = Inr st' \<and> handleLayer st' = [])"
  proof
    assume "length (prevSelections st) \<le> length (selections st)"
    from handleDragEvent_aligned [OF this, of evt] obtain st'
      where d: "handleDragEvent evt st = Inr st'" by blast
    from d handleDragEvent_control(4) [OF d]
    show "\<exists>st'. handleDragEvent evt st = Inr st' \<and> handleLayer st' = []" by blast
  qed
  have up: "handleLayer (snd (handleUpEvent evt st)) =
        drawLoop (store (snd (handleUpEvent evt st))) 0 (selections (snd (handleUpEvent evt st))) []"
    by (simp add: handleUpEvent_handleLayer handleUpEvent_reset)
  have emp: "drawLoop s 0 [] [] = []" by simp
  show ?thesis
    by (intro conjI psh rem clr drg up drawLoop_first emp)
qed

text \<open>
  C7 (counterexample). After the press on the body of the square and one drag frame the
  square is selected and the handle layer is empty.
\<close>

theorem overlay_after_drag_counterexample:
  "selections (projr (handleDrags [pointer (6, 4) [] False]
      (snd (handleDownEvent (pointer (5, 5) [Body 0] False) (initialState squareStore))))) = [0]
   \<and> handleLayer (projr (handleDrags [pointer (6, 4) [] False]
      (snd (handleDownEvent (pointer (5, 5) [Body 0] False) (initialState squareStore))))) = []"
proof -
  let ?down = "pointer (5, 5) [Body 0] False"
  let ?d = "pointer (6, 4) [] False"
  let ?st1 = "snd (handleDownEvent ?down (initialState squareStore))"
  have h: "handleDownEvent ?down (initialState squareStore) = (True, ?st1)"
    using fst_pressBody [of "(5, 5)" 0 "[]" False "initialState squareStore"]
    by (simp add: prod_eq_iff)
  from pressBody_initial [OF h] have m: "mode ?st1 = Translate" and s: "selections ?st1 = [0]"
    by simp_all
  obtain s2 where s2: "handleDragEvent ?d ?st1 = Inr s2"
    by (simp add: handleDragEvent_translate [OF m])
  then have "projr (handleDrags [?d] ?st1) = s2" by simp
  with handleDragEvent_control(3,4) [OF s2] s show ?thesis by simp
qed

text \<open>
  C7 (witness). The same press and drag frame, followed by the release: the handle layer
  is empty after the frame and holds ten handles after the release.
\<close>

theorem overlay_redraw_witness:
  "length (prevSelections
      (snd (handleDownEvent (pointer (5, 5) [Body 0] False) (initialState squareStore))))
     \<le> length (selections
      (snd (handleDownEvent (pointer (5, 5) [Body 0] False) (initialState squareStore))))
   \<and> handleDragEvent (pointer (6, 4) [] False)
      (snd (handleDownEvent (pointer (5, 5) [Body 0] False) (initialState squareStore))) =
     Inr (projr (handleDragEvent (pointer (6, 4) [] False)
      (snd (handleDownEvent (pointer (5, 5) [Body 0] False) (initialState squareStore)))))
   \<and> handleLayer (projr (handleDragEvent (pointer (6, 4) [] False)
      (snd (handleDownEvent (pointer (5, 5) [Body 0] False) (initialState squareStore))))) = []
   \<and> length (handleLayer (snd (handleUpEvent (pointer (6, 4) [] False)
       (projr (handleDragEvent (pointer (6, 4) [] False)
         (snd (handleDownEvent (pointer (5, 5) [Body 0] False) (initialState squareStore)))))))) = 10"
proof -
  let ?down = "pointer (5, 5) [Body 0] False"
  let ?d = "pointer (6, 4) [] False"
  let ?st1 = "snd (handleDownEvent ?down (initialState squareStore))"
  let ?st2 = "projr (handleDragEvent ?d ?st1)"
  let ?st3 = "snd (handleUpEvent ?d ?st2)"
  have h: "handleDownEvent ?down (initialState squareStore) = (True, ?st1)"
    using fst_pressBody [of "(5, 5)" 0 "[]" False "initialState squareStore"]
    by (simp add: prod_eq_iff)
  note p = pressBody_initial [OF h]
  from p have m: "mode ?st1 = Translate" and s: "selections ?st1 = [0]" by simp_all
  from p have al: "length (prevSelections ?st1) \<le> length (selections ?st1)" by simp
  note o = overlay_redraw [of 0 ?st1 0 ?d "store ?st3" 0 "[]"]
  note o2 = overlay_redraw [of 0 ?st2 0 ?d "store ?st3" 0 "[]"]
  from o al obtain st' where d': "handleDragEvent ?d ?st1 = Inr st'" and e': "handleLayer st' = []"
    by blast
  from d' have d: "handleDragEvent ?d ?st1 = Inr ?st2" by simp
  from d' e' have e: "handleLayer ?st2 = []" by simp
  have sel3: "selections ?st3 = [0]"
    using handleDragEvent_control(3) [OF d] s by (simp add: handleUpEvent_reset)
  have m2: "mode ?st2 = Translate" using handleDragEvent_control(1) [OF d] m by simp
  have e32: "store ?st3 = store ?st2" using m2 by (simp add: handleUpEvent_store)
  have dist: "distinct (selections ?st1)" using s by simp
  from handleDragEvent_translate_effect [OF m dist, of ?d] d
  have "store ?st2 0 = (store ?st1 0)\<lparr>geometry :=
          translateGeometry (fst (coordinate ?d) - fst (prevCoord ?st1))
            (snd (coordinate ?d) - snd (prevCoord ?st1)) (geometry (store ?st1 0))\<rparr>"
    using s by auto
  with p e32 have poly: "\<exists>cs. geometry (store ?st3 0) = Polygon cs"
    by (simp add: square_def squareStore_def translateGeometry_def)
  from o2 sel3 have "handleLayer ?st3 =
      genHandles (store ?st3 0) 0 @ map (\<lambda>x. genTranslateHandle (store ?st3 x) x) [0]"
    by simp
  with poly have "length (handleLayer ?st3) = 10"
    by (auto simp: genHandles_def Let_def scaleHandlesLength_def)
  with al d e show ?thesis by simp
qed

section \<open>The head inversion on the square\<close>

lemma selectedWith_fields:
  "selections (selectedWith ang) = [0]" "store (selectedWith ang) = squareWith ang"
  "mode (selectedWith ang) = Idle" "\<not> isTransformed (selectedWith ang)"
  "\<not> headInverted (selectedWith ang)"
proof -
  let ?down = "pointer (5, 5) [Body 0] False"
  let ?st1 = "snd (handleDownEvent ?down (initialState (squareWith ang)))"
  have h: "handleDownEvent ?down (initialState (squareWith ang)) = (True, ?st1)"
    using fst_pressBody [of "(5, 5)" 0 "[]" False "initialState (squareWith ang)"]
    by (simp add: prod_eq_iff)
  note p = pressBody_initial [OF h]
  show "selections (selectedWith ang) = [0]" "store (selectedWith ang) = squareWith ang"
    "mode (selectedWith ang) = Idle" "\<not> isTransformed (selectedWith ang)"
    "\<not> headInverted (selectedWith ang)"
    using p by (simp_all add: selectedWith_def handleUpEvent_reset handleUpEvent_store)
qed

lemma pressed7_fields:
  assumes "ang = None \<or> ang = Some 0"
  shows "mode (pressed7 ang) = Scale" "selections (pressed7 ang) = [0]"
    "store (pressed7 ang) = squareWith ang"
    "prevSelections (pressed7 ang) = [\<lparr>geometry = square, angle = ang\<rparr>]"
    "scalingSel (pressed7 ang) =
       \<lparr>scAngle = 0, scW = 10, scH = 10, scHandleIdx = 7, scOppositeIdx = 3,
        scOppositeCoord = (5, 0), scStartCoord = (5, 10)\<rparr>"
  using assms
  by (auto simp: pressed7_def handleDownEvent_first_handle dispatchTransformEvent_def
      dispatchStart_other initHandle_other scaleHandle_def selectedWith_fields
      initHandle_def initScale_def squareWith_def angleOrZero_def orientedBox_square
      half_handles oppositeIdx_eval calcDistance_horizontal calcDistance_vertical rotatePoint_zero
      dispatchStart_def Let_def getCenter_def extendCoordinate_def)

lemma scaleFactors_7:
  "scaleFactors (pointer (5, - 10) [] False)
     \<lparr>scAngle = 0, scW = 10, scH = 10, scHandleIdx = 7, scOppositeIdx = 3,
      scOppositeCoord = (5, 0), scStartCoord = (5, 10)\<rparr> = (1, - 1)"
  by (simp add: scaleFactors_def pointer_simps rotatePoint_zero scaleDeltas_def Let_def)

lemma scaleShape_7:
  assumes "ang = None \<or> ang = Some 0"
  shows "scaleShape 3 (Finite 1) (Finite (- 1)) \<lparr>geometry = square, angle = ang\<rparr> =
     Polygon [(0, 0), (10, 0), (10, - 10), (0, - 10), (0, 0)]"
proof -
  have a: "angleOrZero \<lparr>geometry = square, angle = ang\<rparr> = 0"
    using assms by (auto simp: angleOrZero_def)
  show ?thesis
    by (simp add: scaleShape_Finite a orientedBox_square rotateGeometry_def getCenter_def
        extendCoordinate_def)
       (simp add: square_def rotateCoord_zero scaleGeometry_def scaleCoord_def rotateCoord_def)
qed

lemma dragged7_eq:
  assumes "ang = None \<or> ang = Some 0"
  shows "handleDragEvent (pointer (5, - 10) [] False) (pressed7 ang) = Inr (dragged7 ang)"
  by (simp add: dragged7_def handleDragEvent_scale pressed7_fields [OF assms])

lemma dragged7_fields:
  assumes "ang = None \<or> ang = Some 0"
  shows "store (dragged7 ang) 0 =
           \<lparr>geometry = Polygon [(0, 0), (10, 0), (10, - 10), (0, - 10), (0, 0)], angle = ang\<rparr>"
    and "headInverted (dragged7 ang)" and "mode (dragged7 ang) = Scale"
    and "selections (dragged7 ang) = [0]"
proof -
  let ?gs = "[Polygon [(0, 0), (10, 0), (10, - 10), (0, - 10), (0, 0)]]"
  let ?st1 = "(pressed7 ang)\<lparr>handleLayer := [], isTransformed := True\<rparr>"
  have e: "dragged7 ang =
      dispatchTransformEvent Transforming (pointer (5, - 10) [] False)
        (dispatchTransformEvent Scaling (pointer (5, - 10) [] False)
          ((assignGeoms 0 ?gs ?st1)\<lparr>headInverted := True\<rparr>))"
    by (simp add: dragged7_def handleDragEvent_scale pressed7_fields [OF assms] scaleFactors_7
        scaleShape_7 [OF assms])
  show "store (dragged7 ang) 0 =
           \<lparr>geometry = Polygon [(0, 0), (10, 0), (10, - 10), (0, - 10), (0, 0)], angle = ang\<rparr>"
    by (simp add: e dispatchTransformEvent_def setGeometry_def pressed7_fields [OF assms]
        squareWith_def)
  show "headInverted (dragged7 ang)" by (simp add: e dispatchTransformEvent_def)
  show "mode (dragged7 ang) = Scale"
    by (simp add: e dispatchTransformEvent_def setGeometry_def pressed7_fields [OF assms])
  show "selections (dragged7 ang) = [0]"
    by (simp add: e dispatchTransformEvent_def setGeometry_def pressed7_fields [OF assms])
qed

lemma flipped_extent:
  "getCenter (getExtent (Polygon [(0, 0), (10, 0), (10, - 10), (0, - 10), (0, 0)])) = (5, - 5)"
  by (simp add: getExtent_def getCenter_def extendCoordinate_def)

lemma flipped_turned:
  "rotateGeometry pi (5, - 5) (Polygon [(0, 0), (10, 0), (10, - 10), (0, - 10), (0, 0)]) =
     Polygon [(10, - 10), (0, - 10), (0, 0), (10, 0), (10, - 10)]"
  by (simp add: rotateGeometry_def rotateCoord_def)

lemma released7_store:
  assumes "ang = None \<or> ang = Some 0"
  shows "store (released7 ang) 0 =
     halfTurned \<lparr>geometry = Polygon [(0, 0), (10, 0), (10, - 10), (0, - 10), (0, 0)], angle = ang\<rparr>"
  using dragged7_fields [OF assms]
  by (simp add: released7_def handleUpEvent_store foldl_headCorrect_store headCorrect_store)

text \<open>
  C4 (amended). In scale mode, with a duplicate-free selection index-aligned with the
  snapshot, a drag frame always completes, also when the width or the height of the
  grabbed box is zero and a scale factor is an infinity or NaN. It gives every selected
  feature the scaled geometry of its snapshot feature, leaves the angle attribute as it
  was, and records the head inversion exactly when \<open>scaleY\<close> is less than zero. If the
  head is inverted, the pointer-up turns every selected feature that carries an angle
  attribute by \<open>\<pi>\<close> about the centre of the extent of its scaled geometry and sets its
  angle \<open>a\<close> to the remainder of \<open>a + \<pi>\<close> by \<open>2\<pi>\<close>, which is \<open>\<pi>\<close> for \<open>a = 0\<close>; a
  selected feature without the attribute is left as the drag frame made it. If the head
  is not inverted the pointer-up changes no feature.
\<close>

theorem head_inversion_correction:
  assumes "mode st = Scale" and "distinct (selections st)"
    and "length (prevSelections st) = length (selections st)"
    and "i < length (selections st)"
  shows "\<exists>st1. handleDragEvent evt st = Inr st1
    \<and> headInverted st1 = jsLess (snd (scaleFactorsJs evt (scalingSel st))) 0
    \<and> store st1 (selections st ! i) =
        (store st (selections st ! i))
          \<lparr>geometry := scaleShape (scOppositeIdx (scalingSel st))
                         (fst (scaleFactorsJs evt (scalingSel st)))
                         (snd (scaleFactorsJs evt (scalingSel st))) (prevSelections st ! i)\<rparr>
    \<and> (headInverted st1 \<longrightarrow>
         (\<forall>a. angle (store st (selections st ! i)) = Some a \<longrightarrow>
            store (snd (handleUpEvent up st1)) (selections st ! i) =
              \<lparr>geometry =
                 rotateGeometry pi (getCenter (getExtent (geometry (store st1 (selections st ! i)))))
                   (geometry (store st1 (selections st ! i))),
               angle = Some (jsRem (a + pi) (2 * pi))\<rparr>)
         \<and> (angle (store st (selections st ! i)) = Some 0 \<longrightarrow>
              angle (store (snd (handleUpEvent up st1)) (selections st ! i)) = Some pi)
         \<and> (angle (store st (selections st ! i)) = None \<longrightarrow>
              store (snd (handleUpEvent up st1)) (selections st ! i) =
                store st1 (selections st ! i)))
    \<and> (\<not> headInverted st1 \<longrightarrow> store (snd (handleUpEvent up st1)) = store st1)"
proof -
  have c: "length (prevSelections st) \<le> length (selections st)" using assms(3) by simp
  let ?st0 = "st\<lparr>handleLayer := [], isTransformed := True\<rparr>"
  let ?F = "scaleFactorsJs evt (scalingSel st)"
  let ?gs = "map (scaleShape (scOppositeIdx (scalingSel st)) (fst ?F) (snd ?F)) (prevSelections st)"
  let ?f = "selections st ! i"
  define st1 where "st1 = dispatchTransformEvent Transforming evt
     (dispatchTransformEvent Scaling evt
       ((assignGeoms 0 ?gs ?st0)\<lparr>headInverted := jsLess (snd ?F) 0\<rparr>))"
  have d: "handleDragEvent evt st = Inr st1"
    unfolding st1_def by (rule handleDragEvent_scale_total [OF assms(1) c])
  note sc = assignGeoms_sameControl [of ?st0 0 ?gs]
  have hi: "headInverted st1 = jsLess (snd ?F) 0"
    by (simp add: st1_def dispatchTransformEvent_def)
  have "distinct (selections ?st0)" and "0 + length ?gs \<le> length (selections ?st0)"
    using assms(2,3) by simp_all
  from assignGeoms_store [OF this] assms(3,4)
  have "store (assignGeoms 0 ?gs ?st0) ?f = (store st ?f)\<lparr>geometry := ?gs ! i\<rparr>"
    by simp
  then have g: "store st1 ?f =
      (store st ?f)\<lparr>geometry := scaleShape (scOppositeIdx (scalingSel st)) (fst ?F) (snd ?F)
                                  (prevSelections st ! i)\<rparr>"
    using assms(3,4) by (simp add: st1_def dispatchTransformEvent_def)
  then have an: "angle (store st1 ?f) = angle (store st ?f)" by simp
  have m1: "mode st1 = Scale" and s1: "selections st1 = selections st"
    using sc assms(1) by (simp_all add: st1_def dispatchTransformEvent_def sameControl_def)
  have f: "?f \<in> set (selections st)" using assms(4) by simp
  have up: "headInverted st1 \<Longrightarrow> store (snd (handleUpEvent up st1)) ?f = halfTurned (store st1 ?f)"
    using assms(2) f m1 s1 by (simp add: handleUpEvent_store foldl_headCorrect_store)
  have nup: "\<not> headInverted st1 \<longrightarrow> store (snd (handleUpEvent up st1)) = store st1"
    by (simp add: handleUpEvent_store)
  have "0 < 2 * pi" and "\<bar>0 + pi\<bar> < 2 * pi" by simp_all
  then have r: "jsRem (0 + pi) (2 * pi) = pi" using jsRem_small by simp
  have t: "headInverted st1 \<longrightarrow>
         (\<forall>a. angle (store st ?f) = Some a \<longrightarrow>
            store (snd (handleUpEvent up st1)) ?f =
              \<lparr>geometry = rotateGeometry pi (getCenter (getExtent (geometry (store st1 ?f))))
                   (geometry (store st1 ?f)),
               angle = Some (jsRem (a + pi) (2 * pi))\<rparr>)
         \<and> (angle (store st ?f) = Some 0 \<longrightarrow>
              angle (store (snd (handleUpEvent up st1)) ?f) = Some pi)
         \<and> (angle (store st ?f) = None \<longrightarrow>
              store (snd (handleUpEvent up st1)) ?f = store st1 ?f)"
    using an up r by (auto simp: halfTurned_def)
  show ?thesis
    by (rule exI [of _ st1]) (intro conjI d hi g t nup)
qed

text \<open>
  C4 (witness). The square with the angle \<open>0\<close>: the handle of index 7 is dragged from
  \<open>(5, 10)\<close> to \<open>(5, -10)\<close>, so \<open>scaleY = -1\<close>; the frame mirrors the square across its
  lower edge, and after the release the square is the mirrored square turned by \<open>\<pi>\<close>
  about \<open>(5, -5)\<close>, and its angle is \<open>\<pi>\<close>.
\<close>

theorem head_inversion_correction_witness:
  "mode (pressed7 (Some 0)) = Scale \<and> distinct (selections (pressed7 (Some 0)))
   \<and> length (prevSelections (pressed7 (Some 0))) = length (selections (pressed7 (Some 0)))
   \<and> 0 < length (selections (pressed7 (Some 0)))
   \<and> handleDragEvent (pointer (5, - 10) [] False) (pressed7 (Some 0)) = Inr (dragged7 (Some 0))
   \<and> scaleFactorsJs (pointer (5, - 10) [] False) (scalingSel (pressed7 (Some 0))) =
       (Finite 1, Finite (- 1))
   \<and> headInverted (dragged7 (Some 0))
   \<and> geometry (store (dragged7 (Some 0)) 0) = Polygon [(0, 0), (10, 0), (10, - 10), (0, - 10), (0, 0)]
   \<and> store (released7 (Some 0)) 0 =
       \<lparr>geometry = Polygon [(10, - 10), (0, - 10), (0, 0), (10, 0), (10, - 10)], angle = Some pi\<rparr>"
proof -
  have z: "Some (0::real) = None \<or> Some (0::real) = Some 0" by simp
  note p = pressed7_fields [OF z]
  let ?d = "pointer (5, - 10) [] False"
  let ?P = "pressed7 (Some 0)"
  let ?f = "selections ?P ! 0"
  have a1: "mode ?P = Scale" and a2: "distinct (selections ?P)"
    and a3: "length (prevSelections ?P) = length (selections ?P)"
    and a4: "0 < length (selections ?P)"
    by (simp_all add: p)
  have F: "scaleFactorsJs ?d (scalingSel ?P) = (Finite 1, Finite (- 1))"
    by (simp add: p scaleFactorsJs_finite scaleFactors_7)
  have f0: "?f = 0" by (simp add: p)
  from head_inversion_correction [OF a1 a2 a3 a4, of ?d ?d]
  obtain st1 where d: "handleDragEvent ?d ?P = Inr st1"
    and hi: "headInverted st1 = jsLess (snd (scaleFactorsJs ?d (scalingSel ?P))) 0"
    and g: "store st1 ?f =
        (store ?P ?f)
          \<lparr>geometry := scaleShape (scOppositeIdx (scalingSel ?P))
                         (fst (scaleFactorsJs ?d (scalingSel ?P)))
                         (snd (scaleFactorsJs ?d (scalingSel ?P))) (prevSelections ?P ! 0)\<rparr>"
    and t: "headInverted st1 \<longrightarrow>
         (\<forall>a. angle (store ?P ?f) = Some a \<longrightarrow>
            store (snd (handleUpEvent ?d st1)) ?f =
              \<lparr>geometry =
                 rotateGeometry pi (getCenter (getExtent (geometry (store st1 ?f))))
                   (geometry (store st1 ?f)),
               angle = Some (jsRem (a + pi) (2 * pi))\<rparr>)
         \<and> (angle (store ?P ?f) = Some 0 \<longrightarrow>
              angle (store (snd (handleUpEvent ?d st1)) ?f) = Some pi)
         \<and> (angle (store ?P ?f) = None \<longrightarrow>
              store (snd (handleUpEvent ?d st1)) ?f = store st1 ?f)"
    by (elim exE conjE) (rule that, assumption+)
  from d have e: "dragged7 (Some 0) = st1" by (simp add: dragged7_def)
  from hi have h: "headInverted st1" unfolding F by (simp add: jsLess_Finite)
  from g have g1: "store st1 0 =
      \<lparr>geometry = Polygon [(0, 0), (10, 0), (10, - 10), (0, - 10), (0, 0)], angle = Some 0\<rparr>"
    unfolding F f0 by (simp add: p squareWith_def scaleShape_7 [OF z])
  have an: "angle (store ?P ?f) = Some 0" by (simp add: p squareWith_def)
  have "0 < 2 * pi" and "\<bar>0 + pi\<bar> < 2 * pi" by simp_all
  then have r: "jsRem (0 + pi) (2 * pi) = pi" using jsRem_small by simp
  from t h an have "store (snd (handleUpEvent ?d st1)) ?f =
              \<lparr>geometry =
                 rotateGeometry pi (getCenter (getExtent (geometry (store st1 ?f))))
                   (geometry (store st1 ?f)),
               angle = Some (jsRem (0 + pi) (2 * pi))\<rparr>"
    by blast
  then have "store (snd (handleUpEvent ?d st1)) 0 =
       \<lparr>geometry = Polygon [(10, - 10), (0, - 10), (0, 0), (10, 0), (10, - 10)], angle = Some pi\<rparr>"
    unfolding f0 r by (simp add: g1 flipped_extent flipped_turned)
  then have rel: "store (released7 (Some 0)) 0 =
       \<lparr>geometry = Polygon [(10, - 10), (0, - 10), (0, 0), (10, 0), (10, - 10)], angle = Some pi\<rparr>"
    by (simp add: released7_def e)
  have hd: "headInverted (dragged7 (Some 0))" using h by (simp add: e)
  have gd: "geometry (store (dragged7 (Some 0)) 0) =
      Polygon [(0, 0), (10, 0), (10, - 10), (0, - 10), (0, 0)]"
    using g1 by (simp add: e)
  have dd: "handleDragEvent ?d ?P = Inr (dragged7 (Some 0))" using d by (simp add: e)
  show ?thesis
    by (intro conjI a1 a2 a3 a4 dd F hd gd rel)
qed

text \<open>
  C4 (counterexample). The same gesture on a square without the angle attribute: the
  head is inverted, and the pointer-up leaves the geometry as the drag frame made it,
  which is not that geometry turned by \<open>\<pi>\<close> about its centre.
\<close>

theorem head_inversion_no_angle_counterexample:
  "mode (dragged7 None) = Scale \<and> headInverted (dragged7 None)
   \<and> selections (dragged7 None) = [0]
   \<and> store (released7 None) 0 = store (dragged7 None) 0
   \<and> geometry (store (released7 None) 0) \<noteq>
       rotateGeometry pi (getCenter (getExtent (geometry (store (dragged7 None) 0))))
         (geometry (store (dragged7 None) 0))"
proof -
  have z: "(None :: real option) = None \<or> (None :: real option) = Some 0" by simp
  note d = dragged7_fields [OF z]
  have "store (released7 None) 0 = store (dragged7 None) 0"
    by (simp add: released7_store [OF z] d(1) halfTurned_def)
  then show ?thesis
    using d by (simp add: flipped_extent flipped_turned)
qed

section \<open>A shape of height zero\<close>

lemma orientedBox_flat:
  "orientedBoxCoords 0 flat = [(0, 0), (0, 0), (10, 0), (10, 0), (0, 0)]"
  by (simp add: orientedBoxCoords_def getCenter_def rotateGeometry_def
      flat_def rotateCoord_zero getExtent_def extendCoordinate_def fromExtent_def)

lemma flatSelected_fields:
  "selections flatSelected = [0]" "store flatSelected = flatStore"
  "mode flatSelected = Idle" "\<not> isTransformed flatSelected"
  "handleLayer flatSelected = genHandles (flatStore 0) 0 @ [genTranslateHandle (flatStore 0) 0]"
proof -
  let ?down = "pointer (5, 0) [Body 0] False"
  let ?st1 = "snd (handleDownEvent ?down (initialState flatStore))"
  have h: "handleDownEvent ?down (initialState flatStore) = (True, ?st1)"
    using fst_pressBody [of "(5, 0)" 0 "[]" False "initialState flatStore"]
    by (simp add: prod_eq_iff)
  note p = pressBody_initial [OF h]
  show "selections flatSelected = [0]" "store flatSelected = flatStore"
    "mode flatSelected = Idle" "\<not> isTransformed flatSelected"
    using p by (simp_all add: flatSelected_def handleUpEvent_reset handleUpEvent_store)
  then show "handleLayer flatSelected =
      genHandles (flatStore 0) 0 @ [genTranslateHandle (flatStore 0) 0]"
    by (simp add: flatSelected_def handleUpEvent_handleLayer handleUpEvent_reset
        handleUpEvent_store p drawLoop_first)
qed

lemma flat_handle_in_overlay: "handleLayer flatSelected ! 8 = scaleHandle (5, 0) 7"
proof -
  have u: "[0 .. scaleHandlesLength - 1] = [0, 1, 2, 3, 4, 5, 6, 7]"
    by (simp add: scaleHandlesLength_def upto.simps)
  show ?thesis
    by (simp add: flatSelected_fields genHandles_def flatStore_def flat_def u angleOrZero_def
        orientedBox_flat [unfolded flat_def] Let_def scaleHandle_def getCenter_def
        extendCoordinate_def)
qed

lemma flatPressed_fields:
  "mode flatPressed = Scale" "selections flatPressed = [0]"
  "store flatPressed = flatStore"
  "prevSelections flatPressed = [\<lparr>geometry = flat, angle = Some 0\<rparr>]"
  "scalingSel flatPressed =
     \<lparr>scAngle = 0, scW = 10, scH = 0, scHandleIdx = 7, scOppositeIdx = 3,
      scOppositeCoord = (5, 0), scStartCoord = (5, 0)\<rparr>"
  "\<not> isTransformed flatPressed"
  "map eventType (dispatched flatPressed) =
     map eventType (dispatched flatSelected) @ [Mousedown, Scalestart, Transformstart]"
  by (auto simp: flatPressed_def handleDownEvent_first_handle dispatchTransformEvent_def
      dispatchStart_other initHandle_other scaleHandle_def flatSelected_fields
      initHandle_def initScale_def flatStore_def angleOrZero_def orientedBox_flat
      half_handles oppositeIdx_eval calcDistance_horizontal calcDistance_vertical rotatePoint_zero
      dispatchStart_def Let_def getCenter_def extendCoordinate_def)

lemma flat_factors:
  "scaleFactorsJs (pointer (5, - 10) [] False)
     \<lparr>scAngle = 0, scW = 10, scH = 0, scHandleIdx = 7, scOppositeIdx = 3,
      scOppositeCoord = (5, 0), scStartCoord = (5, 0)\<rparr> = (Finite 1, NegInfinity)"
  by (simp add: scaleFactorsJs_def pointer_simps rotatePoint_zero scaleDeltas_def Let_def
      jsDiv_def jsAdd_def)

text \<open>
  The drag of that handle to \<open>(5, -10)\<close>: \<open>scaleX\<close> is \<open>1\<close> and \<open>scaleY\<close> is \<open>-\<infinity>\<close>.
  The frame completes, records the head inversion, leaves a geometry that is not finite
  and dispatches its notifications; the pointer-up dispatches the end notifications and
  sets the angle to \<open>\<pi>\<close>.
\<close>

lemma flat_drag:
  "\<exists>st1. handleDragEvent (pointer (5, - 10) [] False) flatPressed = Inr st1
     \<and> headInverted st1
     \<and> store st1 0 = \<lparr>geometry = NonFinitePolygon, angle = Some 0\<rparr>
     \<and> map eventType (dispatched st1) =
         map eventType (dispatched flatPressed) @ [Scaling, Transforming]
     \<and> map eventType (dispatched (snd (handleUpEvent (pointer (5, - 10) [] False) st1))) =
         map eventType (dispatched flatPressed) @
           [Scaling, Transforming, Mouseup, Scaleend, Transformend]
     \<and> store (snd (handleUpEvent (pointer (5, - 10) [] False) st1)) 0 =
         \<lparr>geometry = NonFinitePolygon, angle = Some pi\<rparr>"
proof -
  note p = flatPressed_fields
  let ?d = "pointer (5, - 10) [] False"
  have le: "length (prevSelections flatPressed) \<le> length (selections flatPressed)"
    by (simp add: p)
  have sh: "scaleShape 3 (Finite 1) NegInfinity \<lparr>geometry = flat, angle = Some 0\<rparr> =
      NonFinitePolygon"
    by (simp add: scaleShape_def scaleGeometryJs_def Let_def rotateGeometry_def flat_def)
  define st1 where "st1 = projr (handleDragEvent ?d flatPressed)"
  have d: "handleDragEvent ?d flatPressed = Inr st1"
    by (simp add: st1_def handleDragEvent_scale_total [OF p(1) le])
  have e: "st1 = dispatchTransformEvent Transforming ?d (dispatchTransformEvent Scaling ?d
       ((assignGeoms 0 [NonFinitePolygon]
           (flatPressed\<lparr>handleLayer := [], isTransformed := True\<rparr>))
         \<lparr>headInverted := True\<rparr>))"
    by (simp add: st1_def handleDragEvent_scale_total [OF p(1) le] p flat_factors sh jsLess_def)
  have hi: "headInverted st1" by (simp add: e dispatchTransformEvent_def)
  have s: "store st1 0 = \<lparr>geometry = NonFinitePolygon, angle = Some 0\<rparr>"
    by (simp add: e dispatchTransformEvent_def setGeometry_def p flatStore_def)
  have m: "mode st1 = Scale" and t: "isTransformed st1" and sel: "selections st1 = [0]"
    using handleDragEvent_control(1,2,3) [OF d] by (simp_all add: p)
  have ty: "map eventType (dispatched st1) =
         map eventType (dispatched flatPressed) @ [Scaling, Transforming]"
    using handleDragEvent_control(5) [OF d] by (simp add: p progressTypes_def)
  have up: "map eventType (dispatched (snd (handleUpEvent ?d st1))) =
         map eventType (dispatched flatPressed) @
           [Scaling, Transforming, Mouseup, Scaleend, Transformend]"
    by (simp add: handleUpEvent_types ty m t endTypes_def)
  have "0 < 2 * pi" and "\<bar>0 + pi\<bar> < 2 * pi" by simp_all
  then have r: "jsRem (0 + pi) (2 * pi) = pi" using jsRem_small by simp
  have rel: "store (snd (handleUpEvent ?d st1)) 0 = \<lparr>geometry = NonFinitePolygon, angle = Some pi\<rparr>"
    using r by (simp add: handleUpEvent_store m hi sel headCorrect_store halfTurned_def s
        rotateGeometry_def)
  show ?thesis
    by (intro exI [of _ st1] conjI d hi s ty up rel)
qed

section \<open>A second gesture after a head inversion\<close>

lemma released7_fields:
  "headInverted (released7 (Some 0))" "mode (released7 (Some 0)) = Idle"
  "selections (released7 (Some 0)) = [0]" "\<not> isTransformed (released7 (Some 0))"
  "store (released7 (Some 0)) 0 =
     \<lparr>geometry = Polygon [(10, - 10), (0, - 10), (0, 0), (10, 0), (10, - 10)], angle = Some pi\<rparr>"
proof -
  have z: "Some (0::real) = None \<or> Some (0::real) = Some 0" by simp
  note d = dragged7_fields [OF z]
  have "0 < 2 * pi" and "\<bar>0 + pi\<bar> < 2 * pi" by simp_all
  then have r: "jsRem (0 + pi) (2 * pi) = pi" using jsRem_small by simp
  show "headInverted (released7 (Some 0))" "mode (released7 (Some 0)) = Idle"
    "selections (released7 (Some 0)) = [0]" "\<not> isTransformed (released7 (Some 0))"
    using d by (simp_all add: released7_def handleUpEvent_reset)
  show "store (released7 (Some 0)) 0 =
     \<lparr>geometry = Polygon [(10, - 10), (0, - 10), (0, 0), (10, 0), (10, - 10)], angle = Some pi\<rparr>"
    using r by (simp add: released7_store [OF z] halfTurned_def flipped_extent flipped_turned)
qed

lemma pressedAgain_fields:
  "headInverted pressedAgain" "mode pressedAgain = Scale" "selections pressedAgain = [0]"
  "store pressedAgain = store (released7 (Some 0))" "\<not> isTransformed pressedAgain"
  by (simp_all add: pressedAgain_def handleDownEvent_first_handle dispatchTransformEvent_def
      dispatchStart_other initHandle_other scaleHandle_def released7_fields)

lemma turned_extent:
  "getCenter (getExtent (Polygon [(10, - 10), (0, - 10), (0, 0), (10, 0), (10, - 10)])) = (5, - 5)"
  by (simp add: getExtent_def getCenter_def extendCoordinate_def)

lemma turned_turned:
  "rotateGeometry pi (5, - 5) (Polygon [(10, - 10), (0, - 10), (0, 0), (10, 0), (10, - 10)]) =
     Polygon [(0, 0), (10, 0), (10, - 10), (0, - 10), (0, 0)]"
  by (simp add: rotateGeometry_def rotateCoord_def)

lemma jsRem_full_turn: "jsRem (pi + pi) (2 * pi) = 0" "jsRem (2 * pi) (2 * pi) = 0"
  by (simp_all add: jsRem_def jsTrunc_def)

lemma releasedAgain_store:
  "store releasedAgain 0 =
     \<lparr>geometry = Polygon [(0, 0), (10, 0), (10, - 10), (0, - 10), (0, 0)], angle = Some 0\<rparr>"
  by (simp add: releasedAgain_def handleUpEvent_store pressedAgain_fields
      foldl_headCorrect_store headCorrect_store released7_fields halfTurned_def
      turned_extent turned_turned jsRem_full_turn)

lemma handleLayer_released7:
  "scaleHandle (5, - 10) 7 \<in> set (handleLayer (released7 (Some 0)))"
proof -
  let ?g = "Polygon [(10, - 10), (0, - 10), (0, 0), (10, 0), (10, - 10)]"
  have ob: "orientedBoxCoords pi ?g = [(10, - 10), (10, 0), (0, 0), (0, - 10), (10, - 10)]"
    by (simp add: orientedBoxCoords_def turned_extent Let_def)
       (simp add: rotateGeometry_def rotateCoord_def getExtent_def extendCoordinate_def
          fromExtent_def)
  have u: "[0 .. scaleHandlesLength - 1] = [0, 1, 2, 3, 4, 5, 6, 7]"
    by (simp add: scaleHandlesLength_def upto.simps)
  have "handleLayer (released7 (Some 0)) =
      drawLoop (store (released7 (Some 0))) 0 [0] []"
    using handleUpEvent_handleLayer [of "pointer (5, - 10) [] False" "dragged7 (Some 0)"]
      released7_fields(3)
    by (simp add: released7_def handleUpEvent_reset)
  then have "handleLayer (released7 (Some 0)) =
      genHandles (store (released7 (Some 0)) 0) 0 @
        [genTranslateHandle (store (released7 (Some 0)) 0) 0]"
    by (simp add: drawLoop_first)
  then show ?thesis
    by (simp add: released7_fields genHandles_def angleOrZero_def ob u Let_def scaleHandle_def
        getCenter_def extendCoordinate_def)
qed


text \<open>
  C5 (the code at the failing input). After the gesture that inverted the head of the
  square (angle \<open>0\<close>) and its pointer-up, the mode is idle but the inversion flag is
  still set. The handle of index 7 of the redrawn overlay is then pressed and released
  without a drag: this second gesture turns the square by \<open>\<pi>\<close> once more and changes
  its angle from \<open>\<pi>\<close> to \<open>0\<close>.
\<close>

theorem stale_head_inversion:
  "mode (released7 (Some 0)) = Idle \<and> headInverted (released7 (Some 0))
   \<and> scaleHandle (5, - 10) 7 \<in> set (handleLayer (released7 (Some 0)))
   \<and> handleDownEvent (pointer (5, - 10) [Handle (scaleHandle (5, - 10) 7)] False)
        (released7 (Some 0)) = (True, pressedAgain)
   \<and> store pressedAgain 0 =
       \<lparr>geometry = Polygon [(10, - 10), (0, - 10), (0, 0), (10, 0), (10, - 10)], angle = Some pi\<rparr>
   \<and> store releasedAgain 0 =
       \<lparr>geometry = Polygon [(0, 0), (10, 0), (10, - 10), (0, - 10), (0, 0)], angle = Some 0\<rparr>
   \<and> store releasedAgain 0 \<noteq> store pressedAgain 0"
proof -
  have "handleDownEvent (pointer (5, - 10) [Handle (scaleHandle (5, - 10) 7)] False)
        (released7 (Some 0)) = (True, pressedAgain)"
    by (simp add: pressedAgain_def handleDownEvent_first_handle)
  then show ?thesis
    by (simp add: released7_fields handleLayer_released7 pressedAgain_fields releasedAgain_store)
qed

section \<open>Extents under axis maps\<close>

lemma foldl_extend_ordered:
  "ordered e \<Longrightarrow> ordered (foldl extendCoordinate e ps)"
proof (induction ps arbitrary: e)
  case Nil
  then show ?case by simp
next
  case (Cons p ps)
  have "ordered (extendCoordinate e p)"
    using Cons.prems by (cases e) (auto simp: ordered_def extendCoordinate_def)
  from Cons.IH [OF this] show ?case by simp
qed

lemma boundingExtent_ordered: "ordered (boundingExtent ps)"
proof (cases ps)
  case Nil
  then show ?thesis by (simp add: ordered_def)
next
  case (Cons p qs)
  obtain x y where p: "p = (x, y)" by (cases p)
  have "ordered (x, y, x, y)" by (simp add: ordered_def)
  from foldl_extend_ordered [OF this] Cons p show ?thesis by simp
qed

lemma extend_axisMap:
  assumes "0 \<le> \<alpha>" and "0 \<le> \<gamma>"
  shows "extendCoordinate (axisExtent \<alpha> \<beta> \<gamma> \<delta> e) (axisMap \<alpha> \<beta> \<gamma> \<delta> p) =
           axisExtent \<alpha> \<beta> \<gamma> \<delta> (extendCoordinate e p)"
proof -
  obtain x0 y0 x1 y1 where e: "e = (x0, y0, x1, y1)" by (cases e)
  have mn: "min (k * u + c) (k * v + c) = k * min u v + c" if "0 \<le> k" for k c u v :: real
  proof (cases "u \<le> v")
    case True
    then have "k * u \<le> k * v" using that by (rule mult_left_mono)
    with True show ?thesis by (simp add: min_def)
  next
    case False
    then have "v \<le> u" by simp
    then have "k * v \<le> k * u" using that by (rule mult_left_mono)
    with False show ?thesis by (simp add: min_def)
  qed
  have mx: "max (k * u + c) (k * v + c) = k * max u v + c" if "0 \<le> k" for k c u v :: real
  proof (cases "u \<le> v")
    case True
    then have "k * u \<le> k * v" using that by (rule mult_left_mono)
    with True show ?thesis by (simp add: max_def)
  next
    case False
    then have "v \<le> u" by simp
    then have "k * v \<le> k * u" using that by (rule mult_left_mono)
    with False show ?thesis by (simp add: max_def)
  qed
  show ?thesis
    using assms by (simp add: e axisExtent_def axisMap_def extendCoordinate_def mn mx)
qed

lemma foldl_extend_axisMap:
  assumes "0 \<le> \<alpha>" and "0 \<le> \<gamma>"
  shows "foldl extendCoordinate (axisExtent \<alpha> \<beta> \<gamma> \<delta> e) (map (axisMap \<alpha> \<beta> \<gamma> \<delta>) ps) =
           axisExtent \<alpha> \<beta> \<gamma> \<delta> (foldl extendCoordinate e ps)"
  by (induction ps arbitrary: e) (simp_all add: extend_axisMap [OF assms])

lemma boundingExtent_axisMap:
  assumes "0 \<le> \<alpha>" and "0 \<le> \<gamma>" and "ps \<noteq> []"
  shows "boundingExtent (map (axisMap \<alpha> \<beta> \<gamma> \<delta>) ps) = axisExtent \<alpha> \<beta> \<gamma> \<delta> (boundingExtent ps)"
proof -
  from assms(3) obtain x y qs where ps: "ps = (x, y) # qs" by (cases ps) auto
  have "boundingExtent (map (axisMap \<alpha> \<beta> \<gamma> \<delta>) ps) =
          foldl extendCoordinate (axisExtent \<alpha> \<beta> \<gamma> \<delta> (x, y, x, y)) (map (axisMap \<alpha> \<beta> \<gamma> \<delta>) qs)"
    by (simp add: ps axisExtent_def axisMap_def)
  also have "\<dots> = axisExtent \<alpha> \<beta> \<gamma> \<delta> (foldl extendCoordinate (x, y, x, y) qs)"
    by (rule foldl_extend_axisMap [OF assms(1,2)])
  finally show ?thesis by (simp add: ps)
qed

lemma localHandle_axisMap:
  "localHandle (axisExtent \<alpha> \<beta> \<gamma> \<delta> e) k = axisMap \<alpha> \<beta> \<gamma> \<delta> (localHandle e k)"
  by (cases e) (simp add: localHandle_def axisExtent_def axisMap_def field_simps)

section \<open>Rotations\<close>

lemma rotateCoord_inverse:
  "rotateCoord a c (rotateCoord (- a) c p) = p" "rotateCoord (- a) c (rotateCoord a c p) = p"
proof -
  have e: "cos a * cos a + sin a * sin a = 1"
    using sin_cos_squared_add2 [of a] by (simp add: power2_eq_square)
  have x: "\<And>u v :: real. (u * cos a + v * sin a) * cos a - (v * cos a - u * sin a) * sin a = u"
  proof -
    fix u v :: real
    have "(u * cos a + v * sin a) * cos a - (v * cos a - u * sin a) * sin a =
            u * (cos a * cos a + sin a * sin a)"
      by (simp add: algebra_simps del: sin_cos_squared_add3)
    then show "(u * cos a + v * sin a) * cos a - (v * cos a - u * sin a) * sin a = u"
      by (simp only: e mult_1_right)
  qed
  have y: "\<And>u v :: real. (u * cos a + v * sin a) * sin a + (v * cos a - u * sin a) * cos a = v"
  proof -
    fix u v :: real
    have "(u * cos a + v * sin a) * sin a + (v * cos a - u * sin a) * cos a =
            v * (cos a * cos a + sin a * sin a)"
      by (simp add: algebra_simps del: sin_cos_squared_add3)
    then show "(u * cos a + v * sin a) * sin a + (v * cos a - u * sin a) * cos a = v"
      by (simp only: e mult_1_right)
  qed
  have x': "\<And>u v :: real. (u * cos a - v * sin a) * cos a + (u * sin a + v * cos a) * sin a = u"
  proof -
    fix u v :: real
    have "(u * cos a - v * sin a) * cos a + (u * sin a + v * cos a) * sin a =
            u * (cos a * cos a + sin a * sin a)"
      by (simp add: algebra_simps del: sin_cos_squared_add3)
    then show "(u * cos a - v * sin a) * cos a + (u * sin a + v * cos a) * sin a = u"
      by (simp only: e mult_1_right)
  qed
  have y': "\<And>u v :: real. (u * sin a + v * cos a) * cos a - (u * cos a - v * sin a) * sin a = v"
  proof -
    fix u v :: real
    have "(u * sin a + v * cos a) * cos a - (u * cos a - v * sin a) * sin a =
            v * (cos a * cos a + sin a * sin a)"
      by (simp add: algebra_simps del: sin_cos_squared_add3)
    then show "(u * sin a + v * cos a) * cos a - (u * cos a - v * sin a) * sin a = v"
      by (simp only: e mult_1_right)
  qed
  show "rotateCoord a c (rotateCoord (- a) c p) = p"
    using x [of "fst p - fst c" "snd p - snd c"] y [of "fst p - fst c" "snd p - snd c"]
    by (simp add: rotateCoord_def prod_eq_iff)
  show "rotateCoord (- a) c (rotateCoord a c p) = p"
    using x' [of "fst p - fst c" "snd p - snd c"] y' [of "fst p - fst c" "snd p - snd c"]
    by (simp add: rotateCoord_def prod_eq_iff)
qed

lemma rotateCoord_anchor: "rotateCoord a c c = c"
  by (simp add: rotateCoord_def)

lemma rotate_back_translate:
  "rotateCoord (- a) A (rotateCoord a c q) =
     axisMap 1 (fst (rotateCoord (- a) A c) - fst c) 1 (snd (rotateCoord (- a) A c) - snd c) q"
proof -
  have e: "cos a * cos a + sin a * sin a = 1"
    using sin_cos_squared_add2 [of a] by (simp add: power2_eq_square)
  have "fst (rotateCoord (- a) A (rotateCoord a c q)) - fst (rotateCoord (- a) A c) =
          (fst q - fst c) * (cos a * cos a + sin a * sin a)"
    by (simp add: rotateCoord_def algebra_simps del: sin_cos_squared_add3)
  then have x: "fst (rotateCoord (- a) A (rotateCoord a c q)) =
      fst q + (fst (rotateCoord (- a) A c) - fst c)"
    unfolding e by simp
  have "snd (rotateCoord (- a) A (rotateCoord a c q)) - snd (rotateCoord (- a) A c) =
          (snd q - snd c) * (cos a * cos a + sin a * sin a)"
    by (simp add: rotateCoord_def algebra_simps del: sin_cos_squared_add3)
  then have y: "snd (rotateCoord (- a) A (rotateCoord a c q)) =
      snd q + (snd (rotateCoord (- a) A c) - snd c)"
    unfolding e by simp
  show ?thesis
    using x y by (simp add: axisMap_def prod_eq_iff)
qed

lemma scaleCoord_axisMap:
  "scaleCoord sx sy A = axisMap sx (fst A - sx * fst A) sy (snd A - sy * snd A)"
  by (simp add: fun_eq_iff scaleCoord_def axisMap_def algebra_simps)

lemma axisMap_comp:
  "axisMap \<alpha> \<beta> \<gamma> \<delta> (axisMap \<alpha>' \<beta>' \<gamma>' \<delta>' p) =
     axisMap (\<alpha> * \<alpha>') (\<alpha> * \<beta>' + \<beta>) (\<gamma> * \<gamma>') (\<gamma> * \<delta>' + \<delta>) p"
  by (simp add: axisMap_def algebra_simps)

lemma scaleCoord_anchor: "scaleCoord sx sy A A = A"
  by (simp add: scaleCoord_def)

lemma coordinatesOf_mapGeometry: "coordinatesOf (mapGeometry f g) = map f (coordinatesOf g)"
  by (cases g) simp_all

lemma mapGeometry_comp: "mapGeometry f (mapGeometry h g) = mapGeometry (\<lambda>p. f (h p)) g"
  by (cases g) simp_all

lemma center_pair:
  "getCenter (boundingExtent [p, q]) = ((fst p + fst q) / 2, (snd p + snd q) / 2)"
  by (cases p; cases q) (auto simp: getCenter_def extendCoordinate_def min_def max_def)

lemma rotateCoord_midpoint:
  "((fst (rotateCoord a c p) + fst (rotateCoord a c q)) / 2,
    (snd (rotateCoord a c p) + snd (rotateCoord a c q)) / 2) =
   rotateCoord a c ((fst p + fst q) / 2, (snd p + snd q) / 2)"
  by (simp add: rotateCoord_def field_simps)

lemma ring_of_ordered:
  "x0 \<le> x1 \<Longrightarrow> y0 \<le> y1 \<Longrightarrow>
     rearrangeCoords (fromExtent (x0, y0, x1, y1)) = [(x0, y1), (x0, y0), (x1, y0), (x1, y1), (x0, y1)]"
  by (simp add: fromExtent_def)

lemma handle_outside: "\<not> (0 \<le> k \<and> k \<le> 7) \<Longrightarrow> calcScaleHandleCoord cs k = (0, 0)"
  by (cases "(cs, k)" rule: calcScaleHandleCoord.cases) auto

lemma obb_handle_local:
  assumes "0 \<le> k" and "k \<le> 7"
  shows "calcScaleHandleCoord (orientedBoxCoords a g) k =
     rotateCoord a (getCenter (getExtent g))
       (localHandle (getExtent (rotateGeometry (- a) (getCenter (getExtent g)) g)) k)"
proof -
  let ?c = "getCenter (getExtent g)"
  let ?E = "getExtent (rotateGeometry (- a) ?c g)"
  obtain x0 y0 x1 y1 where E: "?E = (x0, y0, x1, y1)" by (cases ?E)
  have "ordered ?E" by (simp add: getExtent_def boundingExtent_ordered)
  with E have o: "x0 \<le> x1" "y0 \<le> y1" by (simp_all add: ordered_def)
  have ob: "orientedBoxCoords a g =
      map (rotateCoord a ?c) [(x0, y1), (x0, y0), (x1, y0), (x1, y1), (x0, y1)]"
    by (simp add: orientedBoxCoords_def Let_def E ring_of_ordered [OF o])
  from assms have k: "k = 0 \<or> k = 1 \<or> k = 2 \<or> k = 3 \<or> k = 4 \<or> k = 5 \<or> k = 6 \<or> k = 7"
    by presburger
  have m1: "getCenter (boundingExtent [rotateCoord a ?c p, rotateCoord a ?c q]) =
      rotateCoord a ?c ((fst p + fst q) / 2, (snd p + snd q) / 2)" for p q
    by (simp only: center_pair rotateCoord_midpoint)
  from k show ?thesis
    unfolding ob E
    by (elim disjE) (simp_all add: localHandle_def m1 add.commute del: boundingExtent.simps)
qed

lemma anchor_fixed:
  assumes "0 \<le> sx" and "0 \<le> sy" and "coordinatesOf (geometry sel) \<noteq> []"
  shows "calcScaleHandleCoord
           (orientedBoxCoords (angleOrZero sel) (scaleShape k (Finite sx) (Finite sy) sel)) k =
         calcScaleHandleCoord (orientedBoxCoords (angleOrZero sel) (geometry sel)) k"
proof (cases "0 \<le> k \<and> k \<le> 7")
  case False
  then show ?thesis by (simp add: handle_outside)
next
  case True
  then have k: "0 \<le> k" "k \<le> 7" by simp_all
  define a where "a = angleOrZero sel"
  define G where "G = geometry sel"
  define C where "C = coordinatesOf G"
  define c where "c = getCenter (getExtent G)"
  define P where "P = map (rotateCoord (- a) c) C"
  define E where "E = boundingExtent P"
  define A where "A = calcScaleHandleCoord (orientedBoxCoords a G) k"
  define G' where "G' = scaleShape k (Finite sx) (Finite sy) sel"
  define c' where "c' = getCenter (getExtent G')"
  define m where "m = (\<lambda>q. rotateCoord (- a) c'
      (rotateCoord a A (scaleCoord sx sy A (rotateCoord (- a) A (rotateCoord a c q)))))"
  have Cne: "C \<noteq> []" using assms(3) by (simp add: C_def G_def)
  have EP: "getExtent (rotateGeometry (- a) c G) = E"
    by (simp add: E_def P_def C_def getExtent_def rotateGeometry_def coordinatesOf_mapGeometry)
  have A: "A = rotateCoord a c (localHandle E k)"
    unfolding A_def c_def using obb_handle_local [OF k, of a G] EP [unfolded c_def] by simp
  have G'eq: "G' = mapGeometry (\<lambda>p. rotateCoord a A (scaleCoord sx sy A (rotateCoord (- a) A p))) G"
    by (simp add: G'_def scaleShape_Finite a_def G_def A_def rotateGeometry_def
        scaleGeometry_def mapGeometry_comp)
  have P': "map (rotateCoord (- a) c') (coordinatesOf G') = map m P"
    by (simp add: G'eq coordinatesOf_mapGeometry P_def C_def m_def rotateCoord_inverse)
  obtain \<beta> \<delta> where m: "m = axisMap sx \<beta> sy \<delta>"
  proof -
    have "m q = axisMap sx
        (1 * (sx * (fst (rotateCoord (- a) A c) - fst c) + (fst A - sx * fst A))
          + (fst (rotateCoord (- a) c' A) - fst A))
        sy
        (1 * (sy * (snd (rotateCoord (- a) A c) - snd c) + (snd A - sy * snd A))
          + (snd (rotateCoord (- a) c' A) - snd A)) q" for q
      unfolding m_def
      by (simp only: rotate_back_translate scaleCoord_axisMap axisMap_comp mult_1_left mult_1_right)
    then show ?thesis using that by (auto simp: fun_eq_iff)
  qed
  have Pne: "P \<noteq> []" using Cne by (simp add: P_def)
  have E': "getExtent (rotateGeometry (- a) c' G') = axisExtent sx \<beta> sy \<delta> E"
    using boundingExtent_axisMap [OF assms(1,2) Pne, of \<beta> \<delta>]
    by (simp add: getExtent_def rotateGeometry_def coordinatesOf_mapGeometry P' m E_def)
  have "calcScaleHandleCoord (orientedBoxCoords a G') k =
          rotateCoord a c' (localHandle (axisExtent sx \<beta> sy \<delta> E) k)"
    using obb_handle_local [OF k, of a G'] E' [unfolded c'_def] by (simp add: c'_def)
  also have "\<dots> = rotateCoord a c' (m (localHandle E k))"
    by (simp add: localHandle_axisMap m)
  also have "m (localHandle E k) = rotateCoord (- a) c' A"
    unfolding m_def A [symmetric] by (simp add: rotateCoord_anchor scaleCoord_anchor)
  also have "rotateCoord a c' (rotateCoord (- a) c' A) = A"
    by (rule rotateCoord_inverse)
  finally show ?thesis
    by (simp add: G'_def a_def A_def G_def)
qed

text \<open>
  C8 (amended). Let a drag frame in scale mode, on a grabbed box of non-zero width and
  height, succeed with scale factors that are not negative, the selection being
  duplicate-free and index-aligned with the snapshot.
  For every selected feature whose snapshot has a coordinate and the same angle
  attribute, the ring position of the recorded opposite index on the oriented box of
  the feature after the frame is the ring position of that index on the oriented box
  of its snapshot: the anchor is a fixed point, for every stored angle. (The opposite
  index is recorded at pointer-down as the handle index plus 4, modulo 8.)
\<close>

theorem scale_anchor_fixed_point:
  assumes "mode st = Scale" and "distinct (selections st)"
    and "length (prevSelections st) = length (selections st)"
    and "handleDragEvent evt st = Inr st1"
    and "0 \<le> fst (scaleFactors evt (scalingSel st))"
    and "0 \<le> snd (scaleFactors evt (scalingSel st))"
    and "i < length (selections st)"
    and "coordinatesOf (geometry (prevSelections st ! i)) \<noteq> []"
    and "angle (store st (selections st ! i)) = angle (prevSelections st ! i)"
    and "scW (scalingSel st) \<noteq> 0" and "scH (scalingSel st) \<noteq> 0"
  shows "calcScaleHandleCoord
           (orientedBoxCoords (angleOrZero (store st1 (selections st ! i)))
              (geometry (store st1 (selections st ! i))))
           (scOppositeIdx (scalingSel st)) =
         calcScaleHandleCoord
           (orientedBoxCoords (angleOrZero (prevSelections st ! i))
              (geometry (prevSelections st ! i)))
           (scOppositeIdx (scalingSel st))"
proof -
  have c: "length (prevSelections st) \<le> length (selections st)"
    using assms(3) by simp
  let ?st0 = "st\<lparr>handleLayer := [], isTransformed := True\<rparr>"
  let ?k = "scOppositeIdx (scalingSel st)"
  let ?fx = "fst (scaleFactors evt (scalingSel st))"
  let ?fy = "snd (scaleFactors evt (scalingSel st))"
  let ?gs = "map (scaleShape ?k (Finite ?fx) (Finite ?fy)) (prevSelections st)"
  let ?f = "selections st ! i"
  let ?sel = "prevSelections st ! i"
  from handleDragEvent_scale [OF assms(1) c assms(10,11), of evt] assms(4)
  have e: "st1 = dispatchTransformEvent Transforming evt (dispatchTransformEvent Scaling evt
       ((assignGeoms 0 ?gs ?st0)\<lparr>headInverted := (?fy < 0)\<rparr>))"
    by simp
  have "distinct (selections ?st0)" and "0 + length ?gs \<le> length (selections ?st0)"
    using assms(2,3) by simp_all
  from assignGeoms_store [OF this] assms(3,7)
  have "store (assignGeoms 0 ?gs ?st0) ?f = (store st ?f)\<lparr>geometry := ?gs ! i\<rparr>"
    by simp
  then have s1: "store st1 ?f =
      (store st ?f)\<lparr>geometry := scaleShape ?k (Finite ?fx) (Finite ?fy) ?sel\<rparr>"
    using assms(3,7) by (simp add: e dispatchTransformEvent_def)
  have an: "angleOrZero (store st1 ?f) = angleOrZero ?sel"
    using assms(9) by (simp add: s1 angleOrZero_def)
  show ?thesis
    unfolding an using anchor_fixed [OF assms(5,6,8), of ?k] by (simp add: s1)
qed

text \<open>
  C8 (witness). The handle of index 6 of the square dragged to \<open>(20, 20)\<close>: the factors
  are \<open>(2, 2)\<close>, and the corner of index 2 is \<open>(0, 0)\<close> before and after.
\<close>

theorem scale_anchor_fixed_point_witness:
  "mode scalePressed6 = Scale \<and> distinct (selections scalePressed6)
   \<and> length (prevSelections scalePressed6) = length (selections scalePressed6)
   \<and> handleDragEvent (pointer (20, 20) [] False) scalePressed6 = Inr scaleDragged6
   \<and> scaleFactors (pointer (20, 20) [] False) (scalingSel scalePressed6) = (2, 2)
   \<and> scW (scalingSel scalePressed6) = 10 \<and> scH (scalingSel scalePressed6) = 10
   \<and> scOppositeIdx (scalingSel scalePressed6) = 2
   \<and> calcScaleHandleCoord
        (orientedBoxCoords (angleOrZero (store scaleDragged6 0)) (geometry (store scaleDragged6 0))) 2
      = (0, 0)
   \<and> calcScaleHandleCoord
        (orientedBoxCoords (angleOrZero (prevSelections scalePressed6 ! 0))
           (geometry (prevSelections scalePressed6 ! 0))) 2
      = (0, 0)"
proof -
  note p = scalePressed6_fields
  have a1: "mode scalePressed6 = Scale" and a2: "distinct (selections scalePressed6)"
    and a3: "length (prevSelections scalePressed6) = length (selections scalePressed6)"
    and a7: "0 < length (selections scalePressed6)"
    and a8: "coordinatesOf (geometry (prevSelections scalePressed6 ! 0)) \<noteq> []"
    and a9: "angle (store scalePressed6 (selections scalePressed6 ! 0)) =
             angle (prevSelections scalePressed6 ! 0)"
    and a10: "scW (scalingSel scalePressed6) \<noteq> 0"
    and a11: "scH (scalingSel scalePressed6) \<noteq> 0"
    by (simp_all add: p squareStore_def square_def)
  have f: "scaleFactors (pointer (20, 20) [] False) (scalingSel scalePressed6) = (2, 2)"
    by (simp add: p scaleFactors_6)
  then have a5: "0 \<le> fst (scaleFactors (pointer (20, 20) [] False) (scalingSel scalePressed6))"
    and a6: "0 \<le> snd (scaleFactors (pointer (20, 20) [] False) (scalingSel scalePressed6))"
    by simp_all
  note a4 = scaleDragged6_eq
  have before: "calcScaleHandleCoord
        (orientedBoxCoords (angleOrZero (prevSelections scalePressed6 ! 0))
           (geometry (prevSelections scalePressed6 ! 0))) 2 = (0, 0)"
    by (simp add: p angleOrZero_def orientedBox_square)
  from scale_anchor_fixed_point [OF a1 a2 a3 a4 a5 a6 a7 a8 a9 a10 a11] before
  have "calcScaleHandleCoord
        (orientedBoxCoords (angleOrZero (store scaleDragged6 0)) (geometry (store scaleDragged6 0))) 2
      = (0, 0)"
    by (simp add: p)
  with a1 a2 a3 a4 f before a10 a11 show ?thesis by (simp add: p)
qed

text \<open>
  C8 (counterexample). The handle of index 7 of the square dragged from \<open>(5, 10)\<close> to
  \<open>(5, -10)\<close> (\<open>scaleY = -1\<close>): the ring position of the opposite index 3 is \<open>(5, 0)\<close>
  before the frame and \<open>(5, -10)\<close> on the oriented box after it.
\<close>

theorem scale_anchor_mirrored_counterexample:
  "handleDragEvent (pointer (5, - 10) [] False) (pressed7 (Some 0)) = Inr (dragged7 (Some 0))
   \<and> scOppositeIdx (scalingSel (pressed7 (Some 0))) = 3
   \<and> calcScaleHandleCoord
        (orientedBoxCoords (angleOrZero (store (pressed7 (Some 0)) 0))
           (geometry (store (pressed7 (Some 0)) 0))) 3 = (5, 0)
   \<and> calcScaleHandleCoord
        (orientedBoxCoords (angleOrZero (store (dragged7 (Some 0)) 0))
           (geometry (store (dragged7 (Some 0)) 0))) 3 = (5, - 10)"
proof -
  have z: "Some (0::real) = None \<or> Some (0::real) = Some 0" by simp
  note p = pressed7_fields [OF z]
  note d = dragged7_fields [OF z]
  have ob: "orientedBoxCoords 0 (Polygon [(0, 0), (10, 0), (10, - 10), (0, - 10), (0, 0)]) =
      [(0, 0), (0, - 10), (10, - 10), (10, 0), (0, 0)]"
    by (simp add: orientedBoxCoords_def Let_def rotateGeometry_def rotateCoord_zero
        getExtent_def extendCoordinate_def fromExtent_def getCenter_def)
  show ?thesis
    by (simp add: dragged7_eq [OF z] p d squareWith_def angleOrZero_def orientedBox_square ob
        getCenter_def extendCoordinate_def)
qed

end
